(* ===== verification/Rust_Prelude.thy ===== *)
theory Rust_Prelude
  imports Main "HOL-Library.Sublist" "HOL-Library.Word"
begin

text \<open>
  The part of Rust's standard library that the modelled code uses, and the lemmas every
  component shares.

  A Rust \<open>String\<close> or \<open>&str\<close> is modelled by the list of its characters, \<^typ>\<open>string\<close>. A value of
  type \<^typ>\<open>char\<close> stands for the Unicode scalar value with its code, so the model covers the
  characters U+0000 to U+00FF; the predicates below are Unicode's on that range. Lengths in bytes
  (\<open>str::len\<close>) are \<open>utf8_len\<close>, lengths in characters (\<open>chars().count()\<close>) are \<^const>\<open>length\<close>. A
  \<open>HashSet\<close> or \<open>HashMap\<close> that the code only inserts into, removes from and queries is a \<^typ>\<open>'a set\<close>
  or a map. Unsigned integers keep their width (\<open>u8\<close>, \<open>u32\<close>, \<open>u64\<close>); an addition written \<open>+\<close> wraps,
  as it does in the release profile the program ships with.
\<close>

named_theorems rust_str \<open>equations that evaluate the string operations\<close>
named_theorems wg_simps \<open>characteristic equations of the work-graph operations\<close>

type_synonym u8 = "8 word"
type_synonym u32 = "32 word"
type_synonym u64 = "64 word"
type_synonym usize = nat

section \<open>Characters\<close>

text \<open>\<open>char::is_whitespace\<close>: the White_Space property, restricted to U+0000 .. U+00FF.\<close>

definition is_whitespace :: "char \<Rightarrow> bool" where
  "is_whitespace c \<longleftrightarrow>
     (let n = (of_char c :: nat)
      in (9 \<le> n \<and> n \<le> 13) \<or> n = 32 \<or> n = 0x85 \<or> n = 0xA0)"

text \<open>\<open>char::is_control\<close>: the general category Cc.\<close>

definition is_control :: "char \<Rightarrow> bool" where
  "is_control c \<longleftrightarrow> (let n = (of_char c :: nat) in n < 32 \<or> (127 \<le> n \<and> n < 160))"

definition is_ascii_digit :: "char \<Rightarrow> bool" where
  "is_ascii_digit c \<longleftrightarrow> (let n = (of_char c :: nat) in 48 \<le> n \<and> n \<le> 57)"

definition is_ascii_alphabetic :: "char \<Rightarrow> bool" where
  "is_ascii_alphabetic c \<longleftrightarrow>
     (let n = (of_char c :: nat) in (65 \<le> n \<and> n \<le> 90) \<or> (97 \<le> n \<and> n \<le> 122))"

definition is_ascii_alphanumeric :: "char \<Rightarrow> bool" where
  "is_ascii_alphanumeric c \<longleftrightarrow> is_ascii_alphabetic c \<or> is_ascii_digit c"

definition ascii_lower :: "char \<Rightarrow> char" where
  "ascii_lower c = (let n = (of_char c :: nat) in if 65 \<le> n \<and> n \<le> 90 then char_of (n + 32) else c)"

section \<open>Strings\<close>

definition to_ascii_lowercase :: "string \<Rightarrow> string" where
  "to_ascii_lowercase s = map ascii_lower s"

definition eq_ignore_ascii_case :: "string \<Rightarrow> string \<Rightarrow> bool" where
  "eq_ignore_ascii_case a b \<longleftrightarrow> to_ascii_lowercase a = to_ascii_lowercase b"

text \<open>\<open>str::len\<close> counts the bytes of the UTF-8 encoding.\<close>

definition utf8_len :: "string \<Rightarrow> usize" where
  "utf8_len s = sum_list (map (\<lambda>c. if (of_char c :: nat) < 128 then 1 else 2) s)"

definition trim_start :: "string \<Rightarrow> string" where
  "trim_start s = dropWhile is_whitespace s"

definition trim_end_matches :: "char list \<Rightarrow> string \<Rightarrow> string" where
  "trim_end_matches cs s = rev (dropWhile (\<lambda>c. c \<in> set cs) (rev s))"

definition trim_start_matches :: "char list \<Rightarrow> string \<Rightarrow> string" where
  "trim_start_matches cs s = dropWhile (\<lambda>c. c \<in> set cs) s"

definition trim_end :: "string \<Rightarrow> string" where
  "trim_end s = rev (dropWhile is_whitespace (rev s))"

definition trim :: "string \<Rightarrow> string" where
  "trim s = trim_end (trim_start s)"

text \<open>\<open>str::split_whitespace\<close>: the maximal runs of characters that are not white space.\<close>

function split_whitespace :: "string \<Rightarrow> string list" where
  "split_whitespace s =
     (let t = dropWhile is_whitespace s
      in if t = [] then []
         else takeWhile (\<lambda>c. \<not> is_whitespace c) t
              # split_whitespace (dropWhile (\<lambda>c. \<not> is_whitespace c) t))"
  by pat_completeness auto
termination
proof (relation "measure length", goal_cases)
  case (2 s t)
  then have "t \<noteq> []" and hd: "\<not> is_whitespace (hd t)"
    using hd_dropWhile [of is_whitespace s] by simp_all
  then have "length (dropWhile (\<lambda>c. \<not> is_whitespace c) t) < length t"
    by (cases t) (simp_all add: le_imp_less_Suc length_dropWhile_le)
  also have "length t \<le> length s"
    using 2 by (simp add: length_dropWhile_le)
  finally show ?case by simp
qed simp

text \<open>\<open>str::split\<close> with a set of separator characters: one piece more than separators.\<close>

fun split_any :: "char list \<Rightarrow> string \<Rightarrow> string list" where
  "split_any cs [] = [[]]"
| "split_any cs (x # xs) =
     (if x \<in> set cs then [] # split_any cs xs
      else (case split_any cs xs of [] \<Rightarrow> [[x]] | p # ps \<Rightarrow> (x # p) # ps))"

abbreviation split_on :: "char \<Rightarrow> string \<Rightarrow> string list" where
  "split_on c \<equiv> split_any [c]"

text \<open>\<open>slice::join\<close>.\<close>

fun join :: "string \<Rightarrow> string list \<Rightarrow> string" where
  "join sep [] = []"
| "join sep [x] = x"
| "join sep (x # y # ys) = x @ sep @ join sep (y # ys)"

definition strip_prefix :: "'a list \<Rightarrow> 'a list \<Rightarrow> 'a list option" where
  "strip_prefix p s = (if prefix p s then Some (drop (length p) s) else None)"

text \<open>\<open>str::split_once\<close> with a character and with a string.\<close>

definition split_once :: "char \<Rightarrow> string \<Rightarrow> (string \<times> string) option" where
  "split_once c s =
     (if c \<in> set s then Some (takeWhile (\<lambda>x. x \<noteq> c) s, tl (dropWhile (\<lambda>x. x \<noteq> c) s)) else None)"

fun split_once_str :: "string \<Rightarrow> string \<Rightarrow> (string \<times> string) option" where
  "split_once_str p [] = (if p = [] then Some ([], []) else None)"
| "split_once_str p (x # xs) =
     (if prefix p (x # xs) then Some ([], drop (length p) (x # xs))
      else map_option (\<lambda>(a, b). (x # a, b)) (split_once_str p xs))"

text \<open>\<open>str::contains\<close> with a string.\<close>

fun contains_str :: "string \<Rightarrow> string \<Rightarrow> bool" where
  "contains_str p [] \<longleftrightarrow> p = []"
| "contains_str p (x # xs) \<longleftrightarrow> prefix p (x # xs) \<or> contains_str p xs"

text \<open>
  \<open>str::replace\<close> with a two-character pattern: leftmost, non-overlapping occurrences.
\<close>

fun replace2 :: "char \<Rightarrow> char \<Rightarrow> string \<Rightarrow> string \<Rightarrow> string" where
  "replace2 a b r (x # y # ys) =
     (if x = a \<and> y = b then r @ replace2 a b r ys else x # replace2 a b r (y # ys))"
| "replace2 a b r xs = xs"

text \<open>\<open>str::replace\<close> with a set of single characters.\<close>

definition replace_any :: "char list \<Rightarrow> char \<Rightarrow> string \<Rightarrow> string" where
  "replace_any cs r s = map (\<lambda>c. if c \<in> set cs then r else c) s"

text \<open>
  \<open>str::lines\<close>: the pieces between line feeds, without the last piece when it is empty; a carriage
  return is dropped only where a line feed follows it.
\<close>

definition strip_cr :: "string \<Rightarrow> string" where
  "strip_cr s = (if s \<noteq> [] \<and> last s = CHR 0x0D then butlast s else s)"

definition lines :: "string \<Rightarrow> string list" where
  "lines s = (let ps = split_on CHR 0x0A s
              in map strip_cr (butlast ps) @ (if last ps = [] then [] else [last ps]))"

text \<open>The last piece of \<open>rsplit\<close> with the separators \<open>/\<close> and \<open>\\<close>.\<close>

definition last_component :: "string \<Rightarrow> string" where
  "last_component s = last (split_any [CHR ''/'', CHR 0x5C] s)"


declare split_whitespace.simps [simp del]

section \<open>Laws of the string operations\<close>

subsection \<open>Trimming and case folding\<close>

text \<open>A token is a non-empty string without white space.\<close>

definition is_token :: "string \<Rightarrow> bool" where
  "is_token t \<longleftrightarrow> t \<noteq> [] \<and> (\<forall>c \<in> set t. \<not> is_whitespace c)"

lemma is_whitespace_space [simp]: "is_whitespace CHR '' ''"
  by (simp add: is_whitespace_def)

lemma is_token_takeWhile:
  assumes "t = dropWhile is_whitespace s" and "t \<noteq> []"
  shows "is_token (takeWhile (\<lambda>c. \<not> is_whitespace c) t)"
proof -
  have "\<not> is_whitespace (hd t)"
    using assms hd_dropWhile [of is_whitespace s] by simp
  then show ?thesis
    using assms(2) by (cases t) (auto simp: is_token_def dest: set_takeWhileD)
qed

lemma split_whitespace_blank: "dropWhile is_whitespace s = [] \<Longrightarrow> split_whitespace s = []"
  by (subst split_whitespace.simps) (simp only: Let_def simp_thms if_True)

lemma split_whitespace_step:
  "dropWhile is_whitespace s = t \<Longrightarrow> t \<noteq> [] \<Longrightarrow>
     split_whitespace s =
       takeWhile (\<lambda>c. \<not> is_whitespace c) t # split_whitespace (dropWhile (\<lambda>c. \<not> is_whitespace c) t)"
  by (subst split_whitespace.simps) (simp only: Let_def simp_thms if_False)

lemma split_whitespace_tokens: "t \<in> set (split_whitespace s) \<Longrightarrow> is_token t"
proof (induction s rule: split_whitespace.induct)
  case (1 s)
  let ?t = "dropWhile is_whitespace s"
  show ?case
  proof (cases "?t = []")
    case True
    with "1.prems" show ?thesis by (simp add: split_whitespace_blank del: dropWhile_eq_Nil_conv)
  next
    case False
    note step = split_whitespace_step [OF refl False]
    with "1.prems" have "t = takeWhile (\<lambda>c. \<not> is_whitespace c) ?t
        \<or> t \<in> set (split_whitespace (dropWhile (\<lambda>c. \<not> is_whitespace c) ?t))"
      by simp
    with "1.IH" [OF refl False] is_token_takeWhile [OF refl False] show ?thesis by blast
  qed
qed

lemma split_whitespace_Nil [simp]: "split_whitespace [] = []"
  by (simp add: split_whitespace_blank)

lemma split_whitespace_token:
  assumes "is_token t"
  shows "split_whitespace t = [t]"
proof -
  have d: "dropWhile is_whitespace t = t" and ne: "t \<noteq> []"
    using assms by (cases t; auto simp: is_token_def)+
  have "takeWhile (\<lambda>c. \<not> is_whitespace c) t = t" and "dropWhile (\<lambda>c. \<not> is_whitespace c) t = []"
    using assms by (simp_all add: is_token_def)
  with split_whitespace_step [OF d ne] show ?thesis by simp
qed

lemma split_whitespace_Cons:
  assumes "is_token t" and "is_whitespace w"
  shows "split_whitespace (t @ w # r) = t # split_whitespace r"
proof -
  have d: "dropWhile is_whitespace (t @ w # r) = t @ w # r"
    using assms(1) by (cases t) (auto simp: is_token_def)
  have "split_whitespace (t @ w # r) = t # split_whitespace (w # r)"
    using assms d
    by (subst split_whitespace.simps)
      (auto simp: Let_def is_token_def takeWhile_append dropWhile_append)
  also have "split_whitespace (w # r) = split_whitespace r"
    using assms(2) by (simp add: split_whitespace.simps [of "w # r"] split_whitespace.simps [of r])
  finally show ?thesis .
qed

lemma split_whitespace_join:
  assumes "\<forall>t \<in> set ts. is_token t"
  shows "split_whitespace (join '' '' ts) = ts"
  using assms
proof (induction ts rule: induct_list012)
  case (3 x y zs)
  then show ?case by (simp add: split_whitespace_Cons)
qed (simp_all add: split_whitespace_token)

lemma ascii_lower_idem [simp]: "ascii_lower (ascii_lower c) = ascii_lower c"
  by (auto simp: ascii_lower_def Let_def of_char_of)

lemma of_char_less_256: "(of_char (c :: char) :: nat) < 256"
proof -
  have "(of_char c :: nat) \<in> range (of_char :: char \<Rightarrow> nat)" by blast
  then show ?thesis by (simp add: range_nat_of_char)
qed

lemma ascii_lower_whitespace [simp]: "is_whitespace (ascii_lower c) = is_whitespace c"
  by (auto simp: is_whitespace_def ascii_lower_def Let_def)

lemma ascii_lower_iff:
  assumes "\<not> is_ascii_alphabetic d"
  shows "ascii_lower c = d \<longleftrightarrow> c = d"
proof
  assume "ascii_lower c = d"
  with assms show "c = d"
    by (auto simp: ascii_lower_def is_ascii_alphabetic_def Let_def of_char_of split: if_splits)
next
  assume "c = d"
  with assms show "ascii_lower c = d"
    by (auto simp: ascii_lower_def is_ascii_alphabetic_def Let_def)
qed

lemma to_ascii_lowercase_simps [simp]:
  "to_ascii_lowercase [] = []"
  "to_ascii_lowercase (c # s) = ascii_lower c # to_ascii_lowercase s"
  "to_ascii_lowercase (s @ t) = to_ascii_lowercase s @ to_ascii_lowercase t"
  by (simp_all add: to_ascii_lowercase_def)

lemma to_ascii_lowercase_idem [simp]:
  "to_ascii_lowercase (to_ascii_lowercase s) = to_ascii_lowercase s"
  by (induction s) simp_all

lemma to_ascii_lowercase_Nil_iff [simp]: "to_ascii_lowercase s = [] \<longleftrightarrow> s = []"
  by (simp add: to_ascii_lowercase_def)

lemma is_token_lowercase [simp]: "is_token (to_ascii_lowercase t) = is_token t"
  by (auto simp: is_token_def to_ascii_lowercase_def)

lemma ascii_lower_space [simp]: "ascii_lower CHR '' '' = CHR '' ''"
  by (simp add: ascii_lower_def)

lemma to_ascii_lowercase_join:
  "to_ascii_lowercase (join '' '' ts) = join '' '' (map to_ascii_lowercase ts)"
  by (induction ts rule: induct_list012) simp_all

lemma trim_trim [simp]: "trim (trim s) = trim s"
proof -
  have ts: "dropWhile is_whitespace (trim s) = trim s"
  proof (cases "trim s")
    case Nil
    then show ?thesis by simp
  next
    case (Cons x xs)
    define u where "u = dropWhile is_whitespace s"
    have "prefix (trim s) u"
      unfolding trim_def trim_end_def trim_start_def u_def [symmetric]
      by (metis suffix_dropWhile suffix_to_prefix rev_rev_ident)
    with Cons have "u \<noteq> []" and "hd u = x" by (auto simp: prefix_def)
    with hd_dropWhile [of is_whitespace s] have "\<not> is_whitespace x"
      unfolding u_def by metis
    with Cons show ?thesis by simp
  qed
  have "trim_end (trim s) = trim s"
    by (simp add: trim_def trim_end_def)
  with ts show ?thesis by (simp add: trim_def trim_start_def)
qed

subsection \<open>Splitting and joining\<close>

lemma split_any_not_Nil [simp]: "split_any cs s \<noteq> []"
  by (cases s) (auto split: list.splits)

lemma split_any_pieces:
  "p \<in> set (split_any cs s) \<Longrightarrow> set p \<inter> set cs = {} \<and> set p \<subseteq> set s"
proof (induction s arbitrary: p)
  case (Cons x xs)
  show ?case
  proof (cases "split_any cs xs")
    case (Cons q qs)
    with Cons.IH Cons.prems show ?thesis by (fastforce split: if_splits)
  qed simp
qed simp

lemma split_any_no_sep: "set s \<inter> set cs = {} \<Longrightarrow> split_any cs s = [s]"
  by (induction s) auto

lemma split_any_append:
  "set s \<inter> set cs = {} \<Longrightarrow> c \<in> set cs \<Longrightarrow> split_any cs (s @ c # r) = s # split_any cs r"
  by (induction s) auto

lemma join_split_on: "join [c] (split_on c s) = s"
proof (induction s)
  case (Cons x xs)
  then show ?case
    by (cases "split_on c xs"; cases "tl (split_on c xs)") (auto split: list.splits)
qed simp

lemma split_on_join:
  "xs \<noteq> [] \<Longrightarrow> \<forall>x \<in> set xs. c \<notin> set x \<Longrightarrow> split_on c (join [c] xs) = xs"
proof (induction xs rule: induct_list012)
  case (3 x y zs)
  then show ?case using split_any_append [of x "[c]" c] by simp
qed (simp_all add: split_any_no_sep)

lemma join_Nil_iff: "join [c] xs = [] \<longleftrightarrow> xs = [] \<or> xs = [[]]"
  by (induction xs rule: induct_list012) auto

lemma set_join: "set (join sep xs) \<subseteq> set sep \<union> (\<Union>x \<in> set xs. set x)"
  by (induction xs rule: induct_list012) auto

lemma split_whitespace_append_blank:
  assumes "\<forall>c \<in> set w. is_whitespace c"
  shows "split_whitespace (s @ w) = split_whitespace s"
proof (induction s rule: split_whitespace.induct)
  case (1 s)
  let ?t = "dropWhile is_whitespace s"
  have w: "takeWhile (\<lambda>c. \<not> is_whitespace c) w = []" "dropWhile (\<lambda>c. \<not> is_whitespace c) w = w"
    using assms by (cases w; simp)+
  show ?case
  proof (cases "?t = []")
    case True
    then have "dropWhile is_whitespace (s @ w) = []" using assms by auto
    with True show ?thesis by (simp only: split_whitespace_blank)
  next
    case False
    then have d: "dropWhile is_whitespace (s @ w) = ?t @ w" by (auto simp: dropWhile_append)
    show ?thesis
    proof (cases "\<exists>c \<in> set ?t. is_whitespace c")
      case True
      then have "takeWhile (\<lambda>c. \<not> is_whitespace c) (?t @ w) = takeWhile (\<lambda>c. \<not> is_whitespace c) ?t"
        and "dropWhile (\<lambda>c. \<not> is_whitespace c) (?t @ w) = dropWhile (\<lambda>c. \<not> is_whitespace c) ?t @ w"
        by (auto simp: takeWhile_append dropWhile_append)
      with split_whitespace_step [OF d] split_whitespace_step [OF refl False] "1.IH" [OF refl False] False
      show ?thesis by (simp del: dropWhile_eq_Nil_conv)
    next
      case nows: False
      then have "takeWhile (\<lambda>c. \<not> is_whitespace c) (?t @ w) = ?t"
        and "dropWhile (\<lambda>c. \<not> is_whitespace c) (?t @ w) = w"
        by (simp_all add: takeWhile_append dropWhile_append w)
      moreover from nows have "takeWhile (\<lambda>c. \<not> is_whitespace c) ?t = ?t"
        and "dropWhile (\<lambda>c. \<not> is_whitespace c) ?t = []" by simp_all
      moreover have "split_whitespace w = []"
        using assms by (intro split_whitespace_blank) simp
      ultimately show ?thesis
        using split_whitespace_step [OF d] split_whitespace_step [OF refl False] False
        by (simp del: dropWhile_eq_Nil_conv takeWhile_eq_all_conv)
    qed
  qed
qed

lemma split_whitespace_trim [simp]: "split_whitespace (trim s) = split_whitespace s"
proof -
  let ?t = "dropWhile is_whitespace s"
  have start: "split_whitespace ?t = split_whitespace s"
    by (simp add: split_whitespace.simps [of s] split_whitespace.simps [of ?t])
  have "?t = trim s @ rev (takeWhile is_whitespace (rev ?t))"
    by (simp add: trim_def trim_start_def trim_end_def flip: rev_append)
  moreover have "\<forall>c \<in> set (rev (takeWhile is_whitespace (rev ?t))). is_whitespace c"
    by (auto dest: set_takeWhileD)
  ultimately have "split_whitespace ?t = split_whitespace (trim s)"
    using split_whitespace_append_blank by metis
  with start show ?thesis by simp
qed

lemma split_whitespace_lowercase:
  "split_whitespace (to_ascii_lowercase s) = map to_ascii_lowercase (split_whitespace s)"
proof (induction s rule: split_whitespace.induct)
  case (1 s)
  let ?t = "dropWhile is_whitespace s"
  have d: "dropWhile is_whitespace (to_ascii_lowercase s) = to_ascii_lowercase ?t"
    by (simp add: to_ascii_lowercase_def dropWhile_map comp_def)
  show ?case
  proof (cases "?t = []")
    case True
    with d show ?thesis by (simp add: split_whitespace_blank del: dropWhile_eq_Nil_conv)
  next
    case False
    then have "to_ascii_lowercase ?t \<noteq> []" by (simp del: dropWhile_eq_Nil_conv)
    from split_whitespace_step [OF d this] split_whitespace_step [OF refl False]
      "1.IH" [OF refl False]
    show ?thesis by (simp add: to_ascii_lowercase_def takeWhile_map dropWhile_map comp_def)
  qed
qed

lemma split_whitespace_join_append:
  assumes "ts \<noteq> []" and "\<forall>t \<in> set ts. is_token t"
  shows "split_whitespace (join '' '' ts @ CHR '' '' # r) = ts @ split_whitespace r"
  using assms
proof (induction ts rule: induct_list012)
  case (3 x y zs)
  then show ?case by (simp add: split_whitespace_Cons)
qed (simp_all add: split_whitespace_Cons)

text \<open>A string of words starts with another one followed by a blank just if its words do.\<close>

lemma prefix_join_blank:
  assumes "ps \<noteq> []" and "\<forall>t \<in> set ps. is_token t" and "\<forall>t \<in> set cs. is_token t"
  shows "prefix (join '' '' ps @ '' '') (join '' '' cs) \<longleftrightarrow> strict_prefix ps cs"
proof
  assume "prefix (join '' '' ps @ '' '') (join '' '' cs)"
  then obtain r where r: "join '' '' cs = join '' '' ps @ CHR '' '' # r" by (auto simp: prefix_def)
  have "cs = ps @ split_whitespace r"
    using split_whitespace_join [OF assms(3)] split_whitespace_join_append [OF assms(1,2), of r] r
    by simp
  moreover have "split_whitespace r \<noteq> []"
  proof
    assume "split_whitespace r = []"
    with calculation r show False by simp
  qed
  ultimately show "strict_prefix ps cs" by (auto simp: strict_prefix_def)
next
  assume "strict_prefix ps cs"
  then obtain z zs where "cs = ps @ z # zs" by (auto elim: strict_prefixE')
  then show "prefix (join '' '' ps @ '' '') (join '' '' cs)"
    using assms(1)
  proof (induction ps arbitrary: cs rule: induct_list012)
    case (2 x)
    then show ?case by (simp)
  next
    case (3 x y zs)
    then show ?case by simp
  qed simp
qed

subsection \<open>Characters bit by bit\<close>

text \<open>Code equations on the bits of a character, so that evaluating a string operation does no arithmetic.\<close>

lemma ascii_lower_code [code]:
  "ascii_lower (Char b0 b1 b2 b3 b4 b5 b6 b7) =
     (if \<not> b7 \<and> b6 \<and> \<not> b5 \<and> (b0 \<or> b1 \<or> b2 \<or> b3 \<or> b4) \<and> \<not> (b4 \<and> b3 \<and> (b2 \<or> b1 \<and> b0))
      then Char b0 b1 b2 b3 b4 True b6 b7 else Char b0 b1 b2 b3 b4 b5 b6 b7)"
  by (cases b0; cases b1; cases b2; cases b3; cases b4; cases b5; cases b6; cases b7;
      simp add: ascii_lower_def char_of_def of_char_def horner_sum_simps bit_simps bit_numeral_rec)

lemma is_whitespace_code [code]:
  "is_whitespace (Char b0 b1 b2 b3 b4 b5 b6 b7) \<longleftrightarrow>
     \<not> b6 \<and> ((\<not> b7 \<and> \<not> b5 \<and> \<not> b4 \<and> b3 \<and> (if b2 then \<not> b1 else b0 \<or> b1)) \<or>
             (b5 \<and> \<not> b4 \<and> \<not> b3 \<and> \<not> b2 \<and> \<not> b1 \<and> \<not> b0) \<or>
             (b7 \<and> \<not> b5 \<and> \<not> b4 \<and> \<not> b3 \<and> b2 \<and> \<not> b1 \<and> b0))"
  by (cases b0; cases b1; cases b2; cases b3; cases b4; cases b5; cases b6; cases b7;
      simp add: is_whitespace_def of_char_def horner_sum_simps)

section \<open>Printing\<close>

text \<open>\<open>Display\<close> of an unsigned integer.\<close>

definition digit :: "nat \<Rightarrow> char" where
  "digit n = char_of (48 + n)"

fun show_nat :: "nat \<Rightarrow> string" where
  "show_nat n = (if n < 10 then [digit n] else show_nat (n div 10) @ [digit (n mod 10)])"

declare show_nat.simps [simp del]

text \<open>
  \<open>Debug\<close> of a string on U+0000 .. U+00FF: quotes, backslashes and the control characters with a short
  escape are escaped, and a character that is not printable is written as \<open>\u{..}\<close>.
\<close>

definition hex_digit :: "nat \<Rightarrow> char" where
  "hex_digit n = (if n < 10 then char_of (48 + n) else char_of (87 + n))"

definition is_printable :: "char \<Rightarrow> bool" where
  "is_printable c \<longleftrightarrow> (let n = (of_char c :: nat) in 32 \<le> n \<and> n < 127 \<or> 160 < n \<and> n \<noteq> 173)"

definition debug_char :: "char \<Rightarrow> string" where
  "debug_char c =
     (let n = (of_char c :: nat); bs = char_of (92 :: nat)
      in if n = 0 then [bs, CHR ''0'']
         else if n = 9 then [bs, CHR ''t'']
         else if n = 10 then [bs, CHR ''n'']
         else if n = 13 then [bs, CHR ''r'']
         else if n = 34 \<or> n = 92 then [bs, c]
         else if is_printable c then [c]
         else [bs] @ ''u{'' @ (if n < 16 then [hex_digit n] else [hex_digit (n div 16), hex_digit (n mod 16)]) @ ''}'')"

definition debug_str :: "string \<Rightarrow> string" where
  "debug_str s = (let q = char_of (34 :: nat) in [q] @ concat (map debug_char s) @ [q])"

end
