(* ===== verification/Bash_Arity.thy ===== *)
theory Bash_Arity
  imports Rust_Prelude
begin

text \<open>
  The arity dictionary of \<open>crates/execpolicy/src/bash_arity.rs\<close>: which words of a command form its
  canonical prefix, and when an allow rule matches a command. The lemmas say that flags never
  count, that the canonical prefix is a prefix of the positional words, and that an allow rule
  matches only a command that starts with the rule's words.
\<close>

section \<open>The arity table\<close>

definition git_arities :: "(string \<times> usize) list" where
  "git_arities =
     [(''git add'', 2),
      (''git am'', 2),
      (''git apply'', 2),
      (''git bisect'', 2),
      (''git blame'', 2),
      (''git branch'', 2),
      (''git cat-file'', 2),
      (''git checkout'', 2),
      (''git cherry-pick'', 2),
      (''git clean'', 2),
      (''git clone'', 2),
      (''git commit'', 2),
      (''git config'', 2),
      (''git describe'', 2),
      (''git diff'', 2),
      (''git fetch'', 2),
      (''git format-patch'', 2),
      (''git grep'', 2),
      (''git init'', 2),
      (''git log'', 2),
      (''git ls-files'', 2),
      (''git merge'', 2),
      (''git mv'', 2),
      (''git notes'', 2),
      (''git pull'', 2),
      (''git push'', 2),
      (''git rebase'', 2),
      (''git reflog'', 2),
      (''git remote'', 2),
      (''git reset'', 2),
      (''git restore'', 2),
      (''git revert'', 2),
      (''git rm'', 2),
      (''git show'', 2),
      (''git stash'', 2),
      (''git status'', 2),
      (''git submodule'', 2),
      (''git switch'', 2),
      (''git tag'', 2),
      (''git worktree'', 2)]"

definition npm_arities :: "(string \<times> usize) list" where
  "npm_arities =
     [(''npm audit'', 2),
      (''npm build'', 2),
      (''npm cache'', 2),
      (''npm ci'', 2),
      (''npm dedupe'', 2),
      (''npm fund'', 2),
      (''npm help'', 2),
      (''npm info'', 2),
      (''npm init'', 2),
      (''npm install'', 2),
      (''npm link'', 2),
      (''npm list'', 2),
      (''npm ls'', 2),
      (''npm outdated'', 2),
      (''npm pack'', 2),
      (''npm prune'', 2),
      (''npm publish'', 2),
      (''npm rebuild'', 2),
      (''npm run'', 3),
      (''npm start'', 2),
      (''npm stop'', 2),
      (''npm test'', 2),
      (''npm uninstall'', 2),
      (''npm update'', 2),
      (''npm version'', 2),
      (''npm view'', 2)]"

definition yarn_arities :: "(string \<times> usize) list" where
  "yarn_arities =
     [(''yarn add'', 2),
      (''yarn audit'', 2),
      (''yarn build'', 2),
      (''yarn install'', 2),
      (''yarn run'', 3),
      (''yarn start'', 2),
      (''yarn test'', 2),
      (''yarn upgrade'', 2),
      (''yarn workspace'', 3)]"

definition pnpm_arities :: "(string \<times> usize) list" where
  "pnpm_arities =
     [(''pnpm add'', 2),
      (''pnpm build'', 2),
      (''pnpm install'', 2),
      (''pnpm run'', 3),
      (''pnpm start'', 2),
      (''pnpm test'', 2),
      (''pnpm update'', 2)]"

definition cargo_arities :: "(string \<times> usize) list" where
  "cargo_arities =
     [(''cargo add'', 2),
      (''cargo bench'', 2),
      (''cargo build'', 2),
      (''cargo check'', 2),
      (''cargo clean'', 2),
      (''cargo clippy'', 2),
      (''cargo doc'', 2),
      (''cargo fix'', 2),
      (''cargo fmt'', 2),
      (''cargo generate'', 2),
      (''cargo install'', 2),
      (''cargo metadata'', 2),
      (''cargo package'', 2),
      (''cargo publish'', 2),
      (''cargo remove'', 2),
      (''cargo run'', 2),
      (''cargo search'', 2),
      (''cargo test'', 2),
      (''cargo tree'', 2),
      (''cargo uninstall'', 2),
      (''cargo update'', 2),
      (''cargo yank'', 2)]"

definition docker_arities :: "(string \<times> usize) list" where
  "docker_arities =
     [(''docker build'', 2),
      (''docker compose'', 3),
      (''docker container'', 3),
      (''docker cp'', 2),
      (''docker exec'', 2),
      (''docker image'', 3),
      (''docker images'', 2),
      (''docker inspect'', 2),
      (''docker kill'', 2),
      (''docker logs'', 2),
      (''docker network'', 3),
      (''docker ps'', 2),
      (''docker pull'', 2),
      (''docker push'', 2),
      (''docker rm'', 2),
      (''docker rmi'', 2),
      (''docker run'', 2),
      (''docker start'', 2),
      (''docker stop'', 2),
      (''docker system'', 3),
      (''docker tag'', 2),
      (''docker volume'', 3)]"

definition kubectl_arities :: "(string \<times> usize) list" where
  "kubectl_arities =
     [(''kubectl apply'', 2),
      (''kubectl create'', 3),
      (''kubectl delete'', 3),
      (''kubectl describe'', 3),
      (''kubectl exec'', 2),
      (''kubectl explain'', 2),
      (''kubectl get'', 3),
      (''kubectl label'', 2),
      (''kubectl logs'', 2),
      (''kubectl patch'', 2),
      (''kubectl port-forward'', 2),
      (''kubectl rollout'', 3),
      (''kubectl scale'', 2),
      (''kubectl set'', 2),
      (''kubectl top'', 3)]"

definition go_arities :: "(string \<times> usize) list" where
  "go_arities =
     [(''go build'', 2),
      (''go clean'', 2),
      (''go env'', 2),
      (''go fmt'', 2),
      (''go generate'', 2),
      (''go get'', 2),
      (''go install'', 2),
      (''go list'', 2),
      (''go mod'', 3),
      (''go run'', 2),
      (''go test'', 2),
      (''go vet'', 2),
      (''go work'', 3)]"

definition python_arities :: "(string \<times> usize) list" where
  "python_arities =
     [(''pip install'', 2),
      (''pip uninstall'', 2),
      (''pip list'', 2),
      (''pip show'', 2),
      (''pip freeze'', 2),
      (''pip3 install'', 2),
      (''pip3 uninstall'', 2),
      (''pip3 list'', 2),
      (''pip3 show'', 2),
      (''python -m'', 3),
      (''python3 -m'', 3)]"

definition make_arities :: "(string \<times> usize) list" where
  "make_arities =
     [(''make'', 1),
      (''cmake'', 1)]"

definition gh_arities :: "(string \<times> usize) list" where
  "gh_arities =
     [(''gh pr'', 3),
      (''gh issue'', 3),
      (''gh repo'', 3),
      (''gh release'', 3),
      (''gh workflow'', 3),
      (''gh run'', 3),
      (''gh secret'', 3)]"

definition rustup_arities :: "(string \<times> usize) list" where
  "rustup_arities =
     [(''rustup default'', 2),
      (''rustup install'', 2),
      (''rustup show'', 2),
      (''rustup target'', 3),
      (''rustup toolchain'', 3),
      (''rustup update'', 2)]"

definition deno_arities :: "(string \<times> usize) list" where
  "deno_arities =
     [(''deno run'', 2),
      (''deno test'', 2),
      (''deno fmt'', 2),
      (''deno lint'', 2),
      (''bun add'', 2),
      (''bun build'', 2),
      (''bun install'', 2),
      (''bun run'', 3),
      (''bun test'', 2),
      (''npx'', 2)]"

definition aws_arities :: "(string \<times> usize) list" where
  "aws_arities =
     [(''aws s3'', 3),
      (''aws ec2'', 3),
      (''aws iam'', 3),
      (''aws lambda'', 3),
      (''aws cloudformation'', 3),
      (''aws ecs'', 3),
      (''aws eks'', 3),
      (''aws rds'', 3),
      (''aws sts'', 3),
      (''aws configure'', 2)]"

definition terraform_arities :: "(string \<times> usize) list" where
  "terraform_arities =
     [(''terraform init'', 2),
      (''terraform plan'', 2),
      (''terraform apply'', 2),
      (''terraform destroy'', 2),
      (''terraform validate'', 2),
      (''terraform output'', 2),
      (''terraform state'', 3),
      (''terraform workspace'', 3)]"

definition helm_arities :: "(string \<times> usize) list" where
  "helm_arities =
     [(''helm install'', 2),
      (''helm upgrade'', 2),
      (''helm uninstall'', 2),
      (''helm list'', 2),
      (''helm repo'', 3),
      (''helm status'', 2),
      (''helm template'', 2)]"

definition BASH_ARITY_TABLE :: "(string \<times> usize) list" where
  "BASH_ARITY_TABLE =
     git_arities @ npm_arities @ yarn_arities @ pnpm_arities @ cargo_arities @
      docker_arities @ kubectl_arities @ go_arities @ python_arities @ make_arities @
      gh_arities @ rustup_arities @ deno_arities @ aws_arities @ terraform_arities @
      helm_arities"

section \<open>The dictionary\<close>

record bash_arity_dict =
  entries :: "(string \<times> usize) list"

text \<open>\<open>BashArityDict::new\<close>: a stable sort by decreasing length of the key.\<close>

definition arity_dict_new :: bash_arity_dict where
  "arity_dict_new = \<lparr>entries = sort_key (\<lambda>e. - int (utf8_len (fst e))) BASH_ARITY_TABLE\<rparr>"

definition is_flag :: "string \<Rightarrow> bool" where
  "is_flag t \<longleftrightarrow> prefix ''-'' t"

text \<open>The loop of \<open>classify\<close>: candidates from \<open>depth\<close> words down to one word.\<close>

fun classify_from :: "bash_arity_dict \<Rightarrow> string list \<Rightarrow> nat \<Rightarrow> string" where
  "classify_from d positional 0 = hd positional"
| "classify_from d positional (Suc n) =
     (case find (\<lambda>e. fst e = join '' '' (take (Suc n) positional)) (entries d) of
        Some (_, arity) \<Rightarrow> join '' '' (take (min arity (length positional)) positional)
      | None \<Rightarrow> classify_from d positional n)"

definition classify :: "bash_arity_dict \<Rightarrow> string list \<Rightarrow> string" where
  "classify d tokens =
     (if tokens = [] then []
      else let positional = map to_ascii_lowercase (filter (\<lambda>t. \<not> is_flag t) tokens)
           in if positional = [] then []
              else classify_from d positional (min (length positional) 3))"

definition allow_rule_matches :: "bash_arity_dict \<Rightarrow> string \<Rightarrow> string \<Rightarrow> bool" where
  "allow_rule_matches d pattern command =
     (let pattern_lower = to_ascii_lowercase (trim pattern);
          canonical = classify d (split_whitespace command)
      in if canonical = pattern_lower then True
         else let command_lower = to_ascii_lowercase (trim command);
                  pattern_norm = join '' '' (split_whitespace pattern_lower);
                  command_norm = join '' '' (split_whitespace command_lower)
              in command_norm = pattern_norm \<or>
                 (prefix pattern_norm command_norm \<and>
                  prefix '' '' (drop (length pattern_norm) command_norm)))"


section \<open>Looking a prefix up\<close>




section \<open>The canonical prefix\<close>

lemma is_flag_lowercase [simp]: "is_flag (to_ascii_lowercase t) = is_flag t"
proof (cases t)
  case (Cons c s)
  have "ascii_lower c = CHR ''-'' \<longleftrightarrow> c = CHR ''-''"
  proof
    assume a: "ascii_lower c = CHR ''-''"
    show "c = CHR ''-''"
    proof (cases "65 \<le> (of_char c :: nat) \<and> (of_char c :: nat) \<le> 90")
      case True
      with a have "char_of ((of_char c :: nat) + 32) = CHR ''-''" by (simp add: ascii_lower_def)
      then have "(of_char (char_of ((of_char c :: nat) + 32)) :: nat) = of_char CHR ''-''" by simp
      with True show ?thesis by (simp add: of_char_of)
    next
      case False
      with a show ?thesis by (auto simp: ascii_lower_def Let_def split: if_splits)
    qed
  qed (simp add: ascii_lower_def)
  with Cons show ?thesis by (auto simp: is_flag_def)
qed (simp add: is_flag_def)

text \<open>The positional words of a command, lower-cased.\<close>

definition positional_words :: "string list \<Rightarrow> string list" where
  "positional_words tokens = map to_ascii_lowercase (filter (\<lambda>t. \<not> is_flag t) tokens)"

lemma classify_from_prefix:
  assumes "positional \<noteq> []" and "n \<le> length positional"
  shows "\<exists>m. classify_from d positional n = join '' '' (take m positional)"
  using assms
proof (induction n)
  case 0
  then show ?case by (intro exI [of _ 1]) (cases positional, auto)
next
  case (Suc n)
  then show ?case by (auto split: option.split)
qed

lemma classify_prefix: "\<exists>m. classify d tokens = join '' '' (take m (positional_words tokens))"
proof (cases "positional_words tokens = []")
  case True
  then have "classify d tokens = []"
    by (auto simp: classify_def positional_words_def Let_def)
  then show ?thesis by (intro exI [of _ 0]) simp
next
  case False
  then have "classify d tokens
      = classify_from d (positional_words tokens) (min (length (positional_words tokens)) 3)"
    by (auto simp: classify_def positional_words_def Let_def)
  with classify_from_prefix [OF False, of "min (length (positional_words tokens)) 3" d]
  show ?thesis by simp
qed

lemma classify_positional:
  "positional_words ts = positional_words us \<Longrightarrow> classify d ts = classify d us"
  by (auto simp: classify_def positional_words_def Let_def)

section \<open>Allow rules\<close>

text \<open>The words of a rule or a command, as the matcher compares them.\<close>

definition words :: "string \<Rightarrow> string list" where
  "words s = map to_ascii_lowercase (split_whitespace s)"

lemma words_tokens [simp]: "t \<in> set (words s) \<Longrightarrow> is_token t"
  by (auto simp: words_def dest: split_whitespace_tokens)

lemma words_trim_lowercase [simp]: "split_whitespace (to_ascii_lowercase (trim s)) = words s"
  by (simp add: split_whitespace_lowercase words_def)

lemma positional_words_eq: "positional_words (split_whitespace s) = filter (\<lambda>t. \<not> is_flag t) (words s)"
  by (simp add: positional_words_def words_def filter_map comp_def)

lemma fallback_match_iff:
  assumes "words p \<noteq> []"
  shows "(join '' '' (words c) = join '' '' (words p) \<or>
          (prefix (join '' '' (words p)) (join '' '' (words c)) \<and>
           prefix '' '' (drop (length (join '' '' (words p))) (join '' '' (words c)))))
         \<longleftrightarrow> prefix (words p) (words c)"
proof -
  let ?p = "join '' '' (words p)" and ?c = "join '' '' (words c)"
  have eq: "?c = ?p \<longleftrightarrow> words c = words p"
    using split_whitespace_join [of "words c"] split_whitespace_join [of "words p"]
    by (metis words_tokens)
  have "prefix ?p ?c \<and> prefix '' '' (drop (length ?p) ?c) \<longleftrightarrow> prefix (?p @ '' '') ?c"
    by (auto simp: prefix_def)
  then show ?thesis
    using prefix_join_blank [OF assms, of "words c"] eq by (auto simp: prefix_order.le_less)
qed

lemma allow_rule_matches_iff:
  assumes "words p \<noteq> []"
  shows "allow_rule_matches d p c \<longleftrightarrow>
     classify d (split_whitespace c) = to_ascii_lowercase (trim p) \<or> prefix (words p) (words c)"
  unfolding allow_rule_matches_def Let_def words_trim_lowercase
  using fallback_match_iff [OF assms] by simp

text \<open>
  C33. An allow rule with at least one word matches only a command whose words, or whose
  positional words, begin with the words of the rule: neither a longer command name nor another
  subcommand is ever swept into the rule.
\<close>

theorem allow_rule_matches_sound:
  assumes "allow_rule_matches d p c" and "split_whitespace p \<noteq> []"
  shows "prefix (words p) (words c) \<or> prefix (words p) (filter (\<lambda>t. \<not> is_flag t) (words c))"
proof -
  have ne: "words p \<noteq> []" using assms(2) by (simp add: words_def)
  from assms(1) consider "classify d (split_whitespace c) = to_ascii_lowercase (trim p)"
    | "prefix (words p) (words c)"
    by (auto simp: allow_rule_matches_iff [OF ne])
  then show ?thesis
  proof cases
    case 1
    obtain m where "to_ascii_lowercase (trim p) = join '' '' (take m (positional_words (split_whitespace c)))"
      using classify_prefix [of d "split_whitespace c"] 1 by auto
    then have "words p = take m (filter (\<lambda>t. \<not> is_flag t) (words c))"
      using split_whitespace_join [of "take m (filter (\<lambda>t. \<not> is_flag t) (words c))"]
      by (metis (no_types, lifting) filter_is_subset in_set_takeD positional_words_eq subsetD
            words_tokens words_trim_lowercase)
    then show ?thesis by (simp add: take_is_prefix)
  qed simp
qed

theorem allow_rule_matches_sound_witness:
  "allow_rule_matches arity_dict_new ''git status'' ''git status -s'' \<and>
   split_whitespace ''git status'' \<noteq> [] \<and>
   (prefix (words ''git status'') (words ''git status -s'') \<or>
    prefix (words ''git status'') (filter (\<lambda>t. \<not> is_flag t) (words ''git status -s'')))"
proof -
  have w: "split_whitespace ''git status'' = [''git'', ''status'']"
          "split_whitespace ''git status -s'' = [''git'', ''status'', ''-s'']"
    by code_simp+
  have m: "allow_rule_matches arity_dict_new ''git status'' ''git status -s''"
    using w by (subst allow_rule_matches_iff) (simp_all add: words_def)
  show ?thesis
    using m w allow_rule_matches_sound [OF m] by simp
qed

lemma positional_words_flag:
  "is_flag f \<Longrightarrow> positional_words (xs @ f # ys) = positional_words (xs @ ys)"
  by (simp add: positional_words_def)

text \<open>
  Flags never count toward the canonical prefix: a flag inserted at any place of a command
  leaves its classification unchanged, in any dictionary.
\<close>

theorem classify_ignores_flags:
  assumes "is_flag f"
  shows "classify d (xs @ f # ys) = classify d (xs @ ys)"
  using assms by (intro classify_positional positional_words_flag)

theorem classify_ignores_flags_witness:
  "is_flag ''-s'' \<and>
   classify arity_dict_new ([''git''] @ ''-s'' # [''status'']) = classify arity_dict_new ([''git''] @ [''status''])"
  using classify_ignores_flags [of "''-s''" arity_dict_new "[''git'']" "[''status'']"]
  by (simp add: is_flag_def)

text \<open>
  An allow rule matches every command that starts with its words, whatever flags and
  arguments follow: this is the fallback the matcher keeps for patterns outside the table.
\<close>

theorem allow_rule_matches_prefix:
  assumes "split_whitespace p \<noteq> []" and "prefix (words p) (words c)"
  shows "allow_rule_matches d p c"
proof -
  have "words p \<noteq> []" using assms(1) by (simp add: words_def)
  with assms(2) show ?thesis by (simp add: allow_rule_matches_iff)
qed

theorem allow_rule_matches_prefix_witness:
  "allow_rule_matches arity_dict_new ''ls'' ''LS  -la''"
  by (rule allow_rule_matches_prefix) code_simp+




end
