(* ===== verification/Workspace_Path.thy ===== *)
theory Workspace_Path
  imports Rust_Prelude
begin

text \<open>
  The lexical path normalisation of \<open>crates/execpolicy/src/lib.rs\<close>: file paths of ask rules relative
  to the workspace, and workspace scopes of remembered grants. The operating system the program is
  built for (\<open>cfg!\<close>) is the argument \<open>case_insensitive\<close>.

  The lemmas say that a normalised path never traverses upwards, that the absolute and the
  relative spelling of a file normalise to the same path, and that a saved scope or path matches
  the place it was saved for, with the condition under which that holds.
\<close>

section \<open>Path syntax\<close>

definition is_windows_absolute_path :: "string \<Rightarrow> bool" where
  "is_windows_absolute_path value =
     (length value \<ge> 3 \<and> is_ascii_alphabetic (value ! 0) \<and> value ! 1 = CHR '':'' \<and> value ! 2 = CHR ''/'')"

definition has_windows_drive_prefix :: "string \<Rightarrow> bool" where
  "has_windows_drive_prefix value =
     (length value \<ge> 2 \<and> is_ascii_alphabetic (value ! 0) \<and> value ! 1 = CHR '':'')"

record path_for_matching =
  root :: "string option"
  components :: "string list"

text \<open>The loop over \<open>components.split('/')\<close>, shared by the two parsers.\<close>

fun normalized_components :: "string list \<Rightarrow> string list option" where
  "normalized_components [] = Some []"
| "normalized_components (c # cs) =
     (if c = '''' \<or> c = ''.'' then normalized_components cs
      else if c = ''..'' then None
      else map_option (Cons c) (normalized_components cs))"

definition slashes :: "string \<Rightarrow> string" where
  "slashes value = replace_any [CHR 0x5C] CHR ''/'' (trim value)"

definition fold_path_case :: "bool \<Rightarrow> string \<Rightarrow> string" where
  "fold_path_case case_insensitive value =
     (if case_insensitive then to_ascii_lowercase value
      else if has_windows_drive_prefix value
           then to_ascii_lowercase (take 1 value) @ drop 1 value
           else value)"

definition parse_path_for_matching_with_case :: "string \<Rightarrow> bool \<Rightarrow> path_for_matching option" where
  "parse_path_for_matching_with_case value case_insensitive =
     (let value = fold_path_case case_insensitive (slashes value)
      in if value = [] then None
         else case (case strip_prefix ''/'' value of
                      Some path \<Rightarrow> Some (Some ''/'', path)
                    | None \<Rightarrow>
                        if is_windows_absolute_path value then Some (Some (take 2 value), drop 3 value)
                        else if has_windows_drive_prefix value then None
                        else Some (None, value)) of
                None \<Rightarrow> None
              | Some (rt, comps) \<Rightarrow>
                  map_option (\<lambda>cs. \<lparr>root = rt, components = cs\<rparr>)
                    (normalized_components (split_on CHR ''/'' comps)))"

section \<open>Workspace-relative paths\<close>

definition normalize_workspace_relative_path_with_case :: "string \<Rightarrow> string \<Rightarrow> bool \<Rightarrow> string option" where
  "normalize_workspace_relative_path_with_case value workspace_root case_insensitive =
     (case parse_path_for_matching_with_case value case_insensitive of
        None \<Rightarrow> None
      | Some path \<Rightarrow>
          (case parse_path_for_matching_with_case workspace_root case_insensitive of
             None \<Rightarrow> None
           | Some workspace \<Rightarrow>
               (case root workspace of
                  None \<Rightarrow> None
                | Some ws_root \<Rightarrow>
                    (case root path of
                       Some path_root \<Rightarrow>
                         if path_root \<noteq> ws_root then None
                         else map_option (join ''/'') (strip_prefix (components workspace) (components path))
                     | None \<Rightarrow> Some (join ''/'' (components path))))))"

text \<open>
  \<open>normalize_workspace_relative_path\<close> applies the host's case rule,
  \<open>platform_paths_are_case_insensitive\<close>, which is fixed when the program is built.
\<close>

definition normalize_workspace_relative_path :: "bool \<Rightarrow> string \<Rightarrow> string \<Rightarrow> string option" where
  "normalize_workspace_relative_path platform_paths_are_case_insensitive value workspace_root =
     normalize_workspace_relative_path_with_case value workspace_root platform_paths_are_case_insensitive"

section \<open>Workspace scopes\<close>

definition normalize_workspace_scope :: "string \<Rightarrow> string option" where
  "normalize_workspace_scope value =
     (let value = slashes value
      in if value = [] then None
         else case (case strip_prefix ''/'' value of
                      Some path \<Rightarrow> Some (''/'', path)
                    | None \<Rightarrow>
                        if is_windows_absolute_path value
                        then (let value = to_ascii_lowercase value in Some (take 2 value, drop 3 value))
                        else None) of
                None \<Rightarrow> None
              | Some (rt, comps) \<Rightarrow>
                  (case normalized_components (split_on CHR ''/'' comps) of
                     None \<Rightarrow> None
                   | Some cs \<Rightarrow>
                       if cs = [] then None
                       else Some (rt @ (if rt = ''/'' then '''' else ''/'') @ join ''/'' cs)))"

definition workspace_scope_matches :: "string \<Rightarrow> string \<Rightarrow> bool" where
  "workspace_scope_matches rule_workspace cwd =
     (case (normalize_workspace_scope rule_workspace, normalize_workspace_scope cwd) of
        (Some rule_workspace, Some cwd) \<Rightarrow> rule_workspace = cwd
      | _ \<Rightarrow> False)"

section \<open>Components\<close>

text \<open>A clean component is one the loop keeps.\<close>

definition clean_component :: "string \<Rightarrow> bool" where
  "clean_component c \<longleftrightarrow> c \<noteq> '''' \<and> c \<noteq> ''.'' \<and> c \<noteq> ''..''"

lemma normalized_components_eq:
  "normalized_components cs =
     (if ''..'' \<in> set cs then None else Some (filter clean_component cs))"
  by (induction cs) (auto simp: clean_component_def [abs_def])

lemma normalized_components_clean:
  "normalized_components cs = Some ds \<Longrightarrow> set ds \<subseteq> set cs \<and> (\<forall>c \<in> set ds. clean_component c)"
  by (auto simp: normalized_components_eq split: if_splits)

lemma normalized_components_id:
  "\<forall>c \<in> set cs. clean_component c \<Longrightarrow> normalized_components cs = Some cs"
  by (auto simp: normalized_components_eq clean_component_def filter_id_conv)

lemma split_on_slash: "c \<in> set (split_on CHR ''/'' s) \<Longrightarrow> CHR ''/'' \<notin> set c \<and> set c \<subseteq> set s"
  using split_any_pieces [of c "[CHR ''/'']" s] by auto

lemma slashes_no_backslash: "CHR 0x5C \<notin> set (slashes value)"
  by (auto simp: slashes_def replace_any_def)

lemma fold_path_case_no_backslash:
  assumes "CHR 0x5C \<notin> set s"
  shows "CHR 0x5C \<notin> set (fold_path_case b s)"
proof -
  have "CHR 0x5C \<notin> set (to_ascii_lowercase t)" if "CHR 0x5C \<notin> set t" for t
  proof
    assume "CHR 0x5C \<in> set (to_ascii_lowercase t)"
    then obtain c where "c \<in> set t" and "ascii_lower c = CHR 0x5C"
      by (auto simp: to_ascii_lowercase_def)
    with that show False using ascii_lower_iff [of "CHR 0x5C" c] by (simp add: is_ascii_alphabetic_def)
  qed
  with assms show ?thesis
    by (auto simp: fold_path_case_def dest: in_set_takeD in_set_dropD)
qed

text \<open>What a parsed path looks like.\<close>

lemma parse_path_components:
  assumes "parse_path_for_matching_with_case value b = Some p" and "c \<in> set (components p)"
  shows "clean_component c \<and> CHR ''/'' \<notin> set c \<and> CHR 0x5C \<notin> set c"
proof -
  let ?v = "fold_path_case b (slashes value)"
  from assms(1) obtain comps where comps: "normalized_components (split_on CHR ''/'' comps) = Some (components p)"
    and sub: "set comps \<subseteq> set ?v"
    using set_drop_subset [of 3 ?v] set_drop_subset [of 1 ?v]
    by (fastforce simp: parse_path_for_matching_with_case_def Let_def strip_prefix_def
        split: option.splits if_splits)
  have "c \<in> set (split_on CHR ''/'' comps)" and "clean_component c"
    using normalized_components_clean [OF comps] assms(2) by auto
  with split_on_slash sub fold_path_case_no_backslash [OF slashes_no_backslash] show ?thesis by blast
qed




lemma ascii_lower_symbol [simp]: "ascii_lower CHR ''.'' = CHR ''.''" "ascii_lower CHR ''/'' = CHR ''/''"
  by (simp_all add: ascii_lower_def)

lemma not_alphabetic_symbol [simp]:
  "\<not> is_ascii_alphabetic CHR ''.''" "\<not> is_ascii_alphabetic CHR ''/''" "\<not> is_ascii_alphabetic CHR '':''"
  by (simp_all add: is_ascii_alphabetic_def)

lemma ascii_lower_slash [simp]: "ascii_lower c = CHR ''/'' \<longleftrightarrow> c = CHR ''/''"
  by (rule ascii_lower_iff) (simp add: is_ascii_alphabetic_def)

lemma ascii_lower_dot [simp]: "ascii_lower c = CHR ''.'' \<longleftrightarrow> c = CHR ''.''"
  by (rule ascii_lower_iff) (simp add: is_ascii_alphabetic_def)

lemma split_on_lowercase:
  "split_on CHR ''/'' (to_ascii_lowercase s) = map to_ascii_lowercase (split_on CHR ''/'' s)"
proof (induction s)
  case (Cons x s)
  then show ?case
    by (cases "split_on CHR ''/'' s") (auto split: list.splits)
qed simp

lemma lowercase_dots [simp]:
  "to_ascii_lowercase c = ''..'' \<longleftrightarrow> c = ''..''"
  "to_ascii_lowercase c = ''.'' \<longleftrightarrow> c = ''.''"
  by (auto simp: to_ascii_lowercase_def map_eq_Cons_conv)

lemma clean_component_lowercase [simp]: "clean_component (to_ascii_lowercase c) = clean_component c"
  by (simp add: clean_component_def)

lemma fold_path_case_dots:
  assumes "''..'' \<in> set (split_on CHR ''/'' s)"
  shows "''..'' \<in> set (split_on CHR ''/'' (fold_path_case b s))"
proof -
  consider "b" | "\<not> b" "has_windows_drive_prefix s" | "\<not> b" "\<not> has_windows_drive_prefix s" by blast
  then show ?thesis
  proof cases
    case 1
    have "''..'' \<in> to_ascii_lowercase ` set (split_on CHR ''/'' s)"
      using assms by (intro image_eqI [of _ _ "''..''"]) simp_all
    with 1 show ?thesis by (simp add: fold_path_case_def split_on_lowercase)
  next
    case 2
    then obtain d rest where s: "s = d # rest" and d: "is_ascii_alphabetic d"
      by (cases s) (auto simp: has_windows_drive_prefix_def)
    then have "d \<noteq> CHR ''/''" "d \<noteq> CHR ''.''" by auto
    with 2 s assms show ?thesis by (auto simp: fold_path_case_def split: list.splits)
  qed (simp_all add: assms fold_path_case_def)
qed

text \<open>
  Traversal is rejected: a path with a \<open>..\<close> component, written with either separator, is never
  normalised, so no rule and no invocation can name a file outside the workspace this way.
\<close>

theorem traversal_rejected:
  assumes "''..'' \<in> set (split_on CHR ''/'' (slashes value))"
  shows "normalize_workspace_relative_path b value workspace_root = None"
proof -
  let ?v = "fold_path_case b (slashes value)"
  have dots: "''..'' \<in> set (split_on CHR ''/'' ?v)" by (rule fold_path_case_dots [OF assms])
  have slash: "normalized_components (split_on CHR ''/'' (drop 1 ?v)) = None" if "prefix ''/'' ?v"
    using that dots by (cases ?v) (auto simp: normalized_components_eq)
  have drive: "normalized_components (split_on CHR ''/'' (drop 3 ?v)) = None" if "is_windows_absolute_path ?v"
  proof -
    from that obtain a rest where v: "?v = [a, CHR '':''] @ CHR ''/'' # rest" and "is_ascii_alphabetic a"
      by (cases ?v; cases "tl ?v"; cases "tl (tl ?v)")
        (auto simp: is_windows_absolute_path_def)
    then have a: "a \<noteq> CHR ''/''" by auto
    have "split_on CHR ''/'' ?v = [a, CHR '':''] # split_on CHR ''/'' rest"
      unfolding v using a by (intro split_any_append) auto
    with dots v show ?thesis by (auto simp: normalized_components_eq)
  qed
  have "parse_path_for_matching_with_case value b = None"
    using slash drive dots
    by (auto simp: parse_path_for_matching_with_case_def Let_def strip_prefix_def normalized_components_eq)
  then show ?thesis
    by (simp add: normalize_workspace_relative_path_def normalize_workspace_relative_path_with_case_def)
qed

theorem traversal_rejected_witness:
  "normalize_workspace_relative_path False (''src'' @ [CHR 0x5C] @ ''../../etc/passwd'') ''/ws'' = None"
  by (rule traversal_rejected) code_simp

lemma dropWhile_fixed: "dropWhile P s = s \<Longrightarrow> s \<noteq> [] \<Longrightarrow> \<not> P (hd s)"
  using hd_dropWhile [of P s] by metis

lemma trim_fixed:
  assumes "trim s = s" and "s \<noteq> []"
  shows "\<not> is_whitespace (hd s) \<and> \<not> is_whitespace (last s)"
proof -
  have "length (trim s) \<le> length (dropWhile is_whitespace s)"
    by (metis length_rev length_dropWhile_le trim_def trim_end_def trim_start_def)
  with assms(1) length_dropWhile_le [of is_whitespace s]
  have "length (dropWhile is_whitespace s) = length s" by simp
  then have d: "dropWhile is_whitespace s = s"
    by (metis append_Nil append_eq_append_conv takeWhile_dropWhile_id)
  have "rev (dropWhile is_whitespace (rev s)) = s"
    using assms(1) d by (simp add: trim_def trim_end_def trim_start_def)
  then have "dropWhile is_whitespace (rev s) = rev s" by (metis rev_rev_ident)
  with dropWhile_fixed [OF this] dropWhile_fixed [OF d] assms(2) show ?thesis by (simp add: hd_rev)
qed

lemma trim_id:
  assumes "s \<noteq> []" and "\<not> is_whitespace (hd s)" and "\<not> is_whitespace (last s)"
  shows "trim s = s"
proof -
  have "dropWhile is_whitespace s = s" using assms by (cases s) simp_all
  moreover have "dropWhile is_whitespace (rev s) = rev s"
    using assms by (cases s rule: rev_cases) simp_all
  ultimately show ?thesis by (simp add: trim_def trim_end_def trim_start_def)
qed

lemma trim_append:
  assumes "trim s = s" and "trim t = t" and "s \<noteq> []" and "t \<noteq> []"
  shows "trim (s @ m @ t) = s @ m @ t"
  using trim_fixed [OF assms(1,3)] trim_fixed [OF assms(2,4)] assms(3,4) by (intro trim_id) simp_all

lemma replace_any_append [simp]: "replace_any cs r (s @ t) = replace_any cs r s @ replace_any cs r t"
  by (simp add: replace_any_def)

lemma replace_any_id: "set s \<inter> set cs = {} \<Longrightarrow> replace_any cs r s = s"
  by (induction s) (auto simp: replace_any_def)

lemma slashes_id: "trim s = s \<Longrightarrow> CHR 0x5C \<notin> set s \<Longrightarrow> slashes s = s"
  by (simp add: slashes_def replace_any_id)

lemma normalized_components_append:
  "normalized_components (xs @ ys) =
     (case normalized_components xs of None \<Rightarrow> None | Some as \<Rightarrow> map_option (append as) (normalized_components ys))"
  by (simp add: normalized_components_eq)

lemma split_on_append: "split_on c (s @ c # t) = split_on c s @ split_on c t"
proof (induction s)
  case (Cons x s)
  then show ?case by (cases "split_on c s") auto
qed simp

text \<open>A path that is not drive-relative folds its case without looking at the drive letter.\<close>

lemma fold_path_case_plain:
  "\<not> has_windows_drive_prefix s \<Longrightarrow> fold_path_case b s = (if b then to_ascii_lowercase s else s)"
  by (simp add: fold_path_case_def)

lemma slash_no_drive [simp]: "\<not> has_windows_drive_prefix (CHR ''/'' # s)" "\<not> is_windows_absolute_path (CHR ''/'' # s)"
  by (simp_all add: has_windows_drive_prefix_def is_windows_absolute_path_def)

lemma alphabetic_lower [simp]: "is_ascii_alphabetic (ascii_lower c) = is_ascii_alphabetic c"
  by (auto simp: is_ascii_alphabetic_def ascii_lower_def Let_def)

lemma ascii_lower_colon [simp]: "ascii_lower c = CHR '':'' \<longleftrightarrow> c = CHR '':''"
  by (rule ascii_lower_iff) (simp add: is_ascii_alphabetic_def)

lemma drive_lowercase [simp]: "has_windows_drive_prefix (to_ascii_lowercase s) = has_windows_drive_prefix s"
  by (cases s; cases "tl s") (auto simp: has_windows_drive_prefix_def)

lemma windows_absolute_drive: "is_windows_absolute_path s \<Longrightarrow> has_windows_drive_prefix s"
  by (simp add: has_windows_drive_prefix_def is_windows_absolute_path_def)

text \<open>Parsing an absolute and a relative path.\<close>

lemma parse_absolute:
  assumes "slashes value = CHR ''/'' # path"
  shows "parse_path_for_matching_with_case value b =
     map_option (\<lambda>cs. \<lparr>root = Some ''/'', components = cs\<rparr>)
       (normalized_components (split_on CHR ''/'' (if b then to_ascii_lowercase path else path)))"
  using assms by (simp add: parse_path_for_matching_with_case_def Let_def fold_path_case_plain strip_prefix_def)

lemma parse_relative:
  assumes "slashes value \<noteq> []" and "\<not> prefix ''/'' (slashes value)"
    and "\<not> has_windows_drive_prefix (slashes value)"
  shows "parse_path_for_matching_with_case value b =
     map_option (\<lambda>cs. \<lparr>root = None, components = cs\<rparr>)
       (normalized_components (split_on CHR ''/'' (if b then to_ascii_lowercase (slashes value) else slashes value)))"
proof -
  let ?v = "if b then to_ascii_lowercase (slashes value) else slashes value"
  have "fold_path_case b (slashes value) = ?v" by (rule fold_path_case_plain [OF assms(3)])
  moreover have "?v \<noteq> []" using assms(1) by simp
  moreover have "\<not> prefix ''/'' ?v" using assms(1,2) by (cases "slashes value") (simp_all add: eq_commute [of "CHR ''/''"])
  moreover have d: "\<not> has_windows_drive_prefix ?v" using assms(3) by simp
  moreover have "\<not> is_windows_absolute_path ?v" using windows_absolute_drive d by blast
  ultimately show ?thesis
    by (simp only: parse_path_for_matching_with_case_def Let_def strip_prefix_def if_False
        option.case simp_thms prod.case)
qed

text \<open>
  The absolute and the relative spelling of a file agree: a relative path normalises to the same
  result when the workspace root is written in front of it, so a rule saved for one matches the other.
\<close>

theorem absolute_and_relative_agree:
  assumes "prefix ''/'' workspace_root" and "trim workspace_root = workspace_root"
    and "trim rel = rel" and "rel \<noteq> []"
    and "\<not> prefix ''/'' (slashes rel)" and "\<not> has_windows_drive_prefix (slashes rel)"
  shows "normalize_workspace_relative_path b (workspace_root @ ''/'' @ rel) workspace_root
       = normalize_workspace_relative_path b rel workspace_root"
proof -
  let ?f = "\<lambda>s. if b then to_ascii_lowercase s else s"
  obtain w where w: "workspace_root = CHR ''/'' # w" using assms(1) by (auto simp: prefix_def)
  define w' where "w' = replace_any [CHR 0x5C] CHR ''/'' w"
  have ws: "slashes workspace_root = CHR ''/'' # w'"
    using assms(2) w by (simp add: slashes_def replace_any_def w'_def)
  have "slashes (workspace_root @ ''/'' @ rel) = slashes workspace_root @ ''/'' @ slashes rel"
    using trim_append [OF assms(2,3), of "''/''"] assms(2,3,4) w
    by (simp add: slashes_def) (simp add: replace_any_def)
  then have abs: "slashes (workspace_root @ ''/'' @ rel) = CHR ''/'' # w' @ ''/'' @ slashes rel"
    using ws by simp
  have ne: "slashes rel \<noteq> []" using assms(3,4) by (simp add: slashes_def replace_any_def)
  define A where "A = normalized_components (split_on CHR ''/'' (?f w'))"
  define B where "B = normalized_components (split_on CHR ''/'' (?f (slashes rel)))"
  have "split_on CHR ''/'' (?f (w' @ ''/'' @ slashes rel))
      = split_on CHR ''/'' (?f w') @ split_on CHR ''/'' (?f (slashes rel))"
    by (simp add: split_on_append)
  then have pa: "parse_path_for_matching_with_case (workspace_root @ ''/'' @ rel) b
      = map_option (\<lambda>cs. \<lparr>root = Some ''/'', components = cs\<rparr>)
          (case A of None \<Rightarrow> None | Some as \<Rightarrow> map_option (append as) B)"
    unfolding parse_absolute [OF abs] A_def B_def by (simp only: normalized_components_append)
  have pw: "parse_path_for_matching_with_case workspace_root b
      = map_option (\<lambda>cs. \<lparr>root = Some ''/'', components = cs\<rparr>) A"
    unfolding parse_absolute [OF ws] A_def ..
  have pr: "parse_path_for_matching_with_case rel b = map_option (\<lambda>cs. \<lparr>root = None, components = cs\<rparr>) B"
    unfolding parse_relative [OF ne assms(5,6)] B_def ..
  show ?thesis
    unfolding normalize_workspace_relative_path_def normalize_workspace_relative_path_with_case_def pa pw pr
    by (cases A; cases B) (simp_all add: strip_prefix_def)
qed

theorem absolute_and_relative_agree_witness:
  "normalize_workspace_relative_path True (''/Home/Me/ws'' @ ''/'' @ ''src/Lib.rs'') ''/Home/Me/ws''
     = normalize_workspace_relative_path True ''src/Lib.rs'' ''/Home/Me/ws''"
  by (rule absolute_and_relative_agree) code_simp+


text \<open>On a case-insensitive host a parsed path is in lower case.\<close>

lemma parse_path_folded:
  assumes "parse_path_for_matching_with_case value True = Some p" and "c \<in> set (components p)"
  shows "to_ascii_lowercase c = c"
proof -
  let ?v = "fold_path_case True (slashes value)"
  have lower: "\<forall>ch \<in> set ?v. ascii_lower ch = ch"
    by (auto simp: fold_path_case_def to_ascii_lowercase_def)
  from assms(1) obtain comps where comps: "normalized_components (split_on CHR ''/'' comps) = Some (components p)"
    and sub: "set comps \<subseteq> set ?v"
    using set_drop_subset [of 3 ?v] set_drop_subset [of 1 ?v]
    by (fastforce simp: parse_path_for_matching_with_case_def Let_def strip_prefix_def
        split: option.splits if_splits)
  have "c \<in> set (split_on CHR ''/'' comps)"
    using normalized_components_clean [OF comps] assms(2) by auto
  with split_on_slash sub lower have "\<forall>ch \<in> set c. ascii_lower ch = ch" by blast
  then show ?thesis by (simp add: to_ascii_lowercase_def map_idI)
qed

lemma lowercase_join: "\<forall>c \<in> set cs. to_ascii_lowercase c = c \<Longrightarrow> to_ascii_lowercase (join ''/'' cs) = join ''/'' cs"
  by (induction cs rule: induct_list012) auto

lemma join_no_slash_prefix:
  assumes "\<forall>c \<in> set cs. c \<noteq> [] \<and> CHR ''/'' \<notin> set c"
  shows "\<not> prefix ''/'' (join ''/'' cs)"
proof (cases cs)
  case (Cons c ds)
  with assms obtain x xs where "c = x # xs" and "x \<noteq> CHR ''/''" by (cases c) auto
  with Cons show ?thesis by (cases ds) auto
qed simp

text \<open>The same facts for the result: what is normalised once parses to the same components.\<close>

lemma normalized_path_parts:
  assumes "normalize_workspace_relative_path b value workspace_root = Some r"
  obtains cs where "r = join ''/'' cs" and "\<forall>c \<in> set cs. clean_component c \<and> CHR ''/'' \<notin> set c \<and> CHR 0x5C \<notin> set c"
    and "b \<Longrightarrow> to_ascii_lowercase r = r"
proof -
  from assms obtain p cs where p: "parse_path_for_matching_with_case value b = Some p"
    and r: "r = join ''/'' cs" and sub: "set cs \<subseteq> set (components p)"
    by (auto simp: normalize_workspace_relative_path_def normalize_workspace_relative_path_with_case_def
        strip_prefix_def split: option.splits if_splits dest: in_set_dropD)
  have "to_ascii_lowercase r = r" if b
    unfolding r using parse_path_folded [of "value" p] p sub that by (intro lowercase_join) auto
  with that r parse_path_components [OF p] sub show thesis by blast
qed

text \<open>
  A saved path matches later: the normalised path of a rule normalises to itself, as the callers
  that persist rules rely on, provided it is not empty, has no blank at its ends and does not look
  like a drive path.
\<close>

theorem normalized_path_stable:
  assumes "normalize_workspace_relative_path b value workspace_root = Some r"
    and "r \<noteq> []" and "trim r = r" and "\<not> has_windows_drive_prefix r"
  shows "normalize_workspace_relative_path b r workspace_root = Some r"
proof -
  from normalized_path_parts [OF assms(1)] obtain cs where r: "r = join ''/'' cs"
    and cs: "\<forall>c \<in> set cs. clean_component c \<and> CHR ''/'' \<notin> set c \<and> CHR 0x5C \<notin> set c"
    and low: "b \<Longrightarrow> to_ascii_lowercase r = r" by blast
  have nb: "CHR 0x5C \<notin> set r" using cs r set_join [of "''/''" cs] by auto
  have sl: "slashes r = r" by (rule slashes_id [OF assms(3) nb])
  have ns: "\<not> prefix ''/'' r" unfolding r using cs by (intro join_no_slash_prefix) (simp add: clean_component_def)
  have "cs \<noteq> []" using r assms(2) by auto
  then have "split_on CHR ''/'' r = cs" using cs r by (simp add: split_on_join)
  moreover have "normalized_components cs = Some cs" using cs by (intro normalized_components_id) blast
  ultimately have p: "parse_path_for_matching_with_case r b = Some \<lparr>root = None, components = cs\<rparr>"
    using parse_relative [of r b] sl assms(2,4) ns low by simp
  from assms(1) show ?thesis
    unfolding normalize_workspace_relative_path_def normalize_workspace_relative_path_with_case_def p
    by (auto simp: r split: option.splits if_splits)
qed

theorem normalized_path_stable_witness:
  "normalize_workspace_relative_path True ''src/lib.rs'' ''/WS'' = Some ''src/lib.rs''"
  by (rule normalized_path_stable [of _ "''/ws/SRC/./Lib.rs''"]) code_simp+


section \<open>Scopes of remembered grants\<close>

text \<open>The two shapes of a scope.\<close>

lemma normalize_scope_cases:
  assumes "normalize_workspace_scope value = Some s"
  obtains (posix) cs where "s = ''/'' @ join ''/'' cs" and "cs \<noteq> []"
      and "\<forall>c \<in> set cs. clean_component c \<and> CHR ''/'' \<notin> set c \<and> CHR 0x5C \<notin> set c"
  | (windows) d cs where "s = [d, CHR '':'', CHR ''/''] @ join ''/'' cs" and "cs \<noteq> []"
      and "is_ascii_alphabetic d" and "to_ascii_lowercase s = s"
      and "\<forall>c \<in> set cs. clean_component c \<and> CHR ''/'' \<notin> set c \<and> CHR 0x5C \<notin> set c"
proof -
  let ?v = "slashes value"
  have kept: "\<forall>c \<in> set cs. clean_component c \<and> CHR ''/'' \<notin> set c \<and> CHR 0x5C \<notin> set c"
    if "normalized_components (split_on CHR ''/'' t) = Some cs" and "CHR 0x5C \<notin> set t" for t cs
    using normalized_components_clean [OF that(1)] split_on_slash [of _ t] that(2) by blast
  show thesis
  proof (cases "prefix ''/'' ?v")
    case True
    then have "CHR 0x5C \<notin> set (drop 1 ?v)" using slashes_no_backslash [of "value"] by (meson in_set_dropD)
    with True assms posix kept show thesis
      by (auto simp: normalize_workspace_scope_def Let_def strip_prefix_def split: option.splits if_splits)
  next
    case False
    with assms obtain cs where w: "is_windows_absolute_path ?v"
      and cs: "normalized_components (split_on CHR ''/'' (drop 3 (to_ascii_lowercase ?v))) = Some cs"
      and ne: "cs \<noteq> []" and s: "s = take 2 (to_ascii_lowercase ?v) @
          (if take 2 (to_ascii_lowercase ?v) = ''/'' then '''' else ''/'') @ join ''/'' cs"
      by (auto simp: normalize_workspace_scope_def Let_def strip_prefix_def split: option.splits if_splits)
    obtain d t where v: "?v = d # CHR '':'' # CHR ''/'' # t" and d: "is_ascii_alphabetic d"
      using w by (cases ?v; cases "tl ?v"; cases "tl (tl ?v)") (auto simp: is_windows_absolute_path_def)
    have t: "CHR 0x5C \<notin> set (to_ascii_lowercase t)"
      using fold_path_case_no_backslash [of t True] slashes_no_backslash [of "value"] v
      by (simp add: fold_path_case_def)
    have low: "\<forall>c \<in> set cs. to_ascii_lowercase c = c"
    proof
      fix c assume "c \<in> set cs"
      with normalized_components_clean [OF cs] v
      have "c \<in> set (split_on CHR ''/'' (to_ascii_lowercase t))" by auto
      then show "to_ascii_lowercase c = c" by (auto simp: split_on_lowercase)
    qed
    have s': "s = [ascii_lower d, CHR '':'', CHR ''/''] @ join ''/'' cs"
      using s v by (simp add: ascii_lower_def)
    moreover have "to_ascii_lowercase s = s"
      using s' lowercase_join [OF low] by (simp add: ascii_lower_def [of "CHR '':''"])
    ultimately show thesis
      using windows [of "ascii_lower d" cs] ne d kept [OF cs] t v by simp
  qed
qed

text \<open>
  A remembered grant applies where it was made: a scope that was normalised for storage matches
  the workspace it was computed from, provided it does not end in a blank.
\<close>

theorem saved_scope_matches:
  assumes "normalize_workspace_scope cwd = Some s" and "trim s = s"
  shows "workspace_scope_matches s cwd"
proof -
  have nb: "CHR 0x5C \<notin> set s"
  proof (cases rule: normalize_scope_cases [OF assms(1)])
    case (1 cs)
    then show ?thesis using set_join [of "''/''" cs] by auto
  next
    case (2 d cs)
    then show ?thesis using set_join [of "''/''" cs] by (auto simp: is_ascii_alphabetic_def)
  qed
  have sl: "slashes s = s" by (rule slashes_id [OF assms(2) nb])
  have "normalize_workspace_scope s = Some s"
  proof (cases rule: normalize_scope_cases [OF assms(1)])
    case (1 cs)
    then have "split_on CHR ''/'' (join ''/'' cs) = cs" by (simp add: split_on_join)
    moreover have "normalized_components cs = Some cs" using 1 by (intro normalized_components_id) blast
    ultimately show ?thesis
      using sl 1 by (simp add: normalize_workspace_scope_def Let_def strip_prefix_def)
  next
    case (2 d cs)
    then have "split_on CHR ''/'' (join ''/'' cs) = cs" by (simp add: split_on_join)
    moreover have "normalized_components cs = Some cs" using 2 by (intro normalized_components_id) blast
    moreover have "is_windows_absolute_path s" using 2 by (simp add: is_windows_absolute_path_def)
    moreover have "\<not> prefix ''/'' s" using 2 by auto
    ultimately show ?thesis
      using sl 2 by (auto simp: normalize_workspace_scope_def Let_def strip_prefix_def)
  qed
  with assms(1) show ?thesis by (simp add: workspace_scope_matches_def)
qed

theorem saved_scope_matches_witness:
  "workspace_scope_matches ''c:/repos/app'' (''C:'' @ [CHR 0x5C] @ ''Repos'' @ [CHR 0x5C] @ ''App'')"
  by (rule saved_scope_matches) code_simp+

text \<open>
  A scope names one concrete repository: it is never the root directory, never relative and has
  no parent component, so a remembered grant cannot apply everywhere.
\<close>

theorem scope_is_concrete:
  assumes "workspace_scope_matches rule_workspace cwd"
  shows "\<exists>rt cs. normalize_workspace_scope cwd = Some (rt @ join ''/'' cs) \<and> cs \<noteq> [] \<and>
           (rt = ''/'' \<or> is_windows_absolute_path rt) \<and> ''..'' \<notin> set cs"
proof -
  from assms obtain s where s: "normalize_workspace_scope cwd = Some s"
    by (auto simp: workspace_scope_matches_def split: option.splits)
  show ?thesis
  proof (cases rule: normalize_scope_cases [OF s])
    case (1 cs)
    with s show ?thesis by (intro exI [of _ "''/''"] exI [of _ cs]) (auto simp: clean_component_def)
  next
    case (2 d cs)
    with s show ?thesis
      by (intro exI [of _ "[d, CHR '':'', CHR ''/'']"] exI [of _ cs])
        (auto simp: clean_component_def is_windows_absolute_path_def)
  qed
qed

theorem scope_is_concrete_witness:
  "\<exists>rt cs. normalize_workspace_scope ''/home/me/app/'' = Some (rt @ join ''/'' cs) \<and> cs \<noteq> [] \<and>
     (rt = ''/'' \<or> is_windows_absolute_path rt) \<and> ''..'' \<notin> set cs"
  by (rule scope_is_concrete [where rule_workspace = "''/home/me/./app''"]) code_simp

end
