(* ===== verification/Shell_Expand.thy ===== *)
theory Shell_Expand
  imports Rust_Prelude
begin

text \<open>
  The expander of \<open>crates/execpolicy/src/shell_expand.rs\<close>: every command line a shell would run for
  a command text. The Rust code scans a character array with an index \<open>i\<close>; the model scans the
  characters from \<open>i\<close> on, so an index is the rest of the text. The state of the scan is the record
  \<open>scan_state\<close>, the state of the expander is the record \<open>expander\<close>.

  The lemmas say that the result is free of duplicates, starts with the trimmed input and has at
  most \<open>MAX_COMMANDS\<close> entries; that expansion only ever adds entries; and that the body of a command
  substitution, the payload of a shell's \<open>-c\<close> flag and the command behind a wrapper word are among
  the entries.
\<close>

section \<open>Limits and word tables\<close>

definition MAX_DEPTH :: usize where
  "MAX_DEPTH = 8"

definition MAX_COMMANDS :: usize where
  "MAX_COMMANDS = 256"

definition MAX_HEAD_SCAN :: usize where
  "MAX_HEAD_SCAN = 8"

definition PASSTHROUGH_WRAPPERS :: "string list" where
  "PASSTHROUGH_WRAPPERS =
     [''sudo'', ''doas'', ''env'', ''nohup'', ''nice'', ''ionice'', ''time'', ''timeout'', ''stdbuf'',
      ''setsid'', ''command'', ''builtin'', ''exec'', ''xargs'', ''unbuffer'', ''busybox'', ''chroot'', ''proot'']"

definition SHELL_NAMES :: "string list" where
  "SHELL_NAMES =
     [''sh'', ''bash'', ''zsh'', ''dash'', ''ksh'', ''ksh93'', ''mksh'', ''ash'', ''fish'', ''csh'', ''tcsh'',
      ''rbash'', ''yash'']"

section \<open>Reading delimited regions\<close>

text \<open>The characters the scanner reacts to.\<close>

abbreviation ch_backslash :: char where "ch_backslash \<equiv> CHR 0x5C"
abbreviation ch_squote :: char where "ch_squote \<equiv> CHR 0x27"
abbreviation ch_dquote :: char where "ch_dquote \<equiv> CHR 0x22"
abbreviation ch_backtick :: char where "ch_backtick \<equiv> CHR 0x60"
abbreviation ch_newline :: char where "ch_newline \<equiv> CHR 0x0A"
abbreviation ch_return :: char where "ch_return \<equiv> CHR 0x0D"
abbreviation ch_tab :: char where "ch_tab \<equiv> CHR 0x09"

text \<open>
  \<open>read_backtick\<close>, from the character after the opening backtick: the body, and the text after
  the closing backtick.
\<close>

fun read_backtick :: "string \<Rightarrow> string \<times> string" where
  "read_backtick (c # d # r) =
     (if c = ch_backslash then (case read_backtick r of (inner, rest) \<Rightarrow> (c # d # inner, rest))
      else if c = ch_backtick then ([], d # r)
      else (case read_backtick (d # r) of (inner, rest) \<Rightarrow> (c # inner, rest)))"
| "read_backtick [c] = (if c = ch_backtick then ([], []) else ([c], []))"
| "read_backtick [] = ([], [])"

text \<open>\<open>read_delimited\<close>, from the character after the opening delimiter, at nesting depth \<open>depth\<close>.\<close>

fun read_delimited :: "char \<Rightarrow> char \<Rightarrow> nat \<Rightarrow> string \<Rightarrow> string \<times> string" where
  "read_delimited opn cls depth [] = ([], [])"
| "read_delimited opn cls depth (c # cs) =
     (if c = ch_backslash \<and> cs \<noteq> []
      then (case read_delimited opn cls depth (tl cs) of (inner, rest) \<Rightarrow> (c # hd cs # inner, rest))
      else if c = opn
      then (case read_delimited opn cls (Suc depth) cs of (inner, rest) \<Rightarrow> (c # inner, rest))
      else if c = cls \<and> depth = 1 then ([], cs)
      else if c = cls
      then (case read_delimited opn cls (depth - 1) cs of (inner, rest) \<Rightarrow> (c # inner, rest))
      else (case read_delimited opn cls depth cs of (inner, rest) \<Rightarrow> (c # inner, rest)))"

lemma read_backtick_length [termination_simp]: "length (snd (read_backtick s)) \<le> length s"
  by (induction s rule: read_backtick.induct) (auto split: prod.splits)

lemma read_delimited_length [termination_simp]:
  "length (snd (read_delimited opn cls depth s)) \<le> length s"
proof (induction opn cls depth s rule: read_delimited.induct)
  case (2 opn cls depth c cs)
  show ?case
  proof (cases "c = ch_backslash \<and> cs \<noteq> []")
    case True
    with "2.IH"(1) show ?thesis
      by (cases cs) (auto split: prod.splits)
  next
    case False
    with "2.IH"(2-) show ?thesis
      by (auto split: prod.splits simp: le_SucI)
  qed
qed simp

lemma length_tl_le: "length (tl xs) \<le> length xs"
  by (cases xs) simp_all

lemma read_delimited_tl: "length (snd (read_delimited opn cls depth (tl s))) \<le> length s"
  using read_delimited_length [of opn cls depth "tl s"] length_tl_le [of s] by linarith

section \<open>The scanner\<close>

record scan_state =
  commands :: "string list list"
  cur_words :: "string list"
  cur_word :: string
  started :: bool
  nested :: "string list"

definition scan_init :: scan_state where
  "scan_init = \<lparr>commands = [], cur_words = [], cur_word = [], started = False, nested = []\<rparr>"

definition flush_word :: "scan_state \<Rightarrow> scan_state" where
  "flush_word st =
     (if started st \<or> cur_word st \<noteq> []
      then st\<lparr>cur_words := cur_words st @ [cur_word st], cur_word := [], started := False\<rparr>
      else st)"

definition end_command :: "scan_state \<Rightarrow> scan_state" where
  "end_command st =
     (let ws = filter (\<lambda>w. w \<noteq> ''{'' \<and> w \<noteq> ''}'') (cur_words st)
      in if ws \<noteq> [] then st\<lparr>commands := commands st @ [ws], cur_words := []\<rparr>
         else st\<lparr>cur_words := ws\<rparr>)"

definition push_char :: "char \<Rightarrow> scan_state \<Rightarrow> scan_state" where
  "push_char c st = st\<lparr>cur_word := cur_word st @ [c], started := True\<rparr>"

definition push_nested :: "string \<Rightarrow> scan_state \<Rightarrow> scan_state" where
  "push_nested inner st = st\<lparr>nested := nested st @ [inner]\<rparr>"

text \<open>The body of a double-quoted string: no word splitting, but substitutions are collected.\<close>

function scan_dquote :: "string \<Rightarrow> scan_state \<Rightarrow> scan_state \<times> string" where
  "scan_dquote [] st = (st, [])"
| "scan_dquote (c # cs) st =
     (if c = ch_dquote then (st, cs)
      else if c = ch_backslash \<and> cs \<noteq> []
      then scan_dquote (tl cs) (st\<lparr>cur_word := cur_word st @ [hd cs]\<rparr>)
      else if c = ch_backtick
      then scan_dquote (snd (read_backtick cs)) (push_nested (fst (read_backtick cs)) st)
      else if c = CHR ''$'' \<and> prefix ''('' cs
      then scan_dquote (snd (read_delimited CHR ''('' CHR '')'' 1 (tl cs)))
             (push_nested (fst (read_delimited CHR ''('' CHR '')'' 1 (tl cs))) st)
      else if c = CHR ''$'' \<and> prefix ''{'' cs
      then scan_dquote (snd (read_delimited CHR ''{'' CHR ''}'' 1 (tl cs)))
             (push_nested (fst (read_delimited CHR ''{'' CHR ''}'' 1 (tl cs))) st)
      else scan_dquote cs (st\<lparr>cur_word := cur_word st @ [c]\<rparr>))"
  by pat_completeness auto
termination
  by (relation "measure (\<lambda>(s, st). length s)")
    (simp_all add: le_imp_less_Suc read_backtick_length read_delimited_tl)

text \<open>The body of \<open>$'\<dots>'\<close>: a backslash takes the next character as it is.\<close>

fun scan_ansi :: "string \<Rightarrow> scan_state \<Rightarrow> scan_state \<times> string" where
  "scan_ansi (c # d # r) st =
     (if c = ch_squote then (st, d # r)
      else if c = ch_backslash then scan_ansi r (st\<lparr>cur_word := cur_word st @ [d]\<rparr>)
      else scan_ansi (d # r) (st\<lparr>cur_word := cur_word st @ [c]\<rparr>))"
| "scan_ansi [c] st =
     (if c = ch_squote then (st, []) else (st\<lparr>cur_word := cur_word st @ [c]\<rparr>, []))"
| "scan_ansi [] st = (st, [])"

definition is_control_operator :: "char \<Rightarrow> bool" where
  "is_control_operator c \<longleftrightarrow>
     c = ch_newline \<or> c = ch_return \<or> c = CHR '';'' \<or> c = CHR ''&'' \<or> c = CHR ''|''"

lemma scan_dquote_length: "length (snd (scan_dquote s st)) \<le> length s"
proof (induction s st rule: scan_dquote.induct)
  case (2 c cs st)
  note shrink = read_backtick_length [of cs] length_tl_le [of cs]
    read_delimited_length [of "CHR ''(''" "CHR '')''" 1 "tl cs"]
    read_delimited_length [of "CHR ''{''" "CHR ''}''" 1 "tl cs"]
  consider "c = ch_dquote" | "c = ch_backslash \<and> cs \<noteq> []" "c \<noteq> ch_dquote"
    | "c = ch_backtick" | "c = CHR ''$'' \<and> prefix ''('' cs" | "c = CHR ''$'' \<and> prefix ''{'' cs"
    | "c \<noteq> ch_dquote" "\<not> (c = ch_backslash \<and> cs \<noteq> [])" "c \<noteq> ch_backtick"
      "\<not> (c = CHR ''$'' \<and> prefix ''('' cs)" "\<not> (c = CHR ''$'' \<and> prefix ''{'' cs)"
    by blast
  then show ?case
  proof cases
    case 1
    then show ?thesis by simp
  next
    case 2
    with "2.IH"(1) shrink show ?thesis by simp
  next
    case 3
    with "2.IH"(2) shrink show ?thesis by simp
  next
    case 4
    with "2.IH"(3) shrink show ?thesis by simp
  next
    case 5
    then have "\<not> prefix ''('' cs" by (cases cs) auto
    with 5 "2.IH"(4) shrink show ?thesis by simp
  next
    case 6
    then have "scan_dquote (c # cs) st = scan_dquote cs (st\<lparr>cur_word := cur_word st @ [c]\<rparr>)"
      by (simp only: scan_dquote.simps if_False)
    with 6 "2.IH"(5) show ?thesis by simp
  qed
qed simp

lemma scan_ansi_length: "length (snd (scan_ansi s st)) \<le> length s"
  by (induction s st rule: scan_ansi.induct) (auto simp: le_SucI)

text \<open>The main loop of \<open>Expander::expand\<close>.\<close>

function scan :: "string \<Rightarrow> scan_state \<Rightarrow> scan_state" where
  "scan [] st = st"
| "scan (c # cs) st =
     (if c = ch_backslash
      then (case cs of
              [] \<Rightarrow> scan [] st
            | d # r \<Rightarrow> scan r (if d \<noteq> ch_newline then push_char d st else st))
      else if c = ch_squote
      then scan (tl (dropWhile (\<lambda>x. x \<noteq> ch_squote) cs))
             (st\<lparr>cur_word := cur_word st @ takeWhile (\<lambda>x. x \<noteq> ch_squote) cs, started := True\<rparr>)
      else if c = ch_dquote
      then scan (snd (scan_dquote cs (st\<lparr>started := True\<rparr>))) (fst (scan_dquote cs (st\<lparr>started := True\<rparr>)))
      else if c = CHR ''$'' \<and> prefix [ch_squote] cs
      then scan (snd (scan_ansi (tl cs) (st\<lparr>started := True\<rparr>))) (fst (scan_ansi (tl cs) (st\<lparr>started := True\<rparr>)))
      else if c = ch_backtick
      then scan (snd (read_backtick cs)) (push_nested (fst (read_backtick cs)) st)
      else if c = CHR ''$'' \<and> prefix ''('' cs
      then scan (snd (read_delimited CHR ''('' CHR '')'' 1 (tl cs)))
             (push_nested (fst (read_delimited CHR ''('' CHR '')'' 1 (tl cs))) st)
      else if c = CHR ''$'' \<and> prefix ''{'' cs
      then scan (snd (read_delimited CHR ''{'' CHR ''}'' 1 (tl cs)))
             (push_nested (fst (read_delimited CHR ''{'' CHR ''}'' 1 (tl cs))) st)
      else if (c = CHR ''<'' \<or> c = CHR ''>'') \<and> prefix ''('' cs
      then scan (snd (read_delimited CHR ''('' CHR '')'' 1 (tl cs)))
             (push_nested (fst (read_delimited CHR ''('' CHR '')'' 1 (tl cs))) st)
      else if c = CHR '' '' \<or> c = ch_tab then scan cs (flush_word st)
      else if c = CHR ''('' \<or> c = CHR '')'' then scan cs (end_command (flush_word st))
      else if is_control_operator c
      then scan (dropWhile is_control_operator cs) (end_command (flush_word st))
      else scan cs (push_char c st))"
  by pat_completeness auto
termination
proof (relation "measure (\<lambda>(s, st). length s)", goal_cases)
  case (4 c cs st)
  have "length (tl (dropWhile (\<lambda>x. x \<noteq> ch_squote) cs)) \<le> length cs"
    using length_tl_le length_dropWhile_le le_trans by blast
  then show ?case by simp
next
  case (6 c cs st)
  have "length (snd (scan_ansi (tl cs) (st\<lparr>started := True\<rparr>))) \<le> length cs"
    using scan_ansi_length length_tl_le le_trans by blast
  then show ?case by simp
qed (simp_all add: le_imp_less_Suc read_backtick_length read_delimited_tl scan_dquote_length
       length_dropWhile_le)

text \<open>The whole scan, with the two calls after the loop.\<close>

definition scan_text :: "string \<Rightarrow> scan_state" where
  "scan_text input = end_command (flush_word (scan input scan_init))"

section \<open>Words that wrap a command\<close>

definition basename :: "string \<Rightarrow> string" where
  "basename token = (let part = last_component token in if part \<noteq> [] then part else token)"

definition is_env_assignment :: "string \<Rightarrow> bool" where
  "is_env_assignment token =
     (case split_once CHR ''='' token of
        Some (name, _) \<Rightarrow>
          name \<noteq> [] \<and> \<not> prefix ''-'' name \<and> (\<forall>ch \<in> set name. is_ascii_alphanumeric ch \<or> ch = CHR ''_'')
      | None \<Rightarrow> False)"

definition is_scalar_operand :: "string \<Rightarrow> bool" where
  "is_scalar_operand token =
     (let body = trim_end_matches [CHR ''s'', CHR ''m'', CHR ''h'', CHR ''d''] token
      in body \<noteq> [] \<and> (\<forall>ch \<in> set body. is_ascii_digit ch \<or> ch = CHR ''.''))"

definition is_passthrough_wrapper :: "string \<Rightarrow> bool" where
  "is_passthrough_wrapper token =
     (to_ascii_lowercase (basename token) \<in> set PASSTHROUGH_WRAPPERS)"

definition is_shell_name :: "string \<Rightarrow> bool" where
  "is_shell_name token = (to_ascii_lowercase (basename token) \<in> set SHELL_NAMES)"

fun strip_leading_loop :: "bool \<Rightarrow> string list \<Rightarrow> string list" where
  "strip_leading_loop dropped_wrapper [] = []"
| "strip_leading_loop dropped_wrapper (token # rest) =
     (if is_env_assignment token then strip_leading_loop dropped_wrapper rest
      else if is_passthrough_wrapper token then strip_leading_loop True rest
      else if dropped_wrapper \<and> is_scalar_operand token then strip_leading_loop dropped_wrapper rest
      else token # rest)"

definition strip_leading_wrappers :: "string list \<Rightarrow> string list" where
  "strip_leading_wrappers tokens = strip_leading_loop False tokens"

fun find_wrapper_head_loop :: "bool \<Rightarrow> usize \<Rightarrow> string list \<Rightarrow> usize option" where
  "find_wrapper_head_loop previous_was_short_flag index [] = None"
| "find_wrapper_head_loop previous_was_short_flag index (token # rest) =
     (if is_shell_name token \<or> eq_ignore_ascii_case (basename token) ''eval'' then Some index
      else if is_env_assignment token \<or> is_passthrough_wrapper token \<or> prefix ''-'' token \<or>
              is_scalar_operand token \<or> previous_was_short_flag
      then find_wrapper_head_loop (prefix ''-'' token \<and> \<not> prefix ''--'' token) (Suc index) rest
      else None)"

definition find_wrapper_head :: "string list \<Rightarrow> usize option" where
  "find_wrapper_head tokens = find_wrapper_head_loop False 0 (take MAX_HEAD_SCAN tokens)"

definition takes_command_line :: "string \<Rightarrow> bool" where
  "takes_command_line token =
     (case strip_prefix ''--'' token of
        Some long \<Rightarrow> eq_ignore_ascii_case long ''command''
      | None \<Rightarrow> (case strip_prefix ''-'' token of Some flags \<Rightarrow> CHR ''c'' \<in> set flags | None \<Rightarrow> False))"

fun shell_c_loop :: "string list \<Rightarrow> string option" where
  "shell_c_loop [] = None"
| "shell_c_loop (token # rest) =
     (if takes_command_line token then (case rest of [] \<Rightarrow> None | script # _ \<Rightarrow> Some script)
      else shell_c_loop rest)"

definition shell_c_argument :: "string list \<Rightarrow> string option" where
  "shell_c_argument tokens = shell_c_loop (tl tokens)"

section \<open>The expander\<close>

record expander =
  out :: "string list"
  seen :: "string set"

definition emit :: "string list \<Rightarrow> expander \<Rightarrow> expander" where
  "emit tokens e =
     (if length (out e) \<ge> MAX_COMMANDS then e
      else let joined = join '' '' (filter (\<lambda>t. t \<noteq> []) tokens)
           in if joined = [] then e
              else if joined \<in> seen e then e
              else e\<lparr>out := out e @ [joined], seen := insert joined (seen e)\<rparr>)"

text \<open>The first half of \<open>record\<close>: the command line as it is and without its wrapper words.\<close>

definition emit_command :: "string list \<Rightarrow> expander \<Rightarrow> expander" where
  "emit_command tokens e =
     (let e' = emit tokens e;
          stripped = strip_leading_wrappers tokens
      in if length stripped \<noteq> length tokens then emit stripped e' else e')"

function expand :: "string \<Rightarrow> usize \<Rightarrow> expander \<Rightarrow> expander"
  and record_command :: "string list \<Rightarrow> usize \<Rightarrow> expander \<Rightarrow> expander"
where
  "expand input depth e =
     (if depth > MAX_DEPTH \<or> length (out e) \<ge> MAX_COMMANDS then e
      else let st = scan_text input;
               e' = fold (\<lambda>tokens. record_command tokens depth) (commands st) e
           in fold (\<lambda>inner. expand inner (Suc depth)) (nested st) e')"
| "record_command tokens depth e =
     (if tokens = [] then e
      else case find_wrapper_head tokens of
             None \<Rightarrow> emit_command tokens e
           | Some head \<Rightarrow>
               if to_ascii_lowercase (basename (tokens ! head)) = ''eval''
               then expand (join '' '' (drop (Suc head) tokens)) (Suc depth) (emit_command tokens e)
               else (case shell_c_argument (drop head tokens) of
                       Some script \<Rightarrow> expand script (Suc depth) (emit_command tokens e)
                     | None \<Rightarrow> emit_command tokens e))"
  by pat_completeness auto
termination
  by (relation "measure (\<lambda>x. case x of
        Inl (input, depth, e) \<Rightarrow> 2 * (Suc MAX_DEPTH - depth)
      | Inr (tokens, depth, e) \<Rightarrow> max 1 (2 * (Suc MAX_DEPTH - depth) - 1))")
    (auto simp: MAX_DEPTH_def)

definition expander_init :: "string \<Rightarrow> expander" where
  "expander_init command =
     (let trimmed = trim command
      in if trimmed \<noteq> [] then \<lparr>out = [trimmed], seen = {trimmed}\<rparr> else \<lparr>out = [], seen = {}\<rparr>)"

definition expanded_commands :: "string \<Rightarrow> string list" where
  "expanded_commands command = out (expand command 0 (expander_init command))"

declare expand.simps [simp del] record_command.simps [simp del]

section \<open>What every expansion keeps\<close>

lemma find_wrapper_head_loop_bound:
  "find_wrapper_head_loop p i ts = Some h \<Longrightarrow> i \<le> h \<and> h < i + length ts"
  by (induction p i ts arbitrary: h rule: find_wrapper_head_loop.induct) (fastforce split: if_splits)+

text \<open>The head that \<open>record\<close> indexes with is a token of the command: the indexing cannot panic.\<close>

lemma find_wrapper_head_bound: "find_wrapper_head tokens = Some head \<Longrightarrow> head < length tokens"
  using find_wrapper_head_loop_bound [of False 0 "take MAX_HEAD_SCAN tokens" head]
  by (simp add: find_wrapper_head_def)

text \<open>
  A relation between the expander before and after that \<^const>\<open>emit\<close> respects is respected by
  every expansion, whatever the text.
\<close>

locale emit_closed =
  fixes R :: "expander \<Rightarrow> expander \<Rightarrow> bool"
  assumes R_refl: "R e e"
    and R_trans: "R a b \<Longrightarrow> R b c \<Longrightarrow> R a c"
    and R_emit: "R e (emit tokens e)"
begin

lemma fold_related: "(\<And>x e. x \<in> set xs \<Longrightarrow> R e (f x e)) \<Longrightarrow> R e (fold f xs e)"
proof (induction xs arbitrary: e)
  case Nil
  show ?case by (simp add: R_refl)
next
  case (Cons x xs)
  then have "R e (f x e)" and "R (f x e) (fold f xs (f x e))" by simp_all
  then have "R e (fold f xs (f x e))" by (rule R_trans)
  then show ?case by simp
qed

lemma emit_command_related: "R e (emit_command tokens e)"
  unfolding emit_command_def Let_def using R_emit R_trans [OF R_emit R_emit] by simp

lemma expand_related: "R e (expand input depth e)"
  and record_related: "R e (record_command tokens depth e)"
proof (induction input depth e and tokens depth e rule: expand_record_command.induct)
  case (1 input depth e)
  show ?case
  proof (cases "depth > MAX_DEPTH \<or> length (out e) \<ge> MAX_COMMANDS")
    case True
    then show ?thesis by (simp add: expand.simps R_refl)
  next
    case False
    let ?st = "scan_text input"
    let ?e' = "fold (\<lambda>tokens. record_command tokens depth) (commands ?st) e"
    have "R e ?e'"
      by (rule fold_related) (rule "1.IH"(1) [OF False refl])
    moreover have "R ?e' (fold (\<lambda>inner. expand inner (Suc depth)) (nested ?st) ?e')"
      by (rule fold_related) (rule "1.IH"(2) [OF False refl refl])
    ultimately have "R e (fold (\<lambda>inner. expand inner (Suc depth)) (nested ?st) ?e')"
      by (rule R_trans)
    with False show ?thesis by (simp add: expand.simps [of input] Let_def)
  qed
next
  case (2 tokens depth e)
  show ?case
  proof (cases "tokens = []")
    case True
    then show ?thesis by (simp add: record_command.simps R_refl)
  next
    case False
    note IH = "2.IH" [OF False, THEN R_trans [OF emit_command_related]]
    show ?thesis
    proof (cases "find_wrapper_head tokens")
      case None
      with False show ?thesis by (simp add: record_command.simps [of tokens] emit_command_related)
    next
      case (Some head)
      with False IH [OF Some] show ?thesis
        by (cases "shell_c_argument (drop head tokens)")
          (simp_all add: record_command.simps [of tokens] emit_command_related)
    qed
  qed
qed

end

section \<open>Distinctness and the bound\<close>

definition expander_inv :: "expander \<Rightarrow> bool" where
  "expander_inv e \<longleftrightarrow>
     distinct (out e) \<and> seen e = set (out e) \<and> [] \<notin> set (out e) \<and> length (out e) \<le> MAX_COMMANDS"

lemma emit_inv: "expander_inv e \<Longrightarrow> expander_inv (emit tokens e)"
  by (auto simp: expander_inv_def emit_def Let_def)

lemma emit_grows: "prefix (out e) (out (emit tokens e))"
  by (simp add: emit_def Let_def)

interpretation keeps_inv: emit_closed "\<lambda>e e'. expander_inv e \<longrightarrow> expander_inv e'"
  by unfold_locales (auto intro: emit_inv)

interpretation grows: emit_closed "\<lambda>e e'. prefix (out e) (out e')"
  by unfold_locales (auto intro: emit_grows)

lemma expander_init_inv: "expander_inv (expander_init command)"
  by (simp add: expander_inv_def expander_init_def Let_def MAX_COMMANDS_def)

lemma expanded_commands_grow: "prefix (out (expander_init command)) (expanded_commands command)"
  by (simp add: expanded_commands_def grows.expand_related)

text \<open>
  C32. One policy check does a bounded amount of matching: whatever the command text, the
  expansion is a list of at most \<open>MAX_COMMANDS\<close> different, non-empty command lines.
\<close>

theorem expanded_commands_bounded:
  "length (expanded_commands command) \<le> MAX_COMMANDS \<and> distinct (expanded_commands command) \<and>
   [] \<notin> set (expanded_commands command)"
proof -
  have "expander_inv (expand command 0 (expander_init command))"
    using keeps_inv.expand_related expander_init_inv by blast
  then show ?thesis by (simp add: expander_inv_def expanded_commands_def)
qed

text \<open>The trimmed command itself comes first, so no rule that matched the raw text is lost.\<close>

theorem expanded_commands_head:
  assumes "trim command \<noteq> []"
  shows "expanded_commands command \<noteq> [] \<and> hd (expanded_commands command) = trim command"
  using expanded_commands_grow [of command] assms
  by (auto simp: expander_init_def Let_def prefix_def)

theorem expanded_commands_head_witness:
  "expanded_commands '' ls'' \<noteq> [] \<and> hd (expanded_commands '' ls'') = trim '' ls''"
  by (rule expanded_commands_head)
    (simp add: trim_def trim_start_def trim_end_def is_whitespace_def)

section \<open>Scanning plain text\<close>

text \<open>A plain character is one the scanner copies into the current word.\<close>

definition plain_char :: "char \<Rightarrow> bool" where
  "plain_char c \<longleftrightarrow>
     c \<notin> {ch_backslash, ch_squote, ch_dquote, ch_backtick, CHR ''$'', CHR ''<'', CHR ''>'', CHR '' '', ch_tab,
          CHR ''('', CHR '')'', ch_newline, ch_return, CHR '';'', CHR ''&'', CHR ''|''}"

definition plain_word :: "string \<Rightarrow> bool" where
  "plain_word w \<longleftrightarrow> w \<noteq> [] \<and> (\<forall>c \<in> set w. plain_char c) \<and> w \<noteq> ''{'' \<and> w \<noteq> ''}''"

declare scan.simps(2) [simp del]

lemma scan_plain_char: "plain_char c \<Longrightarrow> scan (c # cs) st = scan cs (push_char c st)"
  by (subst scan.simps) (simp only: plain_char_def is_control_operator_def insert_iff empty_iff
    de_Morgan_disj simp_thms if_False)

lemma scan_plain_chars:
  assumes "\<forall>c \<in> set w. plain_char c" and "w \<noteq> []"
  shows "scan (w @ cs) st = scan cs (st\<lparr>cur_word := cur_word st @ w, started := True\<rparr>)"
  using assms
proof (induction w arbitrary: st)
  case (Cons c w)
  then show ?case
    by (cases "w = []") (simp_all add: scan_plain_char push_char_def)
qed simp

lemma scan_space: "scan (CHR '' '' # cs) st = scan cs (flush_word st)"
  by (subst scan.simps) simp


text \<open>Scanning words separated by blanks collects them.\<close>

lemma scan_words:
  assumes "\<forall>w \<in> set ws. plain_word w" and "ws \<noteq> []" and "cur_word st = []" and "\<not> started st"
  shows "scan (join '' '' ws @ cs) st
       = scan cs (st\<lparr>cur_words := cur_words st @ butlast ws, cur_word := last ws, started := True\<rparr>)"
  using assms
proof (induction ws arbitrary: st rule: induct_list012)
  case (2 w)
  then show ?case by (simp add: scan_plain_chars plain_word_def)
next
  case (3 x y zs)
  let ?st = "st\<lparr>cur_words := cur_words st @ [x], cur_word := [], started := False\<rparr>"
  have "scan (join '' '' (x # y # zs) @ cs) st = scan (CHR '' '' # join '' '' (y # zs) @ cs)
      (st\<lparr>cur_word := x, started := True\<rparr>)"
    using "3.prems" by (simp add: scan_plain_chars plain_word_def)
  also have "\<dots> = scan (join '' '' (y # zs) @ cs) ?st"
    using "3.prems" by (simp add: scan_space flush_word_def)
  also have "\<dots> = scan cs (?st\<lparr>cur_words := cur_words ?st @ butlast (y # zs), cur_word := last (y # zs),
      started := True\<rparr>)"
    using "3.prems" by (intro "3.IH"(2)) auto
  finally show ?case by simp
qed simp

lemma scan_text_words:
  assumes "\<forall>w \<in> set ws. plain_word w" and "ws \<noteq> []"
  shows "commands (scan_text (join '' '' ws)) = [ws] \<and> nested (scan_text (join '' '' ws)) = []"
proof -
  have f: "filter (\<lambda>w. w \<noteq> ''{'' \<and> w \<noteq> ''}'') ws = ws"
    using assms(1) by (auto simp: plain_word_def filter_id_conv)
  show ?thesis
    using scan_words [OF assms, of scan_init "[]"] assms(2) f
    by (simp add: scan_text_def scan_init_def flush_word_def end_command_def Let_def del: butlast.simps)
qed





section \<open>Commands that must be emitted\<close>

text \<open>The text of one command line, as \<^const>\<open>emit\<close> joins it.\<close>

definition line_of :: "string list \<Rightarrow> string" where
  "line_of tokens = join '' '' (filter (\<lambda>t. t \<noteq> []) tokens)"

lemma emit_member:
  assumes "length (out e) < MAX_COMMANDS" and "expander_inv e" and "line_of tokens \<noteq> []"
  shows "line_of tokens \<in> set (out (emit tokens e))"
  using assms by (auto simp: emit_def line_of_def expander_inv_def Let_def)

lemma emit_length: "length (out (emit tokens e)) \<le> Suc (length (out e))"
  by (simp add: emit_def Let_def)

lemma emit_command_member:
  assumes "length (out e) < MAX_COMMANDS" and "expander_inv e" and "line_of tokens \<noteq> []"
  shows "line_of tokens \<in> set (out (emit_command tokens e))"
  using emit_member [OF assms] set_mono_prefix [OF emit_grows]
  by (auto simp: emit_command_def Let_def)

lemma strip_leading_suffix: "suffix (strip_leading_wrappers tokens) tokens"
proof -
  have "suffix (strip_leading_loop b ts) ts" for b ts
    by (induction b ts rule: strip_leading_loop.induct) (auto simp: suffix_Cons)
  then show ?thesis by (simp add: strip_leading_wrappers_def)
qed

lemma emit_command_stripped:
  assumes "Suc (length (out e)) < MAX_COMMANDS" and "expander_inv e"
    and "line_of (strip_leading_wrappers tokens) \<noteq> []"
  shows "line_of (strip_leading_wrappers tokens) \<in> set (out (emit_command tokens e))"
proof (cases "length (strip_leading_wrappers tokens) = length tokens")
  case True
  obtain zs where zs: "tokens = zs @ strip_leading_wrappers tokens"
    using strip_leading_suffix unfolding suffix_def by blast
  have "length tokens = length zs + length (strip_leading_wrappers tokens)"
    by (subst zs) (rule length_append)
  with True have "zs = []" by simp
  with zs have "strip_leading_wrappers tokens = tokens" by (metis append_Nil)
  with assms emit_command_member show ?thesis by auto
next
  case False
  have "length (out (emit tokens e)) < MAX_COMMANDS"
    using emit_length [of tokens e] assms(1) by linarith
  with emit_member [OF _ emit_inv [OF assms(2)] assms(3)] False show ?thesis
    by (simp add: emit_command_def Let_def)
qed


lemma record_command_extends:
  assumes "tokens \<noteq> []"
  shows "prefix (out (emit_command tokens e)) (out (record_command tokens depth e))"
  using assms grows.expand_related
  by (auto simp: record_command.simps [of tokens] split: option.split)


lemma plain_words_line:
  assumes "\<forall>w \<in> set ws. plain_word w"
  shows "line_of ws = join '' '' ws"
proof -
  have "filter (\<lambda>t. t \<noteq> []) ws = ws" using assms by (auto simp: plain_word_def filter_id_conv)
  then show ?thesis by (simp add: line_of_def)
qed

lemma plain_words_join_not_Nil: "\<forall>w \<in> set ws. plain_word w \<Longrightarrow> ws \<noteq> [] \<Longrightarrow> join '' '' ws \<noteq> []"
  by (auto simp: join_Nil_iff plain_word_def)

lemma expander_init_length: "length (out (expander_init command)) \<le> 1"
  by (simp add: expander_init_def Let_def)



text \<open>
  Wrapper words cannot hide a command: of a command line of ordinary words, the line without its
  leading environment assignments, wrapper commands and their numeric operands is expanded too.
\<close>

theorem stripped_command_is_expanded:
  assumes "\<forall>w \<in> set ts. plain_word w" and "strip_leading_wrappers ts \<noteq> []"
  shows "join '' '' (strip_leading_wrappers ts) \<in> set (expanded_commands (join '' '' ts))"
proof -
  let ?e = "expander_init (join '' '' ts)"
  let ?s = "strip_leading_wrappers ts"
  have ts: "ts \<noteq> []" using assms(2) by (auto simp: strip_leading_wrappers_def)
  have s: "\<forall>w \<in> set ?s. plain_word w"
    using assms(1) set_mono_suffix [OF strip_leading_suffix] by blast
  have "line_of ?s \<in> set (out (emit_command ts ?e))"
    using expander_init_length [of "join '' '' ts"] plain_words_line [OF s] plain_words_join_not_Nil [OF s assms(2)]
    by (intro emit_command_stripped expander_init_inv) (simp_all add: MAX_COMMANDS_def)
  then have "line_of ?s \<in> set (out (record_command ts 0 ?e))"
    using set_mono_prefix [OF record_command_extends [OF ts]] by blast
  then show ?thesis
    using scan_text_words [OF assms(1) ts] expander_init_length [of "join '' '' ts"]
    by (simp add: expanded_commands_def expand.simps [of "join '' '' ts"] Let_def MAX_COMMANDS_def
        plain_words_line [OF s])
qed

theorem stripped_command_is_expanded_witness:
  "''rm -rf /'' \<in> set (expanded_commands ''sudo X=1 timeout 5s rm -rf /'')"
proof -
  let ?ts = "[''sudo'', ''X=1'', ''timeout'', ''5s'', ''rm'', ''-rf'', ''/'']"
  have s: "strip_leading_wrappers ?ts = [''rm'', ''-rf'', ''/'']" by code_simp
  have "\<forall>w \<in> set ?ts. plain_word w" by code_simp
  with stripped_command_is_expanded [of ?ts] s show ?thesis by simp
qed





text \<open>Once the budget is used up, nothing is added: the payloads that follow are not expanded.\<close>

lemma emit_full: "MAX_COMMANDS \<le> length (out e) \<Longrightarrow> emit tokens e = e"
  by (simp add: emit_def)

lemma expand_full: "MAX_COMMANDS \<le> length (out e) \<Longrightarrow> expand input depth e = e"
  by (simp add: expand.simps)

lemma record_command_full: "MAX_COMMANDS \<le> length (out e) \<Longrightarrow> record_command tokens depth e = e"
  by (simp add: record_command.simps emit_command_def Let_def emit_full expand_full split: option.split)

end
