(* ===== verification/Worklist.thy ===== *)
theory Worklist
  imports Main
begin

text \<open>
  The search loop that several components write out: a stack of pending items, a set of items seen
  before, an early exit when an accepting item is popped. The locale states what one iteration
  does; inside it the search is proved to succeed just if an accepting item can be reached. The deny
  matcher and the ancestry check of the work graph are its instances.
\<close>

locale worklist_search =
  fixes run :: "'a list \<Rightarrow> 'a set \<Rightarrow> bool"
    and accept :: "'a \<Rightarrow> bool"
    and dead :: "'a \<Rightarrow> bool"
    and succs :: "'a \<Rightarrow> 'a list"
    and R :: "(('a list \<times> 'a set) \<times> ('a list \<times> 'a set)) set"
  assumes run_Nil: "\<not> run [] seen"
    and run_accept: "x \<notin> seen \<Longrightarrow> accept x \<Longrightarrow> run (x # st) seen"
    and run_skip: "\<not> accept x \<Longrightarrow> dead x \<or> x \<in> seen \<Longrightarrow> run (x # st) seen = run st seen"
    and run_push: "\<not> accept x \<Longrightarrow> \<not> dead x \<Longrightarrow> x \<notin> seen \<Longrightarrow>
      run (x # st) seen = run (succs x @ st) (insert x seen)"
    and wf_R: "wf R"
    and R_skip: "((st, seen), (x # st, seen)) \<in> R"
    and R_push: "\<not> dead x \<Longrightarrow> x \<notin> seen \<Longrightarrow> ((succs x @ st, insert x seen), (x # st, seen)) \<in> R"
begin

definition edges :: "('a \<times> 'a) set" where
  "edges = {(x, y). \<not> dead x \<and> y \<in> set (succs x)}"

definition reaches :: "'a \<Rightarrow> bool" where
  "reaches x \<longleftrightarrow> (\<exists>y. (x, y) \<in> edges\<^sup>* \<and> accept y)"

lemma reaches_unfold: "reaches x \<longleftrightarrow> accept x \<or> (\<not> dead x \<and> (\<exists>y \<in> set (succs x). reaches y))"
proof
  assume "reaches x"
  then obtain y where "(x, y) \<in> edges\<^sup>*" and "accept y" by (auto simp: reaches_def)
  then show "accept x \<or> (\<not> dead x \<and> (\<exists>y \<in> set (succs x). reaches y))"
    by (cases rule: converse_rtranclE) (auto simp: edges_def reaches_def)
next
  assume "accept x \<or> (\<not> dead x \<and> (\<exists>y \<in> set (succs x). reaches y))"
  then show "reaches x"
    by (auto simp: reaches_def edges_def intro: converse_rtrancl_into_rtrancl)
qed

text \<open>
  The items seen so far were not accepting, and each successor of one is seen, pending or a dead end.
\<close>

definition explored :: "'a list \<Rightarrow> 'a set \<Rightarrow> bool" where
  "explored st seen \<longleftrightarrow>
     (\<forall>x \<in> seen. \<not> accept x \<and> (\<not> dead x \<longrightarrow> set (succs x) \<subseteq> seen \<union> set st \<union> {y. dead y \<and> \<not> accept y}))"

text \<open>What can be reached from a seen item can be reached from a pending one.\<close>

lemma explored_pending:
  assumes "explored st seen" and "x \<in> seen" and "reaches x"
  shows "\<exists>y \<in> set st. reaches y"
proof -
  from assms(3) obtain z where "(x, z) \<in> edges\<^sup>*" and "accept z" by (auto simp: reaches_def)
  then show ?thesis
    using assms(2)
  proof (induction rule: converse_rtrancl_induct)
    case base
    with assms(1) show ?case by (auto simp: explored_def)
  next
    case (step x y)
    have r: "reaches y" using step.hyps step.prems by (auto simp: reaches_def)
    then have "\<not> (dead y \<and> \<not> accept y)" using reaches_unfold [of y] by blast
    then have "y \<in> seen \<union> set st" using step assms(1) by (auto simp: explored_def edges_def)
    with r step.IH step.prems show ?case by blast
  qed
qed

theorem run_iff_reaches:
  assumes "explored st seen"
  shows "run st seen \<longleftrightarrow> (\<exists>x \<in> set st. reaches x)"
  using assms
proof (induction "(st, seen)" arbitrary: st seen rule: wf_induct_rule [OF wf_R])
  case (1 st seen)
  show ?case
  proof (cases st)
    case Nil
    then show ?thesis using run_Nil by simp
  next
    case (Cons x rest)
    consider "accept x" | "\<not> accept x" "dead x \<or> x \<in> seen" | "\<not> accept x" "\<not> dead x" "x \<notin> seen" by blast
    then show ?thesis
    proof cases
      case 1
      with "1.prems" have "x \<notin> seen" by (auto simp: explored_def)
      with 1 Cons run_accept reaches_unfold [of x] show ?thesis by simp
    next
      case 2
      then have "explored rest seen" using "1.prems" Cons by (auto simp: explored_def)
      with "1.hyps" R_skip Cons have "run rest seen \<longleftrightarrow> (\<exists>y \<in> set rest. reaches y)" by blast
      moreover have "reaches x \<Longrightarrow> \<exists>y \<in> set rest. reaches y"
        using 2 reaches_unfold [of x] explored_pending [OF \<open>explored rest seen\<close>] by blast
      ultimately show ?thesis using run_skip [OF 2] Cons by auto
    next
      case 3
      then have "explored (succs x @ rest) (insert x seen)"
        using "1.prems" Cons by (auto simp: explored_def)
      with "1.hyps" R_push 3 Cons
      have "run (succs x @ rest) (insert x seen) \<longleftrightarrow> (\<exists>y \<in> set (succs x @ rest). reaches y)" by blast
      with run_push 3 Cons reaches_unfold [of x] show ?thesis by auto
    qed
  qed
qed

end

end
