(* ===== verification/Deny_Match.thy ===== *)
theory Deny_Match
  imports Shell_Expand Worklist
begin

text \<open>
  How \<open>crates/execpolicy/src/lib.rs\<close> matches a denied prefix against a command: which command lines
  are scanned (\<open>deny_scan_targets\<close>, \<open>command_segments\<close>) and when a rule matches one of them
  (\<open>denied_prefix_matches\<close>). The matcher is proved equivalent to a relation on the words of rule and
  command that says how a command may be read: flags may be skipped, with or without a value.
\<close>

section \<open>Command lines to scan\<close>

definition command_segments :: "string \<Rightarrow> string list" where
  "command_segments command =
     filter (\<lambda>segment. segment \<noteq> [])
       (map trim
         (lines
           (replace_any [CHR ''&'', CHR ''|'', CHR '';''] ch_newline
             (replace2 CHR ''|'' CHR ''|'' [ch_newline]
               (replace2 CHR ''&'' CHR ''&'' [ch_newline] command)))))"

definition command_is_chained :: "string \<Rightarrow> bool" where
  "command_is_chained command = (length (command_segments command) > 1)"

text \<open>The loop of \<open>deny_scan_targets\<close>, which keeps the first occurrence of each target.\<close>

fun collect_targets :: "string set \<Rightarrow> string list \<Rightarrow> string list" where
  "collect_targets known [] = []"
| "collect_targets known (target # rest) =
     (if target \<noteq> [] \<and> target \<notin> known then target # collect_targets (insert target known) rest
      else collect_targets known rest)"

definition deny_scan_targets :: "string \<Rightarrow> string list" where
  "deny_scan_targets command =
     collect_targets {} (trim command # command_segments command @ expanded_commands command)"

section \<open>Words of rules and commands\<close>

function strip_dollar_parens :: "string \<Rightarrow> string" where
  "strip_dollar_parens token =
     (case strip_prefix ''$('' token of Some rest \<Rightarrow> strip_dollar_parens rest | None \<Rightarrow> token)"
  by pat_completeness auto
termination
  by (relation "measure length") (auto simp: strip_prefix_def prefix_def split: if_splits)

definition sanitize_shell_wrappers :: "string \<Rightarrow> string" where
  "sanitize_shell_wrappers token =
     trim_end_matches [CHR '')'', CHR ''}'', CHR '';'']
       (trim_start_matches [CHR ''('', CHR ''{''] (strip_dollar_parens token))"

definition normalize_command :: "string \<Rightarrow> string" where
  "normalize_command v = to_ascii_lowercase (join '' '' (split_whitespace v))"

definition first_token :: "string \<Rightarrow> string" where
  "first_token command = (case split_whitespace command of [] \<Rightarrow> [] | token # _ \<Rightarrow> token)"

text \<open>The tokens of a rule and of a command, as both are prepared in \<open>denied_prefix_matches\<close>.\<close>

definition deny_tokens :: "string \<Rightarrow> string list" where
  "deny_tokens v =
     filter (\<lambda>token. token \<noteq> []) (map sanitize_shell_wrappers (split_whitespace (normalize_command v)))"

definition deny_is_env_assignment :: "string \<Rightarrow> bool" where
  "deny_is_env_assignment token =
     (case split_once CHR ''='' token of
        Some (name, _) \<Rightarrow>
          name \<noteq> [] \<and> \<not> prefix ''-'' name \<and> (\<forall>ch \<in> set name. is_ascii_alphanumeric ch \<or> ch = CHR ''_'')
      | None \<Rightarrow> False)"

definition command_word_matches :: "string \<Rightarrow> string \<Rightarrow> bool" where
  "command_word_matches rule_token command_token =
     (if command_token = rule_token then True
      else if CHR ''/'' \<in> set rule_token \<or> CHR 0x5C \<in> set rule_token then False
      else last_component command_token \<noteq> [] \<and> last_component command_token = rule_token)"

section \<open>The matcher\<close>

text \<open>
  The exploration of (command index, rule index) pairs. The end of the vector the code pops from is
  the head of the list.
\<close>

definition matches_rule_token :: "string list \<Rightarrow> nat \<Rightarrow> string \<Rightarrow> bool" where
  "matches_rule_token rule_tokens j token =
     (if j = 0 then command_word_matches (rule_tokens ! 0) token else token = rule_tokens ! j)"

definition deny_successors :: "string list \<Rightarrow> string list \<Rightarrow> nat \<times> nat \<Rightarrow> (nat \<times> nat) list" where
  "deny_successors rule_tokens command_tokens p =
     (let (i, j) = p; token = command_tokens ! i
      in rev ((if matches_rule_token rule_tokens j token then [(i + 1, j + 1)] else []) @
              (if prefix ''-'' token
               then (i + 1, j) # (if CHR ''='' \<notin> set token then [(i + 2, j)] else [])
               else [])))"

function deny_loop :: "string list \<Rightarrow> string list \<Rightarrow> (nat \<times> nat) list \<Rightarrow> (nat \<times> nat) set \<Rightarrow> bool" where
  "deny_loop rule_tokens command_tokens [] known = False"
| "deny_loop rule_tokens command_tokens (p # stack) known =
     (if snd p = length rule_tokens then True
      else if fst p \<ge> length command_tokens \<or> p \<in> known
      then deny_loop rule_tokens command_tokens stack known
      else deny_loop rule_tokens command_tokens (deny_successors rule_tokens command_tokens p @ stack)
             (insert p known))"
  by pat_completeness auto

text \<open>Each pair is replaced by at most three whose command index is larger.\<close>

definition deny_weight :: "string list \<Rightarrow> (nat \<times> nat) list \<Rightarrow> nat" where
  "deny_weight command_tokens stack = sum_list (map (\<lambda>p. 4 ^ (length command_tokens - fst p)) stack)"

lemma deny_weight_pop: "deny_weight cs stack < deny_weight cs (p # stack)"
  by (simp add: deny_weight_def)

lemma deny_weight_push:
  assumes "fst p < length cs"
  shows "deny_weight cs (deny_successors rs cs p @ stack) < deny_weight cs (p # stack)"
proof -
  define f where "f i = (4 ^ (length cs - i) :: nat)" for i
  let ?w = "f (Suc (fst p))"
  have le: "f (Suc (Suc (fst p))) \<le> ?w" unfolding f_def by (rule power_increasing) auto
  have "sum_list (map (\<lambda>p. f (fst p)) (deny_successors rs cs p)) \<le> 3 * ?w"
    using le by (auto simp: deny_successors_def Let_def split: prod.split)
  also have "\<dots> < 4 * ?w" by (simp add: f_def)
  also have "4 * ?w = f (fst p)"
    unfolding f_def using assms by (metis Suc_diff_Suc power_Suc)
  finally show ?thesis by (simp add: deny_weight_def f_def)
qed

termination deny_loop
  by (relation "measure (\<lambda>(rs, cs, stack, known). deny_weight cs stack)")
    (auto simp: deny_weight_pop deny_weight_push)

definition denied_prefix_matches :: "string \<Rightarrow> string \<Rightarrow> bool" where
  "denied_prefix_matches rule command =
     (let rule_tokens = deny_tokens rule
      in if rule_tokens = [] then False
         else let command_tokens = deny_tokens command;
                  start = length (takeWhile deny_is_env_assignment command_tokens)
              in deny_loop rule_tokens command_tokens [(start, 0)] {})"

section \<open>Readings of a command\<close>

text \<open>
  A reading aligns the remaining words of a rule with the remaining words of a command. The word at
  the anchor is compared as a command word; a flag may be skipped, and with it the word after it
  when the flag has no inline value.
\<close>

inductive reading :: "bool \<Rightarrow> string list \<Rightarrow> string list \<Rightarrow> bool" where
  reading_done: "reading anchor [] cs"
| reading_word: "if anchor then command_word_matches r c else c = r \<Longrightarrow> reading False rs cs \<Longrightarrow>
    reading anchor (r # rs) (c # cs)"
| reading_flag: "prefix ''-'' c \<Longrightarrow> reading anchor (r # rs) cs \<Longrightarrow> reading anchor (r # rs) (c # cs)"
| reading_flag_value: "prefix ''-'' c \<Longrightarrow> CHR ''='' \<notin> set c \<Longrightarrow> reading anchor (r # rs) (drop 1 cs) \<Longrightarrow>
    reading anchor (r # rs) (c # cs)"

inductive_simps reading_Nil [simp]: "reading anchor [] cs"
inductive_simps reading_Cons: "reading anchor (r # rs) (c # cs)"
inductive_cases reading_no_words [elim!]: "reading anchor (r # rs) []"

interpretation deny_search: worklist_search "deny_loop rs cs" "\<lambda>p. snd p = length rs"
  "\<lambda>p. fst p \<ge> length cs" "deny_successors rs cs" "inv_image less_than (\<lambda>(stack, known). deny_weight cs stack)"
  for rs cs
  by unfold_locales (auto simp: deny_weight_pop deny_weight_push)

declare strip_dollar_parens.simps [simp del]

text \<open>The loop explores exactly the readings.\<close>

lemma deny_reaches_iff:
  assumes "j \<le> length rs"
  shows "deny_search.reaches rs cs (i, j) \<longleftrightarrow> reading (j = 0) (drop j rs) (drop i cs)"
  using assms
proof (induction "length cs - i" arbitrary: i j rule: less_induct)
  case less
  consider "j = length rs" | "j < length rs" "length cs \<le> i" | "j < length rs" "i < length cs"
    using less.prems by linarith
  then show ?case
  proof cases
    case 1
    then show ?thesis by (subst deny_search.reaches_unfold) simp
  next
    case 2
    then obtain r rest where "drop j rs = r # rest" by (cases "drop j rs") auto
    with 2 show ?thesis by (subst deny_search.reaches_unfold) auto
  next
    case 3
    let ?c = "cs ! i" and ?r = "rs ! j"
    have cs: "drop i cs = ?c # drop (Suc i) cs" and rs: "drop j rs = ?r # drop (Suc j) rs"
      using 3 by (simp_all add: Cons_nth_drop_Suc)
    have IH: "deny_search.reaches rs cs (i', j') \<longleftrightarrow> reading (j' = 0) (drop j' rs) (drop i' cs)"
      if "i < i'" and "j' \<le> length rs" for i' j'
      using less.hyps [of i' j'] that 3 by simp
    have "deny_search.reaches rs cs (i, j) \<longleftrightarrow>
        (matches_rule_token rs j ?c \<and> deny_search.reaches rs cs (Suc i, Suc j)) \<or>
        (prefix ''-'' ?c \<and> (deny_search.reaches rs cs (Suc i, j) \<or>
          (CHR ''='' \<notin> set ?c \<and> deny_search.reaches rs cs (Suc (Suc i), j))))"
      using 3 by (subst deny_search.reaches_unfold) (auto simp: deny_successors_def Let_def)
    also have "\<dots> \<longleftrightarrow> reading (j = 0) (?r # drop (Suc j) rs) (?c # drop (Suc i) cs)"
      using 3 IH [of "Suc i" "Suc j"] IH [of "Suc i" j] IH [of "Suc (Suc i)" j] rs
      by (auto simp: reading_Cons matches_rule_token_def)
    finally show ?thesis using cs rs by simp
  qed
qed

lemma denied_iff_reading:
  "denied_prefix_matches rule command \<longleftrightarrow>
     deny_tokens rule \<noteq> [] \<and>
     reading True (deny_tokens rule) (dropWhile deny_is_env_assignment (deny_tokens command))"
proof -
  let ?rs = "deny_tokens rule" and ?cs = "deny_tokens command"
  let ?start = "length (takeWhile deny_is_env_assignment ?cs)"
  have "deny_loop ?rs ?cs [(?start, 0)] {} \<longleftrightarrow> deny_search.reaches ?rs ?cs (?start, 0)"
    using deny_search.run_iff_reaches [of ?rs ?cs "[(?start, 0)]" "{}"]
    by (simp add: deny_search.explored_def)
  also have "\<dots> \<longleftrightarrow> reading True ?rs (drop ?start ?cs)"
    by (simp add: deny_reaches_iff)
  also have "drop ?start ?cs = dropWhile deny_is_env_assignment ?cs"
    by (simp add: dropWhile_eq_drop)
  finally show ?thesis by (auto simp: denied_prefix_matches_def Let_def)
qed

text \<open>
  C23. The worklist matcher decides exactly the readings: a denied prefix matches a command just if it
  has a word and some reading of the command, after its leading environment assignments, starts with
  the words of the rule.
\<close>

theorem denied_prefix_matches_iff:
  "denied_prefix_matches rule command \<longleftrightarrow>
     deny_tokens rule \<noteq> [] \<and>
     reading True (deny_tokens rule) (dropWhile deny_is_env_assignment (deny_tokens command))"
  by (rule denied_iff_reading)

section \<open>Segments\<close>

text \<open>
  The three replacements and the line splitting amount to one split at the operator characters.
\<close>

definition kept_pieces :: "string list \<Rightarrow> string list" where
  "kept_pieces ps = filter (\<lambda>s. s \<noteq> []) (map trim ps)"

lemma kept_pieces_simps [simp]:
  "kept_pieces [] = []" "kept_pieces ([] # ps) = kept_pieces ps"
  "kept_pieces (ps @ qs) = kept_pieces ps @ kept_pieces qs"
  by (simp_all add: kept_pieces_def trim_def trim_start_def trim_end_def)

lemma kept_pieces_Cons_cong: "kept_pieces ps = kept_pieces qs \<Longrightarrow> kept_pieces (p # ps) = kept_pieces (p # qs)"
  by (simp add: kept_pieces_def)

lemma kept_pieces_split_cong:
  assumes "hd (split_any cs s) = hd (split_any cs t) \<and>
           kept_pieces (tl (split_any cs s)) = kept_pieces (tl (split_any cs t))"
  shows "kept_pieces (split_any cs s) = kept_pieces (split_any cs t)"
  using assms kept_pieces_Cons_cong by (metis list.collapse split_any_not_Nil)

lemma split_any_Cons:
  "split_any cs (x # xs) =
     (if x \<in> set cs then [] # split_any cs xs else (x # hd (split_any cs xs)) # tl (split_any cs xs))"
  by (cases "split_any cs xs") auto

lemma replace2_pieces:
  assumes "a \<in> set cs" and "r \<in> set cs"
  shows "hd (split_any cs (replace2 a a [r] s)) = hd (split_any cs s) \<and>
         kept_pieces (tl (split_any cs (replace2 a a [r] s))) = kept_pieces (tl (split_any cs s))"
proof (induction s rule: length_induct)
  case (1 s)
  show ?case
  proof (cases s rule: remdups_adj.cases)
    case (3 x y zs)
    show ?thesis
    proof (cases "x = a \<and> y = a")
      case True
      have "kept_pieces (split_any cs (replace2 a a [r] zs)) = kept_pieces (split_any cs zs)"
        using 1 3 by (intro kept_pieces_split_cong) simp
      with True 3 assms show ?thesis by simp
    next
      case False
      let ?t = "y # zs"
      have IH: "hd (split_any cs (replace2 a a [r] ?t)) = hd (split_any cs ?t) \<and>
          kept_pieces (tl (split_any cs (replace2 a a [r] ?t))) = kept_pieces (tl (split_any cs ?t))"
        using 1 3 by simp
      from kept_pieces_split_cong [OF IH] IH
      have "hd (split_any cs (x # replace2 a a [r] ?t)) = hd (split_any cs (x # ?t)) \<and>
          kept_pieces (tl (split_any cs (x # replace2 a a [r] ?t))) = kept_pieces (tl (split_any cs (x # ?t)))"
        by (simp only: split_any_Cons [of cs x] split: if_split) simp
      moreover have "replace2 a a [r] s = x # replace2 a a [r] ?t" using False 3 by auto
      ultimately show ?thesis using 3 by (simp only:)
    qed
  qed simp_all
qed

lemma kept_pieces_replace2:
  assumes "a \<in> set cs" and "r \<in> set cs"
  shows "kept_pieces (split_any cs (replace2 a a [r] s)) = kept_pieces (split_any cs s)"
  by (rule kept_pieces_split_cong) (rule replace2_pieces [OF assms])

lemma split_any_replace_any:
  assumes "set ds \<subseteq> set cs" and "r \<in> set cs"
  shows "split_any cs (replace_any ds r s) = split_any cs s"
  using assms by (induction s) (auto simp: replace_any_def split_any_Cons)

lemma split_any_only:
  assumes "set s \<inter> set cs \<subseteq> {c}" and "c \<in> set cs"
  shows "split_any cs s = split_on c s"
  using assms
proof (induction s)
  case (Cons x s)
  then show ?case by (auto simp: split_any_Cons simp del: split_any.simps)
qed simp

lemma trim_append_blank:
  assumes "is_whitespace c"
  shows "trim (s @ [c]) = trim s"
proof (cases "\<forall>x \<in> set s. is_whitespace x")
  case True
  then have "dropWhile is_whitespace s = []" and "dropWhile is_whitespace (s @ [c]) = []"
    using assms by (simp_all only: dropWhile_eq_Nil_conv set_append) auto
  then show ?thesis by (simp only: trim_def trim_start_def)
next
  case False
  with assms show ?thesis
    by (auto simp: trim_def trim_start_def trim_end_def dropWhile_append)
qed

lemma trim_strip_cr: "trim (strip_cr s) = trim s"
proof (cases "s \<noteq> [] \<and> last s = CHR 0x0D")
  case True
  then have "s = butlast s @ [CHR 0x0D]" by (metis append_butlast_last_id)
  moreover have "is_whitespace CHR 0x0D" by (simp add: is_whitespace_def)
  ultimately show ?thesis using True trim_append_blank [of "CHR 0x0D" "butlast s"] by (simp add: strip_cr_def)
qed (auto simp: strip_cr_def)

lemma kept_pieces_lines: "kept_pieces (lines s) = kept_pieces (split_on ch_newline s)"
proof -
  let ?ps = "split_on ch_newline s"
  have "kept_pieces (map strip_cr (butlast ?ps)) = kept_pieces (butlast ?ps)"
    by (simp add: kept_pieces_def trim_strip_cr comp_def)
  moreover have "kept_pieces ?ps = kept_pieces (butlast ?ps) @ kept_pieces [last ?ps]"
    by (metis append_butlast_last_id kept_pieces_simps(3) split_any_not_Nil)
  ultimately show ?thesis by (simp add: lines_def Let_def)
qed

lemma command_segments_pieces:
  "command_segments command =
     kept_pieces (split_any [CHR ''&'', CHR ''|'', CHR '';'', ch_newline] command)"
proof -
  let ?cs = "[CHR ''&'', CHR ''|'', CHR '';'', ch_newline]"
  let ?s1 = "replace2 CHR ''&'' CHR ''&'' [ch_newline] command"
  let ?s2 = "replace2 CHR ''|'' CHR ''|'' [ch_newline] ?s1"
  let ?s3 = "replace_any [CHR ''&'', CHR ''|'', CHR '';''] ch_newline ?s2"
  have "split_on ch_newline ?s3 = split_any ?cs ?s3"
    by (intro split_any_only [symmetric]) (auto simp: replace_any_def)
  then have "kept_pieces (lines ?s3) = kept_pieces (split_any ?cs ?s2)"
    using split_any_replace_any [of "[CHR ''&'', CHR ''|'', CHR '';'']" ?cs ch_newline ?s2]
    by (simp add: kept_pieces_lines)
  also have "\<dots> = kept_pieces (split_any ?cs command)"
    by (simp add: kept_pieces_replace2 del: split_any.simps)
  finally show ?thesis by (simp add: command_segments_def kept_pieces_def)
qed

text \<open>
  The segments of a command are the trimmed, non-empty pieces between its operator characters:
  the replacement of two-character operators and the line splitting lose nothing and add nothing.
\<close>

theorem command_segments_eq:
  "command_segments command =
     filter (\<lambda>s. s \<noteq> []) (map trim (split_any [CHR ''&'', CHR ''|'', CHR '';'', ch_newline] command))"
  by (simp only: command_segments_pieces kept_pieces_def)

section \<open>What a denied prefix covers\<close>

lemma deny_tokens_join:
  assumes "\<forall>w \<in> set ws. is_token w"
  shows "deny_tokens (join '' '' ws) =
     filter (\<lambda>t. t \<noteq> []) (map (\<lambda>w. sanitize_shell_wrappers (to_ascii_lowercase w)) ws)"
proof -
  have "split_whitespace (normalize_command (join '' '' ws)) = map to_ascii_lowercase ws"
    using assms by (simp add: normalize_command_def split_whitespace_join split_whitespace_lowercase)
  then show ?thesis by (simp add: deny_tokens_def comp_def)
qed

lemma deny_tokens_not_Nil: "t \<in> set (deny_tokens v) \<Longrightarrow> t \<noteq> []"
  by (auto simp: deny_tokens_def)

lemma deny_tokens_append:
  assumes "\<forall>w \<in> set (xs @ ys). is_token w"
  shows "deny_tokens (join '' '' (xs @ ys)) = deny_tokens (join '' '' xs) @ deny_tokens (join '' '' ys)"
  using assms by (simp add: deny_tokens_join)

text \<open>A flag stays a flag when the punctuation around it is stripped.\<close>

lemma strip_dollar_parens_flag: "strip_dollar_parens (CHR ''-'' # f) = CHR ''-'' # f"
  by (subst strip_dollar_parens.simps) (simp add: strip_prefix_def)

lemma sanitize_flag:
  assumes "prefix ''-'' f" and "CHR ''='' \<notin> set f"
  obtains g where "sanitize_shell_wrappers (to_ascii_lowercase f) = CHR ''-'' # g" and "CHR ''='' \<notin> set g"
proof -
  obtain f' where f: "f = CHR ''-'' # f'" using assms(1) by (cases f) auto
  let ?l = "CHR ''-'' # to_ascii_lowercase f'"
  have low: "to_ascii_lowercase f = ?l" using f by (simp add: ascii_lower_def)
  have "CHR ''='' \<notin> set (to_ascii_lowercase f')"
  proof
    assume "CHR ''='' \<in> set (to_ascii_lowercase f')"
    then obtain c where "c \<in> set f'" and "ascii_lower c = CHR ''=''"
      by (auto simp: to_ascii_lowercase_def)
    with f assms(2) show False using ascii_lower_iff [of "CHR ''=''" c] by (auto simp: is_ascii_alphabetic_def)
  qed
  moreover have "sanitize_shell_wrappers ?l = trim_end_matches [CHR '')'', CHR ''}'', CHR '';''] ?l"
    by (simp add: sanitize_shell_wrappers_def strip_dollar_parens_flag trim_start_matches_def)
  moreover have "trim_end_matches cs ?l = CHR ''-'' # trim_end_matches cs (to_ascii_lowercase f')"
    if "CHR ''-'' \<notin> set cs" for cs
    using that by (simp add: trim_end_matches_def dropWhile_append)
  moreover have "set (trim_end_matches cs t) \<subseteq> set t" for cs t
    by (auto simp: trim_end_matches_def dest: set_dropWhileD)
  ultimately show thesis using that low by auto
qed

lemma flag_not_env: "prefix ''-'' f \<Longrightarrow> \<not> deny_is_env_assignment f"
  by (cases f) (auto simp: deny_is_env_assignment_def split_once_def)

text \<open>A flag without an inline value may be added anywhere in a reading.\<close>

lemma reading_insert_flag:
  assumes "reading anchor rs cs" and "cs = xs @ ys" and "prefix ''-'' f" and "CHR ''='' \<notin> set f"
  shows "reading anchor rs (xs @ f # ys)"
  using assms(1,2)
proof (induction arbitrary: xs rule: reading.induct)
  case (reading_done anchor cs)
  show ?case by simp
next
  case (reading_word anchor r c rs cs)
  show ?case
  proof (cases xs)
    case Nil
    with reading_word assms(3) show ?thesis by (auto intro: reading.intros)
  next
    case (Cons x xs')
    with reading_word show ?thesis by (auto intro: reading.reading_word)
  qed
next
  case (reading_flag c anchor r rs cs)
  show ?case
  proof (cases xs)
    case Nil
    with reading_flag assms(3) show ?thesis by (auto intro: reading.intros)
  next
    case (Cons x xs')
    with reading_flag show ?thesis by (auto intro: reading.reading_flag)
  qed
next
  case (reading_flag_value c anchor r rs cs)
  consider "xs = []" | x where "xs = [x]" | x v zs where "xs = x # v # zs"
    by (cases xs rule: remdups_adj.cases) auto
  then show ?case
  proof cases
    case 1
    with reading.reading_flag [OF assms(3) reading.reading_flag_value [OF reading_flag_value.hyps]]
      reading_flag_value.prems show ?thesis by simp
  next
    case 2
    then have c: "c = x" and cs: "cs = ys" using reading_flag_value by auto
    have "reading anchor (r # rs) (f # ys)"
      using reading.reading_flag_value [OF assms(3,4), of anchor r rs ys] reading_flag_value.hyps(3) cs by simp
    with 2 c reading_flag_value.hyps(1) show ?thesis by (auto intro: reading.reading_flag)
  next
    case 3
    with reading_flag_value.prems have "drop 1 cs = zs @ ys" and "c = x" and "cs = v # zs @ ys" by auto
    with 3 reading_flag_value.IH [of zs] reading_flag_value.hyps(1,2) show ?thesis
      by (auto intro: reading.reading_flag_value)
  qed
qed

text \<open>
  C28. A global flag cannot hide a denied command: if a rule matches a command then it still matches
  when a flag without inline value is written at any place after the command word.
\<close>

theorem inserted_flag_cannot_hide:
  assumes "denied_prefix_matches rule (join '' '' (xs @ ys))"
    and "\<forall>w \<in> set (xs @ f # ys). is_token w"
    and "prefix ''-'' f" and "CHR ''='' \<notin> set f"
    and "\<not> list_all deny_is_env_assignment (deny_tokens (join '' '' xs))"
  shows "denied_prefix_matches rule (join '' '' (xs @ f # ys))"
proof -
  let ?X = "deny_tokens (join '' '' xs)" and ?Y = "deny_tokens (join '' '' ys)"
  obtain g where g: "sanitize_shell_wrappers (to_ascii_lowercase f) = CHR ''-'' # g" and "CHR ''='' \<notin> set g"
    using sanitize_flag [OF assms(3,4)] by blast
  then have flag: "prefix ''-'' (CHR ''-'' # g)" "CHR ''='' \<notin> set (CHR ''-'' # g)" by auto
  have drop: "dropWhile deny_is_env_assignment (?X @ zs) = dropWhile deny_is_env_assignment ?X @ zs" for zs
    using assms(5) by (auto simp: list_all_iff dropWhile_append)
  have "deny_tokens (join '' '' (xs @ ys)) = ?X @ ?Y"
    using assms(2) by (intro deny_tokens_append) auto
  moreover have "deny_tokens (join '' '' (xs @ f # ys)) = ?X @ (CHR ''-'' # g) # ?Y"
    using assms(2) g by (simp add: deny_tokens_join)
  ultimately show ?thesis
    using assms(1) drop reading_insert_flag [OF _ refl flag] by (simp add: denied_iff_reading)
qed

theorem inserted_flag_cannot_hide_witness:
  "denied_prefix_matches ''git push'' ''GIT --no-pager push origin''"
proof -
  have "denied_prefix_matches ''git push'' (join '' '' ([''GIT''] @ ''--no-pager'' # [''push'', ''origin'']))"
    by (rule inserted_flag_cannot_hide) code_simp+
  then show ?thesis by simp
qed

text \<open>Without flags there is only one reading.\<close>

lemma reading_no_flags:
  assumes "\<forall>c \<in> set cs. \<not> prefix ''-'' c"
  shows "reading False rs cs \<longleftrightarrow> prefix rs cs"
  using assms
proof (induction rs arbitrary: cs)
  case (Cons r rs)
  then show ?case by (cases cs) (auto simp: reading_Cons)
qed simp

text \<open>
  Matching is anchored: for a command without flags and environment assignments, a rule matches
  just if the words of the command start with the words of the rule, the command word up to a
  directory in front of it. So a rule for one subcommand never blocks another command that merely
  mentions it.
\<close>

theorem denied_prefix_anchored:
  assumes "deny_tokens rule = r # rs" and "deny_tokens command = cs"
    and "\<forall>c \<in> set cs. \<not> prefix ''-'' c \<and> \<not> deny_is_env_assignment c"
  shows "denied_prefix_matches rule command \<longleftrightarrow>
     (\<exists>c cs'. cs = c # cs' \<and> command_word_matches r c \<and> prefix rs cs')"
proof -
  have "dropWhile deny_is_env_assignment cs = cs" using assms(3) by (cases cs) auto
  then have "denied_prefix_matches rule command \<longleftrightarrow> reading True (r # rs) cs"
    using assms(1,2) by (simp add: denied_iff_reading)
  also have "\<dots> \<longleftrightarrow> (\<exists>c cs'. cs = c # cs' \<and> command_word_matches r c \<and> prefix rs cs')"
    using assms(3) reading_no_flags [of "tl cs" rs] by (cases cs) (auto simp: reading_Cons)
  finally show ?thesis .
qed

theorem denied_prefix_anchored_witness:
  "\<not> denied_prefix_matches ''git push'' ''git checkout push'' \<and>
   denied_prefix_matches ''git push'' ''/usr/bin/git push origin''"
proof -
  have r: "deny_tokens ''git push'' = [''git'', ''push'']"
    and c: "deny_tokens ''git checkout push'' = [''git'', ''checkout'', ''push'']"
    and d: "deny_tokens ''/usr/bin/git push origin'' = [''/usr/bin/git'', ''push'', ''origin'']"
    by code_simp+
  have fc: "\<forall>c \<in> set [''git'', ''checkout'', ''push'']. \<not> prefix ''-'' c \<and> \<not> deny_is_env_assignment c"
    and fd: "\<forall>c \<in> set [''/usr/bin/git'', ''push'', ''origin'']. \<not> prefix ''-'' c \<and> \<not> deny_is_env_assignment c"
    and w: "command_word_matches ''git'' ''/usr/bin/git''" by code_simp+
  show ?thesis
    using denied_prefix_anchored [OF r c fc] denied_prefix_anchored [OF r d fd] w by auto
qed

lemma last_component_path: "last_component (dir @ ''/'' @ c) = last_component c"
proof -
  let ?s = "[CHR ''/'', CHR 0x5C]"
  have "length (split_any ?s (dir @ CHR ''/'' # c)) > 1 \<and>
        last (split_any ?s (dir @ CHR ''/'' # c)) = last (split_any ?s c)"
  proof (induction dir)
    case (Cons x dir)
    then show ?case
      by (cases "split_any ?s (dir @ CHR ''/'' # c)") (auto simp: split_any_Cons simp del: split_any.simps)
  qed (simp add: Suc_le_eq)
  then show ?thesis by (simp add: last_component_def)
qed

text \<open>
  C29. A path cannot hide a denied command: if a rule for a bare command matches a command line, then
  it matches the line with a directory written in front of the command word.
\<close>

theorem path_cannot_hide:
  assumes "denied_prefix_matches rule command"
    and "deny_tokens command = c # cs" and "deny_tokens command' = (dir @ ''/'' @ c) # cs"
    and "\<not> prefix ''-'' c" and "\<not> deny_is_env_assignment c" and "\<not> deny_is_env_assignment (dir @ ''/'' @ c)"
    and "CHR ''/'' \<notin> set (hd (deny_tokens rule))" and "CHR 0x5C \<notin> set (hd (deny_tokens rule))"
  shows "denied_prefix_matches rule command'"
proof -
  obtain r rs where r: "deny_tokens rule = r # rs" and m: "reading True (r # rs) (c # cs)"
    using assms(1,2,5) by (cases "deny_tokens rule") (auto simp: denied_iff_reading)
  then have w: "command_word_matches r c" and rest: "reading False rs cs"
    using assms(4) by (auto simp: reading_Cons)
  have "r \<noteq> []" using r deny_tokens_not_Nil [of r rule] by simp
  moreover have "last_component r = r"
    using r assms(7,8) by (simp add: last_component_def split_any_no_sep)
  ultimately have "command_word_matches r (dir @ ''/'' @ c)"
    using w r assms(7,8) last_component_path [of dir c]
    by (auto simp: command_word_matches_def split: if_splits)
  with rest have "reading True (r # rs) ((dir @ ''/'' @ c) # cs)" by (auto simp: reading_Cons)
  with r assms(3,6) show ?thesis by (simp add: denied_iff_reading)
qed

theorem path_cannot_hide_witness: "denied_prefix_matches ''rm -rf'' ''../bin/rm -rf /''"
  by (rule path_cannot_hide [where command = "''rm -rf /''" and dir = "''../bin''" and c = "''rm''"])
    code_simp+

section \<open>The scanned command lines\<close>

lemma set_collect_targets: "set (collect_targets known ts) = {t \<in> set ts. t \<noteq> [] \<and> t \<notin> known}"
  by (induction known ts rule: collect_targets.induct) auto

lemma distinct_collect_targets: "distinct (collect_targets known ts)"
  by (induction known ts rule: collect_targets.induct) (auto simp: set_collect_targets)

lemma set_deny_scan_targets:
  "set (deny_scan_targets command) =
     (insert (trim command) (set (command_segments command) \<union> set (expanded_commands command))) - {[]}"
  by (auto simp: deny_scan_targets_def set_collect_targets)

end
