(* ===== verification/Exec_Policy.thy ===== *)
theory Exec_Policy
  imports Bash_Arity Workspace_Path Deny_Match "HOL-Library.Product_Lexorder"
begin

text \<open>
  The execution policy engine of \<open>crates/execpolicy/src/lib.rs\<close>: layered rulesets, typed permission
  rules, session approvals and \<open>check\<close>, which turns a command into a decision. The reasons and rule
  labels are the strings the code builds. \<open>check\<close> returns \<open>Ok\<close> on every path, so the model returns the
  decision itself. The host's case rule for paths is the argument \<open>ci\<close>.

  The lemmas say which rule is selected, that a denied prefix blocks in every approval mode, what
  can be executed without a prompt, and that the flags of a decision agree with its requirement.
\<close>

section \<open>Rules\<close>

datatype ruleset_layer = BuiltinDefault | Agent | User

definition layer_ordinal :: "ruleset_layer \<Rightarrow> nat" where
  "layer_ordinal l = (case l of BuiltinDefault \<Rightarrow> 0 | Agent \<Rightarrow> 1 | User \<Rightarrow> 2)"

instantiation ruleset_layer :: linorder
begin

definition less_eq_ruleset_layer :: "ruleset_layer \<Rightarrow> ruleset_layer \<Rightarrow> bool" where
  "less_eq_ruleset_layer a b \<longleftrightarrow> layer_ordinal a \<le> layer_ordinal b"

definition less_ruleset_layer :: "ruleset_layer \<Rightarrow> ruleset_layer \<Rightarrow> bool" where
  "less_ruleset_layer a b \<longleftrightarrow> layer_ordinal a < layer_ordinal b"

instance
  by standard
    (auto simp: less_eq_ruleset_layer_def less_ruleset_layer_def layer_ordinal_def split: ruleset_layer.splits)

end

datatype permission_action = Allow | Ask | Deny

definition action_ordinal :: "permission_action \<Rightarrow> nat" where
  "action_ordinal a = (case a of Allow \<Rightarrow> 0 | Ask \<Rightarrow> 1 | Deny \<Rightarrow> 2)"

instantiation permission_action :: linorder
begin

definition less_eq_permission_action :: "permission_action \<Rightarrow> permission_action \<Rightarrow> bool" where
  "less_eq_permission_action a b \<longleftrightarrow> action_ordinal a \<le> action_ordinal b"

definition less_permission_action :: "permission_action \<Rightarrow> permission_action \<Rightarrow> bool" where
  "less_permission_action a b \<longleftrightarrow> action_ordinal a < action_ordinal b"

instance
  by standard
    (auto simp: less_eq_permission_action_def less_permission_action_def action_ordinal_def
      split: permission_action.splits)

end

record tool_ask_rule =
  r_tool :: string
  r_command :: "string option"
  r_command_exact :: bool
  r_path :: "string option"
  r_workspace :: "string option"
  r_action :: permission_action

definition tool_ask_rule_new :: "string \<Rightarrow> tool_ask_rule" where
  "tool_ask_rule_new tool =
     \<lparr>r_tool = tool, r_command = None, r_command_exact = False, r_path = None, r_workspace = None,
      r_action = Ask\<rparr>"

definition exec_shell :: "string \<Rightarrow> tool_ask_rule" where
  "exec_shell command =
     \<lparr>r_tool = ''exec_shell'', r_command = Some command, r_command_exact = False, r_path = None,
      r_workspace = None, r_action = Ask\<rparr>"

definition file_path :: "string \<Rightarrow> string \<Rightarrow> tool_ask_rule" where
  "file_path tool path =
     \<lparr>r_tool = tool, r_command = None, r_command_exact = False, r_path = Some path, r_workspace = None,
      r_action = Ask\<rparr>"

definition into_exact_workspace_allow :: "string \<Rightarrow> tool_ask_rule \<Rightarrow> tool_ask_rule" where
  "into_exact_workspace_allow workspace r =
     r\<lparr>r_command_exact := (r_command r \<noteq> None), r_workspace := Some workspace, r_action := Allow\<rparr>"

definition label :: "tool_ask_rule \<Rightarrow> string" where
  "label r =
     join '' ''
       ([''tool='' @ r_tool r] @
        (case r_command r of Some command \<Rightarrow> [''command='' @ command] | None \<Rightarrow> []) @
        (if r_command_exact r then [''command_exact=true''] else []) @
        (case r_path r of Some path \<Rightarrow> [''path='' @ path] | None \<Rightarrow> []) @
        (case r_workspace r of Some workspace \<Rightarrow> [''workspace='' @ workspace] | None \<Rightarrow> []))"

definition ask_rule_specificity :: "tool_ask_rule \<Rightarrow> usize" where
  "ask_rule_specificity r =
     utf8_len (r_tool r)
     + (case r_command r of Some command \<Rightarrow> utf8_len command + 1000 | None \<Rightarrow> 0)
     + (case r_path r of Some path \<Rightarrow> utf8_len path + 1000 | None \<Rightarrow> 0)
     + (case r_workspace r of Some workspace \<Rightarrow> utf8_len workspace + 1000 | None \<Rightarrow> 0)
     + (if r_command_exact r then 1 else 0)"

record ruleset =
  rs_layer :: ruleset_layer
  rs_trusted_prefixes :: "string list"
  rs_denied_prefixes :: "string list"
  rs_ask_rules :: "tool_ask_rule list"

definition ruleset_builtin_default :: ruleset where
  "ruleset_builtin_default =
     \<lparr>rs_layer = BuiltinDefault, rs_trusted_prefixes = [], rs_denied_prefixes = [], rs_ask_rules = []\<rparr>"

definition ruleset_agent :: "string list \<Rightarrow> string list \<Rightarrow> ruleset" where
  "ruleset_agent trusted denied =
     \<lparr>rs_layer = Agent, rs_trusted_prefixes = trusted, rs_denied_prefixes = denied, rs_ask_rules = []\<rparr>"

definition ruleset_user :: "string list \<Rightarrow> string list \<Rightarrow> ruleset" where
  "ruleset_user trusted denied =
     \<lparr>rs_layer = User, rs_trusted_prefixes = trusted, rs_denied_prefixes = denied, rs_ask_rules = []\<rparr>"

definition with_ask_rules :: "tool_ask_rule list \<Rightarrow> ruleset \<Rightarrow> ruleset" where
  "with_ask_rules rules rs = rs\<lparr>rs_ask_rules := rules\<rparr>"

section \<open>Decisions\<close>

datatype ask_for_approval =
    UnlessTrusted
  | OnFailure
  | OnRequest
  | Reject (sandbox_approval: bool) (rules: bool) (mcp_elicitations: bool)
  | Never

record exec_policy_amendment =
  prefixes :: "string list"

datatype network_policy_rule_action = NetAllow | NetDeny

record network_policy_amendment =
  host :: string
  net_action :: network_policy_rule_action

datatype exec_approval_requirement =
    Skip bool "exec_policy_amendment option"
  | NeedsApproval string "exec_policy_amendment option" "network_policy_amendment list"
  | Forbidden string

definition reason :: "exec_approval_requirement \<Rightarrow> string" where
  "reason req = (case req of
      Skip _ _ \<Rightarrow> ''Execution allowed by policy.''
    | NeedsApproval r _ _ \<Rightarrow> r
    | Forbidden r \<Rightarrow> r)"

definition phase :: "exec_approval_requirement \<Rightarrow> string" where
  "phase req = (case req of
      Skip _ _ \<Rightarrow> ''allowed''
    | NeedsApproval _ _ _ \<Rightarrow> ''needs_approval''
    | Forbidden _ \<Rightarrow> ''forbidden'')"

record exec_policy_decision =
  allow :: bool
  requires_approval :: bool
  requirement :: exec_approval_requirement
  matched_rule :: "string option"
  matched_action :: "permission_action option"

record exec_policy_context =
  ctx_command :: string
  ctx_cwd :: string
  ctx_tool :: "string option"
  ctx_path :: "string option"
  ctx_ask_for_approval :: ask_for_approval
  ctx_sandbox_mode :: "string option"

section \<open>The engine\<close>

record exec_policy_engine =
  rulesets :: "ruleset list"
  trusted_prefixes :: "string list"
  denied_prefixes :: "string list"
  approved_for_session :: "string set"
  arity_dict :: bash_arity_dict

definition engine_new :: "string list \<Rightarrow> string list \<Rightarrow> exec_policy_engine" where
  "engine_new trusted denied =
     \<lparr>rulesets = [], trusted_prefixes = trusted, denied_prefixes = denied,
      approved_for_session = {}, arity_dict = arity_dict_new\<rparr>"

definition with_rulesets :: "ruleset list \<Rightarrow> exec_policy_engine" where
  "with_rulesets rss =
     \<lparr>rulesets = sort_key rs_layer rss, trusted_prefixes = [], denied_prefixes = [],
      approved_for_session = {}, arity_dict = arity_dict_new\<rparr>"

definition add_ruleset :: "ruleset \<Rightarrow> exec_policy_engine \<Rightarrow> exec_policy_engine" where
  "add_ruleset rs e = e\<lparr>rulesets := sort_key rs_layer (rulesets e @ [rs])\<rparr>"

definition set_ruleset :: "ruleset \<Rightarrow> exec_policy_engine \<Rightarrow> exec_policy_engine" where
  "set_ruleset rs e =
     e\<lparr>rulesets := sort_key rs_layer
        (filter (\<lambda>existing. rs_layer existing \<noteq> rs_layer rs) (rulesets e) @ [rs])\<rparr>"

definition resolve_prefixes :: "exec_policy_engine \<Rightarrow> string list \<times> string list" where
  "resolve_prefixes e =
     (if rulesets e = [] then (trusted_prefixes e, denied_prefixes e)
      else (concat (map rs_trusted_prefixes (rulesets e)) @ trusted_prefixes e,
            concat (map rs_denied_prefixes (rulesets e)) @ denied_prefixes e))"

definition remember_session_approval :: "string \<Rightarrow> exec_policy_engine \<Rightarrow> exec_policy_engine" where
  "remember_session_approval key e = e\<lparr>approved_for_session := insert key (approved_for_session e)\<rparr>"

definition is_session_approved :: "string \<Rightarrow> exec_policy_engine \<Rightarrow> bool" where
  "is_session_approved key e = (key \<in> approved_for_session e)"

subsection \<open>Selecting a typed rule\<close>

text \<open>\<open>Iterator::max_by_key\<close>: the last of the elements whose key is greatest.\<close>

definition max_by_key :: "('a \<Rightarrow> 'k :: linorder) \<Rightarrow> 'a list \<Rightarrow> 'a option" where
  "max_by_key f xs =
     (case xs of [] \<Rightarrow> None
      | x # ys \<Rightarrow> Some (fold (\<lambda>y best. if f y \<ge> f best then y else best) ys x))"

text \<open>The four filters of \<open>matching_ask_rule\<close>.\<close>

definition ask_rule_applies :: "bool \<Rightarrow> bash_arity_dict \<Rightarrow> exec_policy_context \<Rightarrow> tool_ask_rule \<Rightarrow> bool" where
  "ask_rule_applies ci d ctx r \<longleftrightarrow>
     r_tool r = (case ctx_tool ctx of Some tool \<Rightarrow> tool | None \<Rightarrow> ''exec_shell'') \<and>
     (case r_workspace r of
        None \<Rightarrow> True
      | Some workspace \<Rightarrow> workspace_scope_matches workspace (ctx_cwd ctx)) \<and>
     (case r_command r of
        Some command \<Rightarrow>
          if r_command_exact r then trim command = trim (ctx_command ctx)
          else allow_rule_matches d command (ctx_command ctx)
      | None \<Rightarrow> True) \<and>
     (case (r_path r, ctx_path ctx) of
        (Some pattern, Some path) \<Rightarrow>
          (case (normalize_workspace_relative_path ci pattern (ctx_cwd ctx),
                 normalize_workspace_relative_path ci path (ctx_cwd ctx)) of
             (Some pattern, Some path) \<Rightarrow> pattern = path
           | _ \<Rightarrow> False)
      | (Some _, None) \<Rightarrow> False
      | (None, _) \<Rightarrow> True)"

definition layered_rules :: "exec_policy_engine \<Rightarrow> (ruleset_layer \<times> tool_ask_rule) list" where
  "layered_rules e = concat (map (\<lambda>rs. map (\<lambda>r. (rs_layer rs, r)) (rs_ask_rules rs)) (rulesets e))"

definition rule_key :: "ruleset_layer \<times> tool_ask_rule \<Rightarrow> ruleset_layer \<times> permission_action \<times> usize" where
  "rule_key lr = (fst lr, r_action (snd lr), ask_rule_specificity (snd lr))"

definition matching_ask_rule :: "bool \<Rightarrow> exec_policy_engine \<Rightarrow> exec_policy_context \<Rightarrow> tool_ask_rule option" where
  "matching_ask_rule ci e ctx =
     map_option snd
       (max_by_key rule_key
         (filter (\<lambda>lr. ask_rule_applies ci (arity_dict e) ctx (snd lr)) (layered_rules e)))"

subsection \<open>The check\<close>

definition quoted :: "string \<Rightarrow> string" where
  "quoted s = [ch_squote] @ s @ [ch_squote]"

text \<open>The first denied prefix that matches one of the scanned command lines.\<close>

definition denied_rule :: "exec_policy_engine \<Rightarrow> string \<Rightarrow> string option" where
  "denied_rule e command =
     find (\<lambda>rule. list_ex (\<lambda>hay. denied_prefix_matches rule hay) (deny_scan_targets command))
       (snd (resolve_prefixes e))"

definition trusted_rule :: "exec_policy_engine \<Rightarrow> string \<Rightarrow> string option" where
  "trusted_rule e command =
     (if command_is_chained command then None
      else find (\<lambda>rule. allow_rule_matches (arity_dict e) rule command) (fst (resolve_prefixes e)))"

text \<open>The loop over the other scanned command lines.\<close>

fun segment_deny_rule :: "bool \<Rightarrow> exec_policy_engine \<Rightarrow> exec_policy_context \<Rightarrow> string list \<Rightarrow> tool_ask_rule option" where
  "segment_deny_rule ci e ctx [] = None"
| "segment_deny_rule ci e ctx (target # rest) =
     (case matching_ask_rule ci e (ctx\<lparr>ctx_command := target\<rparr>) of
        Some rule \<Rightarrow> if r_action rule = Deny then Some rule else segment_deny_rule ci e ctx rest
      | None \<Rightarrow> segment_deny_rule ci e ctx rest)"

definition forbid :: "string \<Rightarrow> string \<Rightarrow> permission_action option \<Rightarrow> exec_policy_decision" where
  "forbid why rule action =
     \<lparr>allow = False, requires_approval = False, requirement = Forbidden why,
      matched_rule = Some rule, matched_action = action\<rparr>"

text \<open>
  The requirement by approval mode, with the label of the typed rule when it decided: first the
  typed ask rule, then the mode.
\<close>

definition mode_requirement ::
  "exec_policy_context \<Rightarrow> tool_ask_rule option \<Rightarrow> bool \<Rightarrow> exec_approval_requirement \<times> string option" where
  "mode_requirement ctx ask_rule is_trusted =
     (case (case ctx_ask_for_approval ctx of
              Never \<Rightarrow> None
            | Reject _ True _ \<Rightarrow> None
            | _ \<Rightarrow> ask_rule) of
        Some rule \<Rightarrow>
          (NeedsApproval (''Typed ask rule '' @ quoted (label rule) @ '' requires approval.'') None [],
           Some (label rule))
      | None \<Rightarrow>
          (case ctx_ask_for_approval ctx of
             Never \<Rightarrow>
               (case ask_rule of
                  Some rule \<Rightarrow>
                    (Forbidden (''Typed ask rule '' @ quoted (label rule) @
                       '' requires approval, but approval policy is never.''),
                     Some (label rule))
                | None \<Rightarrow> (Skip False None, None))
           | Reject _ True _ \<Rightarrow> (Forbidden ''Policy is configured to reject rule-exceptions.'', None)
           | OnFailure \<Rightarrow> (Skip False None, None)
           | mode \<Rightarrow>
               if mode = UnlessTrusted \<and> is_trusted then (Skip False None, None)
               else
                 (NeedsApproval
                    (if is_trusted then ''Approval requested by policy mode.''
                     else ''Unmatched command prefix requires approval.'')
                    (if is_trusted \<or> command_is_chained (ctx_command ctx) then None
                     else Some \<lparr>prefixes = [first_token (ctx_command ctx)]\<rparr>)
                    [],
                  None)))"

definition decision_flags :: "exec_approval_requirement \<Rightarrow> bool \<times> bool" where
  "decision_flags req = (case req of
      Skip _ _ \<Rightarrow> (True, False)
    | NeedsApproval _ _ _ \<Rightarrow> (True, True)
    | Forbidden _ \<Rightarrow> (False, False))"

text \<open>The end of \<open>check\<close>, after the typed rule was neither a deny nor an allow that applies.\<close>

definition mode_decision ::
  "exec_policy_context \<Rightarrow> tool_ask_rule option \<Rightarrow> string option \<Rightarrow> exec_policy_decision" where
  "mode_decision ctx ask_rule trusted =
     (let (req, matched_ask_rule) = mode_requirement ctx ask_rule (trusted \<noteq> None)
      in \<lparr>allow = fst (decision_flags req), requires_approval = snd (decision_flags req), requirement = req,
          matched_rule = (case matched_ask_rule of Some l \<Rightarrow> Some l | None \<Rightarrow> trusted),
          matched_action = map_option r_action ask_rule\<rparr>)"

definition check :: "bool \<Rightarrow> exec_policy_engine \<Rightarrow> exec_policy_context \<Rightarrow> exec_policy_decision" where
  "check ci e ctx =
     (case denied_rule e (ctx_command ctx) of
        Some rule \<Rightarrow> forbid (''Command blocked by denied prefix rule '' @ quoted rule) rule None
      | None \<Rightarrow>
          (let trusted = trusted_rule e (ctx_command ctx);
               raw_command = trim (ctx_command ctx)
           in case segment_deny_rule ci e ctx
                     (filter (\<lambda>t. t \<noteq> raw_command) (deny_scan_targets (ctx_command ctx))) of
                Some rule \<Rightarrow>
                  forbid (''Permission rule '' @ quoted (label rule) @
                    '' explicitly denies a chained segment of this invocation.'') (label rule) (Some Deny)
              | None \<Rightarrow>
                  (let ask_rule = matching_ask_rule ci e ctx
                   in case ask_rule of
                        Some rule \<Rightarrow>
                          (case r_action rule of
                             Deny \<Rightarrow>
                               forbid (''Permission rule '' @ quoted (label rule) @
                                 '' explicitly denies this invocation.'') (label rule) (Some Deny)
                           | Allow \<Rightarrow>
                               if \<not> command_is_chained (ctx_command ctx)
                               then \<lparr>allow = True, requires_approval = False, requirement = Skip False None,
                                     matched_rule = Some (label rule), matched_action = Some Allow\<rparr>
                               else mode_decision ctx ask_rule trusted
                           | Ask \<Rightarrow> mode_decision ctx ask_rule trusted)
                      | None \<Rightarrow> mode_decision ctx ask_rule trusted)))"

section \<open>Which rule is selected\<close>

lemma max_by_key_snoc:
  "max_by_key f (xs @ [y]) =
     (case max_by_key f xs of None \<Rightarrow> Some y | Some b \<Rightarrow> Some (if f b \<le> f y then y else b))"
  by (cases xs) (simp_all add: max_by_key_def)

lemma max_by_key_None_iff: "max_by_key f xs = None \<longleftrightarrow> xs = []"
  by (cases xs) (simp_all add: max_by_key_def)

lemma max_by_key_last_greatest:
  "max_by_key f xs = Some x \<Longrightarrow>
     \<exists>ys zs. xs = ys @ x # zs \<and> (\<forall>y \<in> set ys. f y \<le> f x) \<and> (\<forall>z \<in> set zs. f z < f x)"
proof (induction xs arbitrary: x rule: rev_induct)
  case (snoc y xs)
  show ?case
  proof (cases "max_by_key f xs")
    case None
    with snoc.prems have "xs = []" and "y = x" by (simp_all add: max_by_key_snoc max_by_key_None_iff)
    then show ?thesis by (intro exI [of _ "[]"]) simp
  next
    case (Some b)
    from snoc.IH [OF Some] obtain ys zs where xs: "xs = ys @ b # zs"
      and ys: "\<forall>y \<in> set ys. f y \<le> f b" and zs: "\<forall>z \<in> set zs. f z < f b" by blast
    show ?thesis
    proof (cases "f b \<le> f y")
      case True
      with Some snoc.prems have "x = y" by (simp add: max_by_key_snoc)
      moreover have "\<forall>z \<in> set xs. f z \<le> f y"
      proof
        fix z assume "z \<in> set xs"
        then have "f z \<le> f b" using xs ys zs by auto
        then show "f z \<le> f y" using True by (rule order_trans)
      qed
      ultimately show ?thesis by (intro exI [of _ xs] exI [of _ "[]"]) simp
    next
      case False
      with Some snoc.prems have "x = b" by (simp add: max_by_key_snoc)
      with xs ys zs False show ?thesis
        by (intro exI [of _ ys] exI [of _ "zs @ [y]"]) auto
    qed
  qed
qed (simp add: max_by_key_def)

lemma max_by_key_member: "max_by_key f xs = Some x \<Longrightarrow> x \<in> set xs"
  using max_by_key_last_greatest [of f xs x] by auto

lemma max_by_key_greatest: "max_by_key f xs = Some x \<Longrightarrow> y \<in> set xs \<Longrightarrow> f y \<le> f x"
  using max_by_key_last_greatest [of f xs x] less_imp_le by fastforce



section \<open>What a check decides\<close>

definition is_forbidden :: "exec_policy_decision \<Rightarrow> bool" where
  "is_forbidden d \<longleftrightarrow> \<not> allow d \<and> \<not> requires_approval d \<and> (\<exists>why. requirement d = Forbidden why)"

lemma is_forbidden_forbid [simp]: "is_forbidden (forbid why rule action)"
  by (simp add: is_forbidden_def forbid_def)

text \<open>The exits of \<open>check\<close>.\<close>

lemma check_cases:
  obtains (denied) rule where "denied_rule e (ctx_command ctx) = Some rule"
      and "check ci e ctx = forbid (''Command blocked by denied prefix rule '' @ quoted rule) rule None"
  | (segment) rule where "denied_rule e (ctx_command ctx) = None"
      and "check ci e ctx = forbid (''Permission rule '' @ quoted (label rule) @
            '' explicitly denies a chained segment of this invocation.'') (label rule) (Some Deny)"
  | (typed_deny) rule where "denied_rule e (ctx_command ctx) = None"
      and "matching_ask_rule ci e ctx = Some rule" and "r_action rule = Deny"
      and "check ci e ctx = forbid (''Permission rule '' @ quoted (label rule) @
             '' explicitly denies this invocation.'') (label rule) (Some Deny)"
  | (typed_allow) rule where "denied_rule e (ctx_command ctx) = None"
      and "matching_ask_rule ci e ctx = Some rule" and "r_action rule = Allow"
      and "\<not> command_is_chained (ctx_command ctx)"
      and "check ci e ctx = \<lparr>allow = True, requires_approval = False, requirement = Skip False None,
             matched_rule = Some (label rule), matched_action = Some Allow\<rparr>"
  | (mode) "denied_rule e (ctx_command ctx) = None"
      and "\<And>rule. matching_ask_rule ci e ctx = Some rule \<Longrightarrow>
             r_action rule = Ask \<or> (r_action rule = Allow \<and> command_is_chained (ctx_command ctx))"
      and "check ci e ctx =
             mode_decision ctx (matching_ask_rule ci e ctx) (trusted_rule e (ctx_command ctx))"
proof (cases "denied_rule e (ctx_command ctx)")
  case (Some rule)
  then show thesis by (intro denied [of rule]) (simp_all add: check_def)
next
  case none: None
  let ?ts = "filter (\<lambda>t. t \<noteq> trim (ctx_command ctx)) (deny_scan_targets (ctx_command ctx))"
  show thesis
  proof (cases "segment_deny_rule ci e ctx ?ts")
    case (Some rule)
    with none show thesis by (intro segment [of rule]) (simp_all add: check_def Let_def)
  next
    case seg: None
    show thesis
    proof (cases "matching_ask_rule ci e ctx")
      case None
      with none seg show thesis by (intro mode) (simp_all add: check_def Let_def)
    next
      case (Some rule)
      with none seg show thesis
        by (cases "r_action rule"; cases "command_is_chained (ctx_command ctx)")
          (auto simp: check_def Let_def intro: typed_deny typed_allow mode)
    qed
  qed
qed

text \<open>
  C1. A denied prefix is the one gate that holds everywhere: if a denied prefix of any layer matches any
  command line the shell would run for the invocation, the decision is to forbid it, whatever
  trusted prefixes, typed rules and approval mode say.
\<close>

theorem denied_prefix_forbids:
  assumes "rule \<in> set (snd (resolve_prefixes e))" and "target \<in> set (deny_scan_targets (ctx_command ctx))"
    and "denied_prefix_matches rule target"
  shows "is_forbidden (check ci e ctx)"
proof -
  have "denied_rule e (ctx_command ctx) \<noteq> None"
    using assms by (auto simp: denied_rule_def find_None_iff list_ex_iff)
  then show ?thesis by (cases rule: check_cases [of e ctx ci]) simp_all
qed

theorem denied_prefix_forbids_witness:
  "is_forbidden (check False (engine_new [''git''] [''git push''])
     \<lparr>ctx_command = ''git  --no-pager push'', ctx_cwd = ''/ws'', ctx_tool = None, ctx_path = None,
      ctx_ask_for_approval = Never, ctx_sandbox_mode = None\<rparr>)"
proof -
  let ?c = "''git  --no-pager push''"
  have "trim ?c = ?c" by code_simp
  then have t: "?c \<in> set (deny_scan_targets ?c)" by (simp add: set_deny_scan_targets)
  have r: "''git push'' \<in> set (snd (resolve_prefixes (engine_new [''git''] [''git push''])))"
    by (simp add: engine_new_def resolve_prefixes_def)
  have "denied_prefix_matches ''git push'' ?c" by code_simp
  then show ?thesis
    by (rule denied_prefix_forbids [OF r, of ?c, rotated]) (simp only: exec_policy_context.select_convs t)
qed

lemma matching_ask_rule_greatest:
  assumes "(l, r) \<in> set (layered_rules e)" and "ask_rule_applies ci (arity_dict e) ctx r"
  obtains l' r' where "matching_ask_rule ci e ctx = Some r'" and "(l', r') \<in> set (layered_rules e)"
    and "ask_rule_applies ci (arity_dict e) ctx r'" and "rule_key (l, r) \<le> rule_key (l', r')"
proof -
  let ?rs = "filter (\<lambda>lr. ask_rule_applies ci (arity_dict e) ctx (snd lr)) (layered_rules e)"
  have mem: "(l, r) \<in> set ?rs" using assms by simp
  then have "?rs \<noteq> []" by (metis empty_iff empty_set)
  then have "max_by_key rule_key ?rs \<noteq> None" by (simp only: max_by_key_None_iff not_False_eq_True)
  then obtain l' r' where m: "max_by_key rule_key ?rs = Some (l', r')" by auto
  with max_by_key_member [OF m] max_by_key_greatest [OF m mem] show thesis
    by (intro that [of r' l']) (auto simp: matching_ask_rule_def)
qed

text \<open>
  C26. Inside the highest layer that has a say, deny wins: if a typed deny rule applies to an invocation
  and no rule of a higher layer applies, the invocation is forbidden in every approval mode.
\<close>

theorem typed_deny_wins:
  assumes "(l, r) \<in> set (layered_rules e)" and "ask_rule_applies ci (arity_dict e) ctx r"
    and "r_action r = Deny"
    and "\<forall>(l', r') \<in> set (layered_rules e). ask_rule_applies ci (arity_dict e) ctx r' \<longrightarrow> l' \<le> l"
  shows "is_forbidden (check ci e ctx)"
proof -
  obtain l' r' where m: "matching_ask_rule ci e ctx = Some r'" and mem: "(l', r') \<in> set (layered_rules e)"
    and app: "ask_rule_applies ci (arity_dict e) ctx r'" and key: "rule_key (l, r) \<le> rule_key (l', r')"
    using matching_ask_rule_greatest [OF assms(1,2)] by blast
  have "l' \<le> l" using assms(4) mem app by blast
  with key assms(3) have "Deny \<le> r_action r'" by (auto simp: rule_key_def)
  then have "r_action r' = Deny"
    by (cases "r_action r'") (simp_all add: less_eq_permission_action_def action_ordinal_def)
  with m show ?thesis by (cases rule: check_cases [of e ctx ci]) auto
qed

theorem typed_deny_wins_witness:
  "is_forbidden (check False
     (with_rulesets [with_ask_rules
        [(tool_ask_rule_new ''edit_file'')\<lparr>r_action := Allow, r_path := Some ''a''\<rparr>,
         (tool_ask_rule_new ''edit_file'')\<lparr>r_action := Deny\<rparr>] (ruleset_user [] [])])
     \<lparr>ctx_command = '''', ctx_cwd = ''/ws'', ctx_tool = Some ''edit_file'', ctx_path = Some ''a'',
      ctx_ask_for_approval = OnFailure, ctx_sandbox_mode = None\<rparr>)"
  by (rule typed_deny_wins [where l = User and r = "(tool_ask_rule_new ''edit_file'')\<lparr>r_action := Deny\<rparr>"])
    (auto simp: layered_rules_def with_rulesets_def with_ask_rules_def ruleset_user_def
      ask_rule_applies_def tool_ask_rule_new_def)

lemma segment_deny_rule_None:
  "segment_deny_rule ci e ctx ts = None \<longleftrightarrow>
     (\<forall>t \<in> set ts. \<forall>r. matching_ask_rule ci e (ctx\<lparr>ctx_command := t\<rparr>) = Some r \<longrightarrow> r_action r \<noteq> Deny)"
  by (induction ci e ctx ts rule: segment_deny_rule.induct) (auto split: option.split)



section \<open>What runs without a prompt\<close>

lemma mode_requirement_Skip:
  assumes "fst (mode_requirement ctx ask_rule is_trusted) = Skip b a"
  shows "ask_rule = None \<and>
    (ctx_ask_for_approval ctx = Never \<or> ctx_ask_for_approval ctx = OnFailure \<or>
     (ctx_ask_for_approval ctx = UnlessTrusted \<and> is_trusted))"
  using assms
  by (cases "ctx_ask_for_approval ctx"; cases ask_rule)
    (auto simp: mode_requirement_def split: bool.splits if_splits)

lemma mode_decision_requirement [simp]:
  "requirement (mode_decision ctx ask_rule trusted) = fst (mode_requirement ctx ask_rule (trusted \<noteq> None))"
  by (simp add: mode_decision_def case_prod_beta)

text \<open>
  C2. Nothing chained is approved by a rule: a command that runs without a prompt in a mode that prompts
  is a single segment, is covered by a trusted prefix (in the mode that honours them) or by a selected
  typed allow rule, and no denied prefix matches it.
\<close>

theorem skip_is_justified:
  assumes "requirement (check ci e ctx) = Skip b a"
    and "ctx_ask_for_approval ctx \<noteq> Never" and "ctx_ask_for_approval ctx \<noteq> OnFailure"
  shows "\<not> command_is_chained (ctx_command ctx) \<and> denied_rule e (ctx_command ctx) = None \<and>
    ((ctx_ask_for_approval ctx = UnlessTrusted \<and>
        (\<exists>rule \<in> set (fst (resolve_prefixes e)). allow_rule_matches (arity_dict e) rule (ctx_command ctx))) \<or>
     (\<exists>r. matching_ask_rule ci e ctx = Some r \<and> r_action r = Allow))"
proof (cases rule: check_cases [of e ctx ci])
  case mode
  have "ctx_ask_for_approval ctx = UnlessTrusted" and "trusted_rule e (ctx_command ctx) \<noteq> None"
    using mode_requirement_Skip [of ctx _ _ b a] assms mode by (auto simp: mode(3))
  with mode(1) show ?thesis
    by (auto simp: trusted_rule_def find_Some_iff2 find_Some_iff split: if_splits)
qed (use assms in \<open>auto simp: forbid_def\<close>)

lemma matching_ask_rule_no_rulesets: "rulesets e = [] \<Longrightarrow> matching_ask_rule ci e ctx = None"
  by (simp add: matching_ask_rule_def layered_rules_def max_by_key_def)

lemma check_no_rulesets:
  assumes "rulesets e = []" and "denied_prefixes e = []"
  shows "check ci e ctx = mode_decision ctx None (trusted_rule e (ctx_command ctx))"
proof -
  have "segment_deny_rule ci e ctx ts = None" for ts
    by (simp add: segment_deny_rule_None matching_ask_rule_no_rulesets [OF assms(1)])
  then show ?thesis
    using assms by (simp add: check_def denied_rule_def resolve_prefixes_def Let_def matching_ask_rule_no_rulesets)
qed

theorem skip_is_justified_witness:
  "\<not> command_is_chained ''ls -la'' \<and> denied_rule (engine_new [''ls''] []) ''ls -la'' = None \<and>
    (UnlessTrusted = UnlessTrusted \<and>
        (\<exists>rule \<in> set (fst (resolve_prefixes (engine_new [''ls''] []))).
           allow_rule_matches (arity_dict (engine_new [''ls''] [])) rule ''ls -la'') \<or>
     (\<exists>r. matching_ask_rule False (engine_new [''ls''] [])
            \<lparr>ctx_command = ''ls -la'', ctx_cwd = ''/ws'', ctx_tool = None, ctx_path = None,
             ctx_ask_for_approval = UnlessTrusted, ctx_sandbox_mode = None\<rparr> = Some r \<and> r_action r = Allow))"
proof -
  let ?e = "engine_new [''ls''] []"
  let ?c = "\<lparr>ctx_command = ''ls -la'', ctx_cwd = ''/ws'', ctx_tool = None, ctx_path = None,
             ctx_ask_for_approval = UnlessTrusted, ctx_sandbox_mode = None\<rparr>"
  have "words ''ls'' \<noteq> [] \<and> prefix (words ''ls'') (words ''ls -la'')" by code_simp
  then have "allow_rule_matches arity_dict_new ''ls'' ''ls -la''" by (simp add: allow_rule_matches_iff)
  moreover have "\<not> command_is_chained ''ls -la''" by code_simp
  ultimately have "trusted_rule ?e ''ls -la'' = Some ''ls''"
    by (simp add: trusted_rule_def engine_new_def resolve_prefixes_def)
  moreover have "check False ?e ?c = mode_decision ?c None (trusted_rule ?e ''ls -la'')"
    by (subst check_no_rulesets) (simp_all add: engine_new_def)
  ultimately have "requirement (check False ?e ?c) = Skip False None"
    by (simp add: mode_requirement_def)
  from skip_is_justified [OF this] show ?thesis by simp
qed

text \<open>
  The flags of a decision follow its requirement, a session in which no prompt can be shown never
  gets a decision that needs one, and no decision ever proposes a network amendment.
\<close>

theorem decision_consistent:
  "(allow (check ci e ctx), requires_approval (check ci e ctx)) = decision_flags (requirement (check ci e ctx)) \<and>
   (ctx_ask_for_approval ctx = Never \<or> (\<exists>s m. ctx_ask_for_approval ctx = Reject s True m) \<longrightarrow>
      \<not> requires_approval (check ci e ctx)) \<and>
   (\<forall>why am net. requirement (check ci e ctx) = NeedsApproval why am net \<longrightarrow> net = [])"
proof (cases rule: check_cases [of e ctx ci])
  case mode
  show ?thesis
    unfolding mode(3)
    by (cases "ctx_ask_for_approval ctx"; cases "matching_ask_rule ci e ctx")
      (auto simp: mode_decision_def mode_requirement_def decision_flags_def split: bool.splits)
qed (auto simp: forbid_def decision_flags_def)

theorem decision_consistent_witness:
  "ctx_ask_for_approval
      \<lparr>ctx_command = ''make'', ctx_cwd = ''/ws'', ctx_tool = None, ctx_path = None,
       ctx_ask_for_approval = Never, ctx_sandbox_mode = None\<rparr> = Never \<and>
   \<not> requires_approval (check False (engine_new [] [])
      \<lparr>ctx_command = ''make'', ctx_cwd = ''/ws'', ctx_tool = None, ctx_path = None,
       ctx_ask_for_approval = Never, ctx_sandbox_mode = None\<rparr>)"
  using decision_consistent [of False "engine_new [] []"
      "\<lparr>ctx_command = ''make'', ctx_cwd = ''/ws'', ctx_tool = None, ctx_path = None,
       ctx_ask_for_approval = Never, ctx_sandbox_mode = None\<rparr>"] by simp

text \<open>
  C36. A remembered grant is narrow: the rule saved when the user approves a command for good applies only
  to exactly that command line, run in exactly that workspace.
\<close>

theorem remembered_grant_is_exact:
  assumes "ask_rule_applies ci d ctx (into_exact_workspace_allow workspace r)" and "r_command r = Some command"
  shows "trim (ctx_command ctx) = trim command \<and>
         (\<exists>scope. normalize_workspace_scope workspace = Some scope \<and>
                  normalize_workspace_scope (ctx_cwd ctx) = Some scope)"
  using assms
  by (auto simp: ask_rule_applies_def into_exact_workspace_allow_def workspace_scope_matches_def
      split: option.splits)

theorem remembered_grant_is_exact_witness:
  "trim ''cargo test'' = trim '' cargo test'' \<and>
   (\<exists>scope. normalize_workspace_scope ''/ws'' = Some scope \<and> normalize_workspace_scope ''/ws/'' = Some scope)"
proof -
  let ?ctx = "\<lparr>ctx_command = ''cargo test'', ctx_cwd = ''/ws/'', ctx_tool = None, ctx_path = None,
       ctx_ask_for_approval = UnlessTrusted, ctx_sandbox_mode = None\<rparr>"
  have "workspace_scope_matches ''/ws'' ''/ws/''" and "trim '' cargo test'' = trim ''cargo test''"
    by code_simp+
  then have "ask_rule_applies False arity_dict_new ?ctx
      (into_exact_workspace_allow ''/ws'' (exec_shell '' cargo test''))"
    by (simp add: ask_rule_applies_def into_exact_workspace_allow_def exec_shell_def)
  from remembered_grant_is_exact [OF this, of "'' cargo test''"] show ?thesis
    by (simp add: exec_shell_def)
qed

section \<open>The engine's state\<close>

text \<open>The engines the public operations can build.\<close>

inductive engine_reachable :: "exec_policy_engine \<Rightarrow> bool" where
  reach_new: "engine_reachable (engine_new trusted denied)"
| reach_with: "engine_reachable (with_rulesets rss)"
| reach_add: "engine_reachable e \<Longrightarrow> engine_reachable (add_ruleset rs e)"
| reach_set: "engine_reachable e \<Longrightarrow> engine_reachable (set_ruleset rs e)"
| reach_remember: "engine_reachable e \<Longrightarrow> engine_reachable (remember_session_approval key e)"

text \<open>
  Whatever sequence of operations built an engine, its rulesets are in layer order and it uses the
  full arity dictionary.
\<close>

theorem engine_reachable_sorted:
  assumes "engine_reachable e"
  shows "sorted (map rs_layer (rulesets e)) \<and> arity_dict e = arity_dict_new"
  using assms
  by (induction rule: engine_reachable.induct)
    (simp_all add: engine_new_def with_rulesets_def add_ruleset_def set_ruleset_def
      remember_session_approval_def)

theorem engine_reachable_sorted_witness:
  "sorted (map rs_layer (rulesets (add_ruleset (ruleset_agent [] []) (with_rulesets [ruleset_user [] []])))) \<and>
   arity_dict (add_ruleset (ruleset_agent [] []) (with_rulesets [ruleset_user [] []])) = arity_dict_new"
  by (rule engine_reachable_sorted) (intro engine_reachable.intros)

text \<open>
  Replacing a layer replaces just that layer: afterwards it holds the new ruleset alone, every other
  layer and every approval of the session is as before.
\<close>

theorem set_ruleset_replaces:
  "filter (\<lambda>r. rs_layer r = rs_layer rs) (rulesets (set_ruleset rs e)) = [rs] \<and>
   (\<forall>l. l \<noteq> rs_layer rs \<longrightarrow>
      filter (\<lambda>r. rs_layer r = l) (rulesets (set_ruleset rs e)) = filter (\<lambda>r. rs_layer r = l) (rulesets e)) \<and>
   (\<forall>key. is_session_approved key (set_ruleset rs e) = is_session_approved key e)"
proof -
  have stable: "filter (\<lambda>r. rs_layer r = l) (sort_key rs_layer xs) = filter (\<lambda>r. rs_layer r = l) xs" for l xs
    by (rule sort_key_stable)
  show ?thesis
    by (auto simp: set_ruleset_def is_session_approved_def stable filter_filter conj_commute intro!: filter_cong)
qed

theorem set_ruleset_replaces_witness:
  "Agent \<noteq> rs_layer (ruleset_user [''ls''] []) \<and>
   filter (\<lambda>r. rs_layer r = Agent)
     (rulesets (set_ruleset (ruleset_user [''ls''] []) (with_rulesets [ruleset_agent [''cat''] []])))
   = filter (\<lambda>r. rs_layer r = Agent) (rulesets (with_rulesets [ruleset_agent [''cat''] []]))"
proof
  show "Agent \<noteq> rs_layer (ruleset_user [''ls''] [])" by (simp add: ruleset_user_def)
  then show "filter (\<lambda>r. rs_layer r = Agent)
     (rulesets (set_ruleset (ruleset_user [''ls''] []) (with_rulesets [ruleset_agent [''cat''] []])))
   = filter (\<lambda>r. rs_layer r = Agent) (rulesets (with_rulesets [ruleset_agent [''cat''] []]))"
    using set_ruleset_replaces [of "ruleset_user [''ls''] []" "with_rulesets [ruleset_agent [''cat''] []]"]
    by blast
qed


end
