(* ===== verification/Approval_Mode.thy ===== *)
theory Approval_Mode
  imports Rust_Prelude
begin

text \<open>
  The approval posture of \<open>crates/execpolicy/src/approval_mode.rs\<close>: its labels, the values a
  configuration may use for it, and the cycle of the permission key.
\<close>

datatype approval_mode = AutoReview | Bypass | Suggest | NeverApprove

definition PERMISSION_CYCLE :: "approval_mode list" where
  "PERMISSION_CYCLE = [Suggest, AutoReview, Bypass]"

definition mode_label :: "approval_mode \<Rightarrow> string" where
  "mode_label m = (case m of
      AutoReview \<Rightarrow> ''AUTO'' | Bypass \<Rightarrow> ''BYPASS'' | Suggest \<Rightarrow> ''SUGGEST'' | NeverApprove \<Rightarrow> ''NEVER'')"

definition from_config_value :: "string \<Rightarrow> approval_mode option" where
  "from_config_value v =
     (let s = to_ascii_lowercase (trim v)
      in if s \<in> set [''auto'', ''auto-review'', ''auto_review''] then Some AutoReview
         else if s \<in> set [''bypass'', ''yolo'', ''dontask'', ''dont_ask'', ''bypass-permissions'',
                            ''bypasspermissions'', ''full-access'', ''full_access'', ''full'']
              then Some Bypass
         else if s \<in> set [''suggest'', ''suggested'', ''on-request'', ''untrusted'', ''ask''] then Some Suggest
         else if s \<in> set [''never'', ''deny'', ''denied''] then Some NeverApprove
         else None)"

text \<open>The index of the first element that satisfies a predicate, \<open>Iterator::position\<close>.\<close>

fun position :: "('a \<Rightarrow> bool) \<Rightarrow> 'a list \<Rightarrow> usize option" where
  "position P [] = None"
| "position P (x # xs) = (if P x then Some 0 else map_option Suc (position P xs))"

definition cycle_permission_next :: "approval_mode \<Rightarrow> approval_mode" where
  "cycle_permission_next m =
     (case position (\<lambda>mode. mode = m) PERMISSION_CYCLE of
        None \<Rightarrow> Suggest
      | Some index \<Rightarrow> PERMISSION_CYCLE ! ((index + 1) mod length PERMISSION_CYCLE))"

definition permission_chip_label :: "approval_mode \<Rightarrow> string" where
  "permission_chip_label m = (case m of
      Suggest \<Rightarrow> ''Ask'' | AutoReview \<Rightarrow> ''Auto-Review'' | Bypass \<Rightarrow> ''Full Access'' | NeverApprove \<Rightarrow> ''Never'')"

text \<open>
  The label of a posture reads back as that posture, in any case and with blanks around it, and
  pressing the permission key three times returns to where it started unless that was the posture
  outside the cycle.
\<close>

theorem mode_label_roundtrip:
  "from_config_value (mode_label m) = Some m \<and>
   from_config_value ('' '' @ to_ascii_lowercase (mode_label m) @ '' '') = Some m \<and>
   (cycle_permission_next ^^ 3) m = (if m = NeverApprove then Bypass else m)"
proof (cases m)
  case AutoReview
  show ?thesis unfolding AutoReview by code_simp
next
  case Bypass
  show ?thesis unfolding Bypass by code_simp
next
  case Suggest
  show ?thesis unfolding Suggest by code_simp
next
  case NeverApprove
  show ?thesis unfolding NeverApprove by code_simp
qed

end
