(* ===== verification/Provider_Registry.thy ===== *)
theory Provider_Registry
  imports Rust_Prelude "HOL-Library.List_Lexorder" "HOL-Library.Char_ord"
begin

text \<open>
  The built-in model providers: \<open>config/src/provider_kind.rs\<close> (the kinds, their identifiers and the
  three ways a name is read) and \<open>config/src/provider.rs\<close> (the metadata table, the credential help
  and the guards that recognise an official endpoint). The constants of \<open>provider_defaults.rs\<close> are
  written out where the table uses them.

  The first part holds the data as the source has it; the lemmas show that the table is complete and
  unambiguous, which identifiers round-trip through which reader, and exactly which URLs an
  endpoint guard accepts.
\<close>

section \<open>Kinds, wire formats and credential help\<close>

datatype provider_kind =
  PK_Deepseek | PK_DeepseekAnthropic | PK_NvidiaNim | PK_Openai | PK_Atlascloud |
  PK_WanjieArk | PK_Volcengine | PK_Openrouter | PK_Orcarouter | PK_XiaomiMimo | PK_Novita |
  PK_Fireworks | PK_Siliconflow | PK_Arcee | PK_SiliconflowCN | PK_Moonshot | PK_Sglang |
  PK_Vllm | PK_Ollama | PK_OllamaCloud | PK_Huggingface | PK_Together | PK_Qianfan |
  PK_OpenaiCodex | PK_Anthropic | PK_Openmodel | PK_Zai | PK_Easybits | PK_Stepfun |
  PK_Minimax | PK_MinimaxAnthropic | PK_Deepinfra | PK_Sakana | PK_LongCat | PK_OpencodeGo |
  PK_OpencodeZen | PK_Meta | PK_Xai | PK_Mistral | PK_Telecomjs | PK_ModelstudioTokenPlan |
  PK_ModelstudioTokenPlanAnthropic | PK_ModelstudioCodingPlan |
  PK_ModelstudioCodingPlanAnthropic | PK_Antigravity | PK_Google | PK_Edenai | PK_Custom

datatype wire_format = ChatCompletions | Responses | AnthropicMessages

datatype credential_acquisition = ApiKey | ApiKeyOrOAuth | LocalOptional | OAuth | Configuration

definition acquisition_str :: "credential_acquisition \<Rightarrow> string" where
  "acquisition_str a =
     (case a of ApiKey \<Rightarrow> ''api_key'' | ApiKeyOrOAuth \<Rightarrow> ''api_key_or_oauth''
      | LocalOptional \<Rightarrow> ''local_optional'' | OAuth \<Rightarrow> ''oauth'' | Configuration \<Rightarrow> ''configuration'')"

datatype wire_policy = Fixed wire_format | ModelAware

definition wire_fixed :: "wire_policy \<Rightarrow> wire_format option" where
  "wire_fixed w = (case w of Fixed f \<Rightarrow> Some f | ModelAware \<Rightarrow> None)"

definition wire_resolve :: "wire_policy \<Rightarrow> string \<Rightarrow> wire_format option" where
  "wire_resolve w endpoint_key =
     (case w of
        Fixed f \<Rightarrow> Some f
      | ModelAware \<Rightarrow>
          (let key = to_ascii_lowercase (trim endpoint_key)
           in if key \<in> {''chat'', ''chat_completions'', ''chat-completions''} then Some ChatCompletions
              else if key = ''responses'' then Some Responses
              else if key \<in> {''messages'', ''anthropic_messages'', ''anthropic-messages''}
                   then Some AnthropicMessages
              else None))"

record credential_help_data =
  acquisition :: credential_acquisition
  credential_url :: "string option"
  docs_url :: "string option"
  guidance :: string

definition KIMI_CODE_MEMBERSHIP_PLAN_CONSOLE_URL :: string where
  "KIMI_CODE_MEMBERSHIP_PLAN_CONSOLE_URL = ''https://www.kimi.com/code/console''"

definition OLLAMA_CLOUD_API_KEY_URL :: string where
  "OLLAMA_CLOUD_API_KEY_URL = ''https://ollama.com/settings/keys''"

primrec credential_help :: "provider_kind \<Rightarrow> credential_help_data" where
  "credential_help PK_Deepseek =
     \<lparr> acquisition = ApiKey,
       credential_url = Some ''https://platform.deepseek.com/api_keys'',
       docs_url = Some ''https://api-docs.deepseek.com/'',
       guidance = ''Create an API key in the DeepSeek platform console.'' \<rparr>"
| "credential_help PK_DeepseekAnthropic =
     \<lparr> acquisition = ApiKey,
       credential_url = Some ''https://platform.deepseek.com/api_keys'',
       docs_url = Some ''https://api-docs.deepseek.com/'',
       guidance = ''Create an API key in the DeepSeek platform console.'' \<rparr>"
| "credential_help PK_NvidiaNim =
     \<lparr> acquisition = ApiKey,
       credential_url = Some ''https://build.nvidia.com/settings/api-keys'',
       docs_url = Some ''https://build.nvidia.com/explore/discover'',
       guidance = ''Create an NVIDIA NIM key in the NVIDIA build console.'' \<rparr>"
| "credential_help PK_Openai =
     \<lparr> acquisition = ApiKey,
       credential_url = Some ''https://platform.openai.com/api-keys'',
       docs_url = Some ''https://platform.openai.com/docs/api-reference'',
       guidance = ''Create an OpenAI API key, or configure the credential for your compatible '' @
       ''endpoint.'' \<rparr>"
| "credential_help PK_Atlascloud =
     \<lparr> acquisition = ApiKey,
       credential_url = Some ''https://atlascloud.ai/docs/en/api-keys'',
       docs_url = Some ''https://atlascloud.ai/docs/en/api-keys'',
       guidance = ''Follow Atlas Cloud's API Keys guide to create a credential.'' \<rparr>"
| "credential_help PK_WanjieArk =
     \<lparr> acquisition = ApiKey,
       credential_url = Some ''https://docs.wanjiedata.com/maas/maas-openapi-v1.html'',
       docs_url = Some ''https://docs.wanjiedata.com/maas/maas-openapi-v1.html'',
       guidance = ''Follow Wanjie MaaS's APIKEY guide to create a credential.'' \<rparr>"
| "credential_help PK_Volcengine =
     \<lparr> acquisition = ApiKey,
       credential_url = Some ''https://console.volcengine.com/ark/apiKey'',
       docs_url = Some ''https://www.volcengine.com/docs/82379/1541594'',
       guidance = ''Create a Volcengine Ark API key in the Ark console.'' \<rparr>"
| "credential_help PK_Openrouter =
     \<lparr> acquisition = ApiKey,
       credential_url = Some ''https://openrouter.ai/settings/keys'',
       docs_url = Some ''https://openrouter.ai/docs/api/reference/authentication'',
       guidance = ''Create an OpenRouter key from account settings.'' \<rparr>"
| "credential_help PK_Orcarouter =
     \<lparr> acquisition = ApiKey,
       credential_url = Some ''https://www.orcarouter.ai'',
       docs_url = Some ''https://www.orcarouter.ai'',
       guidance = ''Create an OrcaRouter API key from the OrcaRouter dashboard.'' \<rparr>"
| "credential_help PK_XiaomiMimo =
     \<lparr> acquisition = ApiKey,
       credential_url = Some ''https://platform.xiaomimimo.com/token-plan'',
       docs_url = Some ''https://mimo.mi.com/docs/en-US/tokenplan/Token%20Plan/subscription'',
       guidance = ''Create a Xiaomi MiMo Token Plan or pay-as-you-go key and keep its matching base '' @
       ''URL.'' \<rparr>"
| "credential_help PK_Novita =
     \<lparr> acquisition = ApiKey,
       credential_url = Some ''https://novita.ai/en/settings/key-management'',
       docs_url = Some ''https://novita.ai/docs/guides/quickstart'',
       guidance = ''Create a Novita key in account Key Management.'' \<rparr>"
| "credential_help PK_Fireworks =
     \<lparr> acquisition = ApiKey,
       credential_url = Some ''https://fireworks.ai/api-keys'',
       docs_url = Some ''https://docs.fireworks.ai/getting-started/quickstart'',
       guidance = ''Create a Fireworks API key before configuring the provider.'' \<rparr>"
| "credential_help PK_Siliconflow =
     \<lparr> acquisition = ApiKey,
       credential_url = Some ''https://cloud.siliconflow.com/account/ak'',
       docs_url = Some ''https://docs.siliconflow.com/en/userguide/quickstart'',
       guidance = ''Use the global SiliconFlow console for the global endpoint.'' \<rparr>"
| "credential_help PK_Arcee =
     \<lparr> acquisition = ApiKey,
       credential_url = Some ''https://docs.arcee.ai/other/create-your-first-api-key'',
       docs_url = Some ''https://docs.arcee.ai/other/create-your-first-api-key'',
       guidance = ''Follow Arcee's API key guide to create a credential.'' \<rparr>"
| "credential_help PK_SiliconflowCN =
     \<lparr> acquisition = ApiKey,
       credential_url = Some ''https://cloud.siliconflow.cn/account/ak'',
       docs_url = Some ''https://docs.siliconflow.cn/en/userguide/quickstart'',
       guidance = ''Use the China SiliconFlow console for the China endpoint.'' \<rparr>"
| "credential_help PK_Moonshot =
     \<lparr> acquisition = ApiKey,
       credential_url = Some ''https://platform.kimi.ai/console/api-keys'',
       docs_url = Some ''https://platform.kimi.ai/docs/overview'',
       guidance = ''For Moonshot's default direct API route, sign in to Kimi API Platform and '' @
       ''create and copy an API key. A configured Kimi Code route uses a separate '' @
       ''membership-plan console and never imports Kimi CLI credentials; first-class '' @
       ''Kimi OAuth is not available.'' \<rparr>"
| "credential_help PK_Sglang =
     \<lparr> acquisition = LocalOptional,
       credential_url = None,
       docs_url = Some ''https://docs.sglang.ai/'',
       guidance = ''Self-hosted SGLang is keyless by default; configure a key only if your server '' @
       ''requires one.'' \<rparr>"
| "credential_help PK_Vllm =
     \<lparr> acquisition = LocalOptional,
       credential_url = None,
       docs_url = Some ''https://docs.vllm.ai/en/stable/serving/openai_compatible_server/'',
       guidance = ''Self-hosted vLLM is keyless by default; configure a key only if your server '' @
       ''requires one.'' \<rparr>"
| "credential_help PK_Ollama =
     \<lparr> acquisition = LocalOptional,
       credential_url = None,
       docs_url = Some ''https://docs.ollama.com/api'',
       guidance = ''Local Ollama is keyless by default; configure a key only if your server '' @
       ''requires one.'' \<rparr>"
| "credential_help PK_OllamaCloud =
     \<lparr> acquisition = ApiKey,
       credential_url = Some ''https://ollama.com/settings/keys'',
       docs_url = Some ''https://docs.ollama.com/api/authentication'',
       guidance = ''Ollama Cloud requires an API key. Save it for the ollama-cloud provider, set '' @
       ''OLLAMA_CLOUD_API_KEY for Pi compatibility, or set Ollama's official '' @
       ''OLLAMA_API_KEY.'' \<rparr>"
| "credential_help PK_Huggingface =
     \<lparr> acquisition = ApiKey,
       credential_url = Some ''https://huggingface.co/settings/tokens'',
       docs_url = Some ''https://huggingface.co/docs/hub/en/security-tokens'',
       guidance = ''Create a scoped Hugging Face access token.'' \<rparr>"
| "credential_help PK_Together =
     \<lparr> acquisition = ApiKey,
       credential_url = Some ''https://api.together.ai/settings/api-keys'',
       docs_url = Some ''https://docs.together.ai/docs/api-keys-authentication'',
       guidance = ''Create a Together API key from account settings.'' \<rparr>"
| "credential_help PK_Qianfan =
     \<lparr> acquisition = ApiKey,
       credential_url = Some ''https://console.bce.baidu.com/iam/#/iam/accesslist'',
       docs_url = Some ''https://cloud.baidu.com/doc/qianfan/index.html'',
       guidance = ''Create Baidu Qianfan credentials in the Baidu Cloud console.'' \<rparr>"
| "credential_help PK_OpenaiCodex =
     \<lparr> acquisition = OAuth,
       credential_url = None,
       docs_url = Some ''https://developers.openai.com/codex/'',
       guidance = ''Run `codex login`, then explicitly grant Ghosty read-only access to that exact '' @
       ''Codex credential file; or use a process-scoped token environment variable.'' \<rparr>"
| "credential_help PK_Anthropic =
     \<lparr> acquisition = ApiKey,
       credential_url = Some ''https://console.anthropic.com/settings/keys'',
       docs_url = Some ''https://docs.anthropic.com/en/api/overview'',
       guidance = ''Create an Anthropic API key in the Anthropic Console.'' \<rparr>"
| "credential_help PK_Openmodel =
     \<lparr> acquisition = ApiKey,
       credential_url = Some ''https://console.openmodel.ai/'',
       docs_url = Some ''https://docs.openmodel.ai/en/docs/getting-started/authentication'',
       guidance = ''Create an API key in the OpenModel console, then follow the authentication '' @
       ''guide.'' \<rparr>"
| "credential_help PK_Zai =
     \<lparr> acquisition = ApiKey,
       credential_url = Some ''https://z.ai/model-api'',
       docs_url = Some ''https://docs.z.ai/api-reference/introduction'',
       guidance = ''Create or manage a Z.ai API key from the Model API page.'' \<rparr>"
| "credential_help PK_Easybits =
     \<lparr> acquisition = ApiKey,
       credential_url = Some ''https://www.easybits.cloud/dash/developer'',
       docs_url = Some ''https://www.easybits.cloud/docs'',
       guidance = ''Create an API key in the EasyBits developer panel. The '' @
       ''same key serves the LLM and the EasyBits MCP server.'' \<rparr>"
| "credential_help PK_Stepfun =
     \<lparr> acquisition = ApiKey,
       credential_url = Some ''https://platform.stepfun.ai/'',
       docs_url = Some ''https://platform.stepfun.ai/docs/en/quickstart/overview'',
       guidance = ''Open Account Management, then Interface Keys, in the StepFun console.'' \<rparr>"
| "credential_help PK_Minimax =
     \<lparr> acquisition = ApiKey,
       credential_url = Some ''https://platform.minimax.io/user-center/basic-information/interface-key'',
       docs_url = Some ''https://platform.minimax.io/docs/api-reference/api-overview'',
       guidance = ''Create a MiniMax API key or subscription-plan key in the user center.'' \<rparr>"
| "credential_help PK_MinimaxAnthropic =
     \<lparr> acquisition = ApiKey,
       credential_url = Some ''https://platform.minimax.io/user-center/basic-information/interface-key'',
       docs_url = Some ''https://platform.minimax.io/docs/api-reference/api-overview'',
       guidance = ''Create a MiniMax API key or subscription-plan key in the user center.'' \<rparr>"
| "credential_help PK_Deepinfra =
     \<lparr> acquisition = ApiKey,
       credential_url = Some ''https://deepinfra.com/dash/api_keys'',
       docs_url = Some ''https://docs.deepinfra.com/quickstart'',
       guidance = ''Create a DeepInfra API key from the dashboard.'' \<rparr>"
| "credential_help PK_Sakana =
     \<lparr> acquisition = ApiKey,
       credential_url = Some ''https://console.sakana.ai/api-keys'',
       docs_url = Some ''https://console.sakana.ai/get-started'',
       guidance = ''Create a Sakana AI key in the console and copy it when shown.'' \<rparr>"
| "credential_help PK_LongCat =
     \<lparr> acquisition = ApiKey,
       credential_url = Some ''https://longcat.chat/platform'',
       docs_url = Some ''https://longcat.chat/platform'',
       guidance = ''Sign up on the LongCat platform and create an API key.'' \<rparr>"
| "credential_help PK_OpencodeGo =
     \<lparr> acquisition = ApiKey,
       credential_url = Some ''https://opencode.ai/zen/'',
       docs_url = Some ''https://opencode.ai/docs/go/'',
       guidance = ''Create or copy an OpenCode Go subscription key from OpenCode Zen.'' \<rparr>"
| "credential_help PK_OpencodeZen =
     \<lparr> acquisition = ApiKey,
       credential_url = Some ''https://opencode.ai/zen/'',
       docs_url = Some ''https://opencode.ai/docs/zen/'',
       guidance = ''Create or copy an OpenCode Zen API key from OpenCode Zen.'' \<rparr>"
| "credential_help PK_Meta =
     \<lparr> acquisition = ApiKey,
       credential_url = Some ''https://developer.meta.com/ai/'',
       docs_url = Some ''https://developer.meta.com/ai/resources/blog/build-with-muse-spark/'',
       guidance = ''Use the Meta developer portal to obtain Model API access and a key.'' \<rparr>"
| "credential_help PK_Xai =
     \<lparr> acquisition = ApiKeyOrOAuth,
       credential_url = Some ''https://console.x.ai/'',
       docs_url = None,
       guidance = ''Use an xAI Console API key or Ghosty's native device login. Reading an existing '' @
       ''Grok CLI file requires explicit provider-scoped read-only consent.'' \<rparr>"
| "credential_help PK_Mistral =
     \<lparr> acquisition = ApiKey,
       credential_url = Some ''https://console.mistral.ai/api-keys'',
       docs_url = Some ''https://docs.mistral.ai/'',
       guidance = ''Create a Mistral API key in the Mistral Console (la Plateforme).'' \<rparr>"
| "credential_help PK_Telecomjs =
     \<lparr> acquisition = ApiKey,
       credential_url = Some ''https://aigw.telecomjs.com/'',
       docs_url = None,
       guidance = ''Create a TelecomJS TokenHub API key, then use the provider's live model catalog '' @
       ''to discover the models available to that key.'' \<rparr>"
| "credential_help PK_ModelstudioTokenPlan =
     \<lparr> acquisition = ApiKey,
       credential_url = Some ''https://bailian.console.aliyun.com/'',
       docs_url = Some ''https://www.alibabacloud.com/help/en/model-studio/'',
       guidance = ''Sign in to Alibaba Cloud Model Studio (Bailian console), create or copy an API '' @
       ''key, and select the plan endpoint matching your subscription (Token Plan or '' @
       ''Coding Plan).'' \<rparr>"
| "credential_help PK_ModelstudioTokenPlanAnthropic =
     \<lparr> acquisition = ApiKey,
       credential_url = Some ''https://bailian.console.aliyun.com/'',
       docs_url = Some ''https://www.alibabacloud.com/help/en/model-studio/'',
       guidance = ''Sign in to Alibaba Cloud Model Studio (Bailian console), create or copy an API '' @
       ''key, and select the plan endpoint matching your subscription (Token Plan or '' @
       ''Coding Plan).'' \<rparr>"
| "credential_help PK_ModelstudioCodingPlan =
     \<lparr> acquisition = ApiKey,
       credential_url = Some ''https://bailian.console.aliyun.com/'',
       docs_url = Some ''https://www.alibabacloud.com/help/en/model-studio/'',
       guidance = ''Sign in to Alibaba Cloud Model Studio (Bailian console), create or copy an API '' @
       ''key, and select the plan endpoint matching your subscription (Token Plan or '' @
       ''Coding Plan).'' \<rparr>"
| "credential_help PK_ModelstudioCodingPlanAnthropic =
     \<lparr> acquisition = ApiKey,
       credential_url = Some ''https://bailian.console.aliyun.com/'',
       docs_url = Some ''https://www.alibabacloud.com/help/en/model-studio/'',
       guidance = ''Sign in to Alibaba Cloud Model Studio (Bailian console), create or copy an API '' @
       ''key, and select the plan endpoint matching your subscription (Token Plan or '' @
       ''Coding Plan).'' \<rparr>"
| "credential_help PK_Antigravity =
     \<lparr> acquisition = OAuth,
       credential_url = None,
       docs_url = Some ''https://antigravity.google/docs/cli/reference'',
       guidance = ''Sign in with the official agy CLI (1.1.13). Ghosty can read that login's token '' @
       ''read-only from the exact pinned state.vscdb after `ghosty auth '' @
       ''external-consent`; it never writes or refreshes it. An ANTIGRAVITY_API_KEY or '' @
       ''AGY_ADC_AUTH in the process wins over the file.'' \<rparr>"
| "credential_help PK_Google =
     \<lparr> acquisition = ApiKey,
       credential_url = Some ''https://aistudio.google.com/apikey'',
       docs_url = Some ''https://ai.google.dev/gemini-api/docs/openai'',
       guidance = ''Create a Google AI Studio API key. Ghosty uses the official Gemini '' @
       ''OpenAI-compatible endpoint and never reads Google OAuth files.'' \<rparr>"
| "credential_help PK_Edenai =
     \<lparr> acquisition = ApiKey,
       credential_url = Some ''https://app.edenai.run/settings/api-keys'',
       docs_url = Some ''https://www.edenai.co/docs'',
       guidance = ''Create an Eden AI API key from the Eden AI dashboard, then select models by '' @
       ''their provider/model namespaced id.'' \<rparr>"
| "credential_help PK_Custom =
     \<lparr> acquisition = Configuration,
       credential_url = None,
       docs_url = None,
       guidance = ''Set this custom provider's base_url and api_key_env or api_key in '' @
       ''configuration; no canonical vendor credential page exists.'' \<rparr>"

section \<open>Exact official endpoints\<close>

text \<open>\<open>str::strip_suffix('/')\<close> with the string itself as the default.\<close>

definition strip_one_slash :: "string \<Rightarrow> string" where
  "strip_one_slash s = (if s \<noteq> [] \<and> last s = CHR ''/'' then butlast s else s)"

definition is_exact_https_route :: "string \<Rightarrow> string \<Rightarrow> string \<Rightarrow> bool" where
  "is_exact_https_route base_url expected_authority expected_path =
     (case split_once_str ''://'' (strip_one_slash (trim base_url)) of
        None \<Rightarrow> False
      | Some (scheme, authority_and_path) \<Rightarrow>
          (case split_once CHR ''/'' authority_and_path of
             None \<Rightarrow> False
           | Some (authority, path) \<Rightarrow>
               eq_ignore_ascii_case scheme ''https'' \<and>
               eq_ignore_ascii_case authority expected_authority \<and>
               path = expected_path))"

definition is_exact_kimi_code_route :: "provider_kind \<Rightarrow> string \<Rightarrow> bool" where
  "is_exact_kimi_code_route kind base_url \<longleftrightarrow>
     kind = PK_Moonshot \<and> is_exact_https_route base_url ''api.kimi.com'' ''coding/v1''"

definition is_exact_ollama_cloud_route :: "provider_kind \<Rightarrow> string \<Rightarrow> bool" where
  "is_exact_ollama_cloud_route kind base_url \<longleftrightarrow>
     (kind = PK_Ollama \<or> kind = PK_OllamaCloud) \<and> is_exact_https_route base_url ''ollama.com'' ''v1''"

definition migrates_legacy_ollama_cloud_route :: "provider_kind \<Rightarrow> string \<Rightarrow> bool" where
  "migrates_legacy_ollama_cloud_route kind base_url \<longleftrightarrow>
     kind = PK_Ollama \<and> is_exact_ollama_cloud_route kind base_url"

definition is_exact_moonshot_platform_route :: "provider_kind \<Rightarrow> string \<Rightarrow> bool" where
  "is_exact_moonshot_platform_route kind base_url \<longleftrightarrow>
     kind = PK_Moonshot \<and> is_exact_https_route base_url ''api.moonshot.ai'' ''v1''"

definition is_exact_xai_platform_route :: "provider_kind \<Rightarrow> string \<Rightarrow> bool" where
  "is_exact_xai_platform_route kind base_url \<longleftrightarrow>
     kind = PK_Xai \<and> is_exact_https_route base_url ''api.x.ai'' ''v1''"

definition config_is_exact_zai_chat_route :: "provider_kind \<Rightarrow> string \<Rightarrow> bool" where
  "config_is_exact_zai_chat_route kind base_url \<longleftrightarrow>
     kind = PK_Zai \<and>
     (is_exact_https_route base_url ''api.z.ai'' ''api/coding/paas/v4'' \<or>
      is_exact_https_route base_url ''api.z.ai'' ''api/paas/v4'')"

definition is_exact_minimax_chat_route :: "provider_kind \<Rightarrow> string \<Rightarrow> bool" where
  "is_exact_minimax_chat_route kind base_url \<longleftrightarrow>
     kind = PK_Minimax \<and>
     (is_exact_https_route base_url ''api.minimax.io'' ''v1'' \<or>
      is_exact_https_route base_url ''api.minimaxi.com'' ''v1'')"

definition is_exact_minimax_anthropic_route :: "provider_kind \<Rightarrow> string \<Rightarrow> bool" where
  "is_exact_minimax_anthropic_route kind base_url \<longleftrightarrow>
     kind = PK_MinimaxAnthropic \<and>
     (is_exact_https_route base_url ''api.minimax.io'' ''anthropic'' \<or>
      is_exact_https_route base_url ''api.minimaxi.com'' ''anthropic'')"

definition credential_help_for_route :: "provider_kind \<Rightarrow> string \<Rightarrow> credential_help_data" where
  "credential_help_for_route kind base_url =
     (if is_exact_ollama_cloud_route kind base_url then
       \<lparr> acquisition = ApiKey, credential_url = Some OLLAMA_CLOUD_API_KEY_URL,
         docs_url = Some ''https://docs.ollama.com/api/authentication'',
         guidance = ''Ollama Cloud requires an API key. Create one in Ollama account settings, then '' @
         ''save it for the ollama-cloud provider, set OLLAMA_CLOUD_API_KEY for Pi '' @
         ''compatibility, or set Ollama's official OLLAMA_API_KEY.'' \<rparr>
      else if is_exact_kimi_code_route kind base_url then
       \<lparr> acquisition = ApiKey, credential_url = Some KIMI_CODE_MEMBERSHIP_PLAN_CONSOLE_URL,
         docs_url = None,
         guidance = ''Create a Kimi Code membership-plan API key in the Kimi Code console. This route '' @
         ''uses api.kimi.com/coding/v1; Ghosty does not import Kimi CLI credentials.'' \<rparr>
      else credential_help kind)"

section \<open>The metadata table\<close>

record provider_entry =
  p_kind :: provider_kind
  p_id :: string
  p_display_name :: string
  p_base_url :: string
  p_model :: string
  p_env_vars :: "string list"
  p_config_key :: string
  p_aliases :: "string list"
  p_wire_policy :: wire_policy

definition DEEPSEEK :: provider_entry where
  "DEEPSEEK =
    \<lparr> p_kind = PK_Deepseek, p_id = ''deepseek'',
      p_display_name = ''DeepSeek'',
      p_base_url = ''https://api.deepseek.com/beta'',
      p_model = ''deepseek-v4-pro'',
      p_env_vars = [''DEEPSEEK_API_KEY''],
      p_config_key = ''deepseek'',
      p_aliases = [''deep-seek'', ''deepseek-cn'', ''deepseek_china'', ''deepseekcn'', ''deepseek-china'',
                   ''deepseek-anthropic'', ''deepseek_anthropic'', ''deepseek-claude'', ''deepseek_claude''],
      p_wire_policy = ModelAware \<rparr>"

definition EASYBITS :: provider_entry where
  "EASYBITS =
    \<lparr> p_kind = PK_Easybits, p_id = ''easybits'',
      p_display_name = ''EasyBits'',
      p_base_url = ''https://www.easybits.cloud/api/v2/llm/v1'',
      p_model = ''deepseek-v4-pro'',
      p_env_vars = [''EASYBITS_API_KEY''],
      p_config_key = ''easybits'',
      p_aliases = [''easy-bits'', ''easy_bits'', ''eb''],
      p_wire_policy = Fixed ChatCompletions \<rparr>"

definition DEEPSEEK_ANTHROPIC :: provider_entry where
  "DEEPSEEK_ANTHROPIC =
    \<lparr> p_kind = PK_DeepseekAnthropic, p_id = ''deepseek-anthropic'',
      p_display_name = ''DeepSeek'',
      p_base_url = ''https://api.deepseek.com/anthropic'',
      p_model = ''deepseek-v4-pro'',
      p_env_vars = [''DEEPSEEK_API_KEY''],
      p_config_key = ''deepseek_anthropic'',
      p_aliases = [],
      p_wire_policy = Fixed AnthropicMessages \<rparr>"

definition NVIDIA_NIM :: provider_entry where
  "NVIDIA_NIM =
    \<lparr> p_kind = PK_NvidiaNim, p_id = ''nvidia-nim'',
      p_display_name = ''NVIDIA NIM'',
      p_base_url = ''https://integrate.api.nvidia.com/v1'',
      p_model = ''deepseek-ai/deepseek-v4-pro'',
      p_env_vars = [''NVIDIA_API_KEY'', ''NVIDIA_NIM_API_KEY''],
      p_config_key = ''nvidia_nim'',
      p_aliases = [''nvidia'', ''nvidia_nim'', ''nim''],
      p_wire_policy = Fixed ChatCompletions \<rparr>"

definition OPENAI :: provider_entry where
  "OPENAI =
    \<lparr> p_kind = PK_Openai, p_id = ''openai'',
      p_display_name = ''OpenAI-compatible'',
      p_base_url = ''https://api.openai.com/v1'',
      p_model = ''gpt-5.6'',
      p_env_vars = [''OPENAI_API_KEY''],
      p_config_key = ''openai'',
      p_aliases = [''open-ai''],
      p_wire_policy = Fixed ChatCompletions \<rparr>"

definition ATLASCLOUD :: provider_entry where
  "ATLASCLOUD =
    \<lparr> p_kind = PK_Atlascloud, p_id = ''atlascloud'',
      p_display_name = ''AtlasCloud'',
      p_base_url = ''https://api.atlascloud.ai/v1'',
      p_model = ''deepseek-ai/deepseek-v4-flash'',
      p_env_vars = [''ATLASCLOUD_API_KEY''],
      p_config_key = ''atlascloud'',
      p_aliases = [''atlas-cloud'', ''atlas_cloud'', ''atlas''],
      p_wire_policy = Fixed ChatCompletions \<rparr>"

definition WANJIE_ARK :: provider_entry where
  "WANJIE_ARK =
    \<lparr> p_kind = PK_WanjieArk, p_id = ''wanjie-ark'',
      p_display_name = ''Wanjie Ark'',
      p_base_url = ''https://maas-openapi.wanjiedata.com/api/v1'',
      p_model = ''deepseek-reasoner'',
      p_env_vars = [''WANJIE_ARK_API_KEY'', ''WANJIE_API_KEY'', ''WANJIE_MAAS_API_KEY''],
      p_config_key = ''wanjie_ark'',
      p_aliases = [''wanjie'', ''wanjie_ark'', ''ark-wanjie'', ''ark_wanjie'', ''wanjieark'',
                   ''wanjie-maas'', ''wanjie_maas'', ''wanjiemaas''],
      p_wire_policy = Fixed ChatCompletions \<rparr>"

definition VOLCENGINE :: provider_entry where
  "VOLCENGINE =
    \<lparr> p_kind = PK_Volcengine, p_id = ''volcengine'',
      p_display_name = ''Volcengine Ark'',
      p_base_url = ''https://ark.cn-beijing.volces.com/api/coding/v3'',
      p_model = ''DeepSeek-V4-Pro'',
      p_env_vars = [''VOLCENGINE_API_KEY'', ''VOLCENGINE_ARK_API_KEY'', ''ARK_API_KEY''],
      p_config_key = ''volcengine'',
      p_aliases = [''volcengine-ark'', ''volcengine_ark'', ''ark'', ''volc-ark'', ''volcengineark''],
      p_wire_policy = Fixed ChatCompletions \<rparr>"

definition OPENROUTER :: provider_entry where
  "OPENROUTER =
    \<lparr> p_kind = PK_Openrouter, p_id = ''openrouter'',
      p_display_name = ''OpenRouter'',
      p_base_url = ''https://openrouter.ai/api/v1'',
      p_model = ''deepseek/deepseek-v4-pro'',
      p_env_vars = [''OPENROUTER_API_KEY''],
      p_config_key = ''openrouter'',
      p_aliases = [''open_router''],
      p_wire_policy = Fixed ChatCompletions \<rparr>"

definition ORCAROUTER :: provider_entry where
  "ORCAROUTER =
    \<lparr> p_kind = PK_Orcarouter, p_id = ''orcarouter'',
      p_display_name = ''OrcaRouter'',
      p_base_url = ''https://api.orcarouter.ai/v1'',
      p_model = ''deepseek/deepseek-v4-pro'',
      p_env_vars = [''ORCAROUTER_API_KEY''],
      p_config_key = ''orcarouter'',
      p_aliases = [''orca_router''],
      p_wire_policy = Fixed ChatCompletions \<rparr>"

definition XIAOMI_MIMO :: provider_entry where
  "XIAOMI_MIMO =
    \<lparr> p_kind = PK_XiaomiMimo, p_id = ''xiaomi-mimo'',
      p_display_name = ''Xiaomi MiMo'',
      p_base_url = ''https://token-plan-sgp.xiaomimimo.com/v1'',
      p_model = ''mimo-v2.5-pro'',
      p_env_vars = [''XIAOMI_MIMO_TOKEN_PLAN_API_KEY'', ''MIMO_TOKEN_PLAN_API_KEY'',
                    ''XIAOMI_MIMO_API_KEY'', ''XIAOMI_API_KEY'', ''MIMO_API_KEY''],
      p_config_key = ''xiaomi_mimo'',
      p_aliases = [''xiaomi_mimo'', ''xiaomimimo'', ''mimo'', ''xiaomi''],
      p_wire_policy = Fixed ChatCompletions \<rparr>"

definition NOVITA :: provider_entry where
  "NOVITA =
    \<lparr> p_kind = PK_Novita, p_id = ''novita'',
      p_display_name = ''Novita AI'',
      p_base_url = ''https://api.novita.ai/openai/v1'',
      p_model = ''deepseek/deepseek-v4-pro'',
      p_env_vars = [''NOVITA_API_KEY''],
      p_config_key = ''novita'',
      p_aliases = [''novita-ai'', ''novita_ai''],
      p_wire_policy = Fixed ChatCompletions \<rparr>"

definition FIREWORKS :: provider_entry where
  "FIREWORKS =
    \<lparr> p_kind = PK_Fireworks, p_id = ''fireworks'',
      p_display_name = ''Fireworks AI'',
      p_base_url = ''https://api.fireworks.ai/inference/v1'',
      p_model = ''accounts/fireworks/models/deepseek-v4-pro'',
      p_env_vars = [''FIREWORKS_API_KEY''],
      p_config_key = ''fireworks'',
      p_aliases = [''fireworks-ai''],
      p_wire_policy = Fixed ChatCompletions \<rparr>"

definition SILICONFLOW :: provider_entry where
  "SILICONFLOW =
    \<lparr> p_kind = PK_Siliconflow, p_id = ''siliconflow'',
      p_display_name = ''SiliconFlow'',
      p_base_url = ''https://api.siliconflow.com/v1'',
      p_model = ''deepseek-ai/DeepSeek-V4-Pro'',
      p_env_vars = [''SILICONFLOW_API_KEY''],
      p_config_key = ''siliconflow'',
      p_aliases = [''silicon-flow'', ''silicon_flow''],
      p_wire_policy = Fixed ChatCompletions \<rparr>"

definition SILICONFLOW_CN :: provider_entry where
  "SILICONFLOW_CN =
    \<lparr> p_kind = PK_SiliconflowCN, p_id = ''siliconflow-CN'',
      p_display_name = ''SiliconFlow (China)'',
      p_base_url = ''https://api.siliconflow.cn/v1'',
      p_model = ''deepseek-ai/DeepSeek-V4-Pro'',
      p_env_vars = [''SILICONFLOW_API_KEY''],
      p_config_key = ''siliconflow_cn'',
      p_aliases = [''silicon-flow-cn'', ''silicon-flow-CN'', ''silicon_flow_cn'', ''silicon_flow_CN'',
                   ''siliconflow-china''],
      p_wire_policy = Fixed ChatCompletions \<rparr>"

definition ARCEE :: provider_entry where
  "ARCEE =
    \<lparr> p_kind = PK_Arcee, p_id = ''arcee'',
      p_display_name = ''Arcee AI'',
      p_base_url = ''https://api.arcee.ai/api/v1'',
      p_model = ''trinity-large-thinking'',
      p_env_vars = [''ARCEE_API_KEY''],
      p_config_key = ''arcee'',
      p_aliases = [''arcee-ai'', ''arcee_ai''],
      p_wire_policy = Fixed ChatCompletions \<rparr>"

definition MOONSHOT :: provider_entry where
  "MOONSHOT =
    \<lparr> p_kind = PK_Moonshot, p_id = ''moonshot'',
      p_display_name = ''Moonshot/Kimi'',
      p_base_url = ''https://api.moonshot.ai/v1'',
      p_model = ''kimi-k2.7-code'',
      p_env_vars = [''MOONSHOT_API_KEY'', ''KIMI_API_KEY''],
      p_config_key = ''moonshot'',
      p_aliases = [''moonshot-ai'', ''moonshotai'', ''moonshot_ai'', ''kimi'', ''kimi-k2''],
      p_wire_policy = Fixed ChatCompletions \<rparr>"

definition SGLANG :: provider_entry where
  "SGLANG =
    \<lparr> p_kind = PK_Sglang, p_id = ''sglang'',
      p_display_name = ''SGLang'',
      p_base_url = ''http://localhost:30000/v1'',
      p_model = ''deepseek-ai/DeepSeek-V4-Pro'',
      p_env_vars = [''SGLANG_API_KEY''],
      p_config_key = ''sglang'',
      p_aliases = [''sg-lang''],
      p_wire_policy = Fixed ChatCompletions \<rparr>"

definition VLLM :: provider_entry where
  "VLLM =
    \<lparr> p_kind = PK_Vllm, p_id = ''vllm'',
      p_display_name = ''vLLM'',
      p_base_url = ''http://localhost:8000/v1'',
      p_model = ''deepseek-ai/DeepSeek-V4-Pro'',
      p_env_vars = [''VLLM_API_KEY''],
      p_config_key = ''vllm'',
      p_aliases = [''v-llm''],
      p_wire_policy = Fixed ChatCompletions \<rparr>"

definition OLLAMA :: provider_entry where
  "OLLAMA =
    \<lparr> p_kind = PK_Ollama, p_id = ''ollama'',
      p_display_name = ''Ollama'',
      p_base_url = ''http://localhost:11434/v1'',
      p_model = ''deepseek-v4-flash'',
      p_env_vars = [''OLLAMA_API_KEY''],
      p_config_key = ''ollama'',
      p_aliases = [''ollama-local''],
      p_wire_policy = Fixed ChatCompletions \<rparr>"

definition OLLAMA_CLOUD :: provider_entry where
  "OLLAMA_CLOUD =
    \<lparr> p_kind = PK_OllamaCloud, p_id = ''ollama-cloud'',
      p_display_name = ''Ollama Cloud'',
      p_base_url = ''https://ollama.com/v1'',
      p_model = ''gpt-oss:120b'',
      p_env_vars = [''OLLAMA_CLOUD_API_KEY'', ''OLLAMA_API_KEY''],
      p_config_key = ''ollama_cloud'',
      p_aliases = [''ollama_cloud''],
      p_wire_policy = Fixed ChatCompletions \<rparr>"

definition HUGGINGFACE :: provider_entry where
  "HUGGINGFACE =
    \<lparr> p_kind = PK_Huggingface, p_id = ''huggingface'',
      p_display_name = ''Hugging Face'',
      p_base_url = ''https://router.huggingface.co/v1'',
      p_model = ''deepseek-ai/DeepSeek-V4-Pro'',
      p_env_vars = [''HUGGINGFACE_API_KEY'', ''HF_TOKEN''],
      p_config_key = ''huggingface'',
      p_aliases = [''hugging-face'', ''hugging_face'', ''hf''],
      p_wire_policy = Fixed ChatCompletions \<rparr>"

definition TOGETHER :: provider_entry where
  "TOGETHER =
    \<lparr> p_kind = PK_Together, p_id = ''together'',
      p_display_name = ''Together AI'',
      p_base_url = ''https://api.together.xyz/v1'',
      p_model = ''deepseek-ai/DeepSeek-V4-Pro'',
      p_env_vars = [''TOGETHER_API_KEY''],
      p_config_key = ''together'',
      p_aliases = [''together-ai'', ''together_ai'', ''togetherai''],
      p_wire_policy = Fixed ChatCompletions \<rparr>"

definition QIANFAN :: provider_entry where
  "QIANFAN =
    \<lparr> p_kind = PK_Qianfan, p_id = ''qianfan'',
      p_display_name = ''Baidu Qianfan'',
      p_base_url = ''https://api.baiduqianfan.ai/v1'',
      p_model = ''ernie-4.0-turbo-8k'',
      p_env_vars = [''QIANFAN_API_KEY'', ''BAIDU_QIANFAN_API_KEY''],
      p_config_key = ''qianfan'',
      p_aliases = [''baidu-qianfan'', ''baidu_qianfan'', ''baidu''],
      p_wire_policy = Fixed ChatCompletions \<rparr>"

definition MISTRAL :: provider_entry where
  "MISTRAL =
    \<lparr> p_kind = PK_Mistral, p_id = ''mistral'',
      p_display_name = ''Mistral AI'',
      p_base_url = ''https://api.mistral.ai/v1'',
      p_model = ''mistral-code-latest'',
      p_env_vars = [''MISTRAL_API_KEY''],
      p_config_key = ''mistral'',
      p_aliases = [''mistral-ai'', ''mistral_ai'', ''mistralai'', ''la-plateforme'', ''la_plateforme''],
      p_wire_policy = Fixed ChatCompletions \<rparr>"

definition ANTIGRAVITY :: provider_entry where
  "ANTIGRAVITY =
    \<lparr> p_kind = PK_Antigravity, p_id = ''antigravity'',
      p_display_name = ''Google Antigravity'',
      p_base_url = ''https://cloudcode-pa.googleapis.com/v1internal'',
      p_model = ''gemini-3-pro-preview'',
      p_env_vars = [''ANTIGRAVITY_API_KEY''],
      p_config_key = ''antigravity'',
      p_aliases = [''agy''],
      p_wire_policy = Fixed ChatCompletions \<rparr>"

definition GOOGLE :: provider_entry where
  "GOOGLE =
    \<lparr> p_kind = PK_Google, p_id = ''google'',
      p_display_name = ''Google Gemini'',
      p_base_url = ''https://generativelanguage.googleapis.com/v1beta/openai/'',
      p_model = ''gemini-3.1-pro-preview'',
      p_env_vars = [''GOOGLE_API_KEY'', ''GEMINI_API_KEY''],
      p_config_key = ''google'',
      p_aliases = [''google-gemini'', ''google_gemini'', ''gemini'', ''google-ai'', ''google_ai'',
                   ''ai-studio'', ''aistudio''],
      p_wire_policy = Fixed ChatCompletions \<rparr>"

definition OPENAI_CODEX :: provider_entry where
  "OPENAI_CODEX =
    \<lparr> p_kind = PK_OpenaiCodex, p_id = ''openai-codex'',
      p_display_name = ''OpenAI Codex (ChatGPT)'',
      p_base_url = ''https://chatgpt.com/backend-api'',
      p_model = ''gpt-5.6'',
      p_env_vars = [''OPENAI_CODEX_ACCESS_TOKEN'', ''CODEX_ACCESS_TOKEN''],
      p_config_key = ''openai_codex'',
      p_aliases = [''openai_codex'', ''openaicodex'', ''codex'', ''chatgpt'', ''chatgpt-codex'',
                   ''chatgpt_codex'', ''chatgptcodex''],
      p_wire_policy = Fixed Responses \<rparr>"

definition ANTHROPIC :: provider_entry where
  "ANTHROPIC =
    \<lparr> p_kind = PK_Anthropic, p_id = ''anthropic'',
      p_display_name = ''Anthropic'',
      p_base_url = ''https://api.anthropic.com'',
      p_model = ''claude-sonnet-4-6'',
      p_env_vars = [''ANTHROPIC_API_KEY''],
      p_config_key = ''anthropic'',
      p_aliases = [],
      p_wire_policy = Fixed AnthropicMessages \<rparr>"

definition OPENMODEL :: provider_entry where
  "OPENMODEL =
    \<lparr> p_kind = PK_Openmodel, p_id = ''openmodel'',
      p_display_name = ''OpenModel'',
      p_base_url = ''https://api.openmodel.ai'',
      p_model = ''deepseek-v4-flash'',
      p_env_vars = [''OPENMODEL_API_KEY''],
      p_config_key = ''openmodel'',
      p_aliases = [''open-model'', ''open_model''],
      p_wire_policy = Fixed AnthropicMessages \<rparr>"

definition ZAI :: provider_entry where
  "ZAI =
    \<lparr> p_kind = PK_Zai, p_id = ''zai'',
      p_display_name = ''Zhipu AI / Z.ai'',
      p_base_url = ''https://api.z.ai/api/coding/paas/v4'',
      p_model = ''GLM-5.3'',
      p_env_vars = [''ZAI_API_KEY'', ''Z_AI_API_KEY'', ''ZHIPU_API_KEY'', ''GLM_API_KEY''],
      p_config_key = ''zai'',
      p_aliases = [''z-ai'', ''z_ai'', ''z.ai'', ''zhipu'', ''zhipuai'', ''bigmodel'', ''big-model''],
      p_wire_policy = Fixed ChatCompletions \<rparr>"

definition STEPFUN :: provider_entry where
  "STEPFUN =
    \<lparr> p_kind = PK_Stepfun, p_id = ''stepfun'',
      p_display_name = ''StepFun / StepFlash'',
      p_base_url = ''https://api.stepfun.ai/v1'',
      p_model = ''step-3.7-flash'',
      p_env_vars = [''STEPFUN_API_KEY'', ''STEP_API_KEY''],
      p_config_key = ''stepfun'',
      p_aliases = [''step-fun'', ''step_fun'', ''stepflash'', ''step-flash'', ''step_flash''],
      p_wire_policy = Fixed ChatCompletions \<rparr>"

definition MINIMAX :: provider_entry where
  "MINIMAX =
    \<lparr> p_kind = PK_Minimax, p_id = ''minimax'',
      p_display_name = ''MiniMax'',
      p_base_url = ''https://api.minimax.io/v1'',
      p_model = ''MiniMax-M3'',
      p_env_vars = [''MINIMAX_API_KEY''],
      p_config_key = ''minimax'',
      p_aliases = [''mini-max'', ''mini_max'', ''minimax-anthropic'', ''minimax_anthropic'',
                   ''mini-max-anthropic'', ''mini_max_anthropic''],
      p_wire_policy = Fixed ChatCompletions \<rparr>"

definition MINIMAX_ANTHROPIC :: provider_entry where
  "MINIMAX_ANTHROPIC =
    \<lparr> p_kind = PK_MinimaxAnthropic, p_id = ''minimax-anthropic'',
      p_display_name = ''MiniMax'',
      p_base_url = ''https://api.minimax.io/anthropic'',
      p_model = ''MiniMax-M3'',
      p_env_vars = [''MINIMAX_API_KEY''],
      p_config_key = ''minimax_anthropic'',
      p_aliases = [],
      p_wire_policy = Fixed AnthropicMessages \<rparr>"

definition DEEPINFRA :: provider_entry where
  "DEEPINFRA =
    \<lparr> p_kind = PK_Deepinfra, p_id = ''deepinfra'',
      p_display_name = ''DeepInfra'',
      p_base_url = ''https://api.deepinfra.com/v1/openai'',
      p_model = ''deepseek-ai/DeepSeek-V4-Pro'',
      p_env_vars = [''DEEPINFRA_API_KEY'', ''DEEPINFRA_TOKEN''],
      p_config_key = ''deepinfra'',
      p_aliases = [''deep-infra'', ''deep_infra''],
      p_wire_policy = Fixed ChatCompletions \<rparr>"

definition SAKANA :: provider_entry where
  "SAKANA =
    \<lparr> p_kind = PK_Sakana, p_id = ''sakana'',
      p_display_name = ''Sakana AI (Fugu)'',
      p_base_url = ''https://api.sakana.ai/v1'',
      p_model = ''fugu'',
      p_env_vars = [''FUGU_API_KEY'', ''SAKANA_API_KEY''],
      p_config_key = ''sakana'',
      p_aliases = [''sakana-ai'', ''sakana_ai'', ''fugu''],
      p_wire_policy = Fixed ChatCompletions \<rparr>"

definition LONGCAT :: provider_entry where
  "LONGCAT =
    \<lparr> p_kind = PK_LongCat, p_id = ''longcat'',
      p_display_name = ''Meituan LongCat'',
      p_base_url = ''https://api.longcat.chat/openai/v1'',
      p_model = ''LongCat-2.0'',
      p_env_vars = [''LONGCAT_API_KEY''],
      p_config_key = ''longcat'',
      p_aliases = [''long-cat'', ''meituan-longcat'', ''meituan''],
      p_wire_policy = Fixed ChatCompletions \<rparr>"

definition OPENCODE_GO :: provider_entry where
  "OPENCODE_GO =
    \<lparr> p_kind = PK_OpencodeGo, p_id = ''opencode-go'',
      p_display_name = ''OpenCode Go'',
      p_base_url = ''https://opencode.ai/zen/go/v1'',
      p_model = ''deepseek-v4-pro'',
      p_env_vars = [''OPENCODE_GO_API_KEY''],
      p_config_key = ''opencode_go'',
      p_aliases = [''opencode_go'', ''opencodego''],
      p_wire_policy = Fixed ChatCompletions \<rparr>"

definition OPENCODE_ZEN :: provider_entry where
  "OPENCODE_ZEN =
    \<lparr> p_kind = PK_OpencodeZen, p_id = ''opencode-zen'',
      p_display_name = ''OpenCode Zen'',
      p_base_url = ''https://opencode.ai/zen/v1'',
      p_model = ''gpt-5.6'',
      p_env_vars = [''OPENCODE_ZEN_API_KEY'', ''OPENCODE_API_KEY''],
      p_config_key = ''opencode_zen'',
      p_aliases = [''opencode_zen'', ''opencodezen'', ''zen'', ''opencode''],
      p_wire_policy = ModelAware \<rparr>"

definition META :: provider_entry where
  "META =
    \<lparr> p_kind = PK_Meta, p_id = ''meta'',
      p_display_name = ''Meta Model API'',
      p_base_url = ''https://api.meta.ai/v1'',
      p_model = ''muse-spark-1.2'',
      p_env_vars = [''META_MODEL_API_KEY'', ''MODEL_API_KEY''],
      p_config_key = ''meta'',
      p_aliases = [''meta-ai'', ''meta_ai'', ''meta-model-api'', ''meta_model_api'', ''muse'',
                   ''muse-spark''],
      p_wire_policy = Fixed ChatCompletions \<rparr>"

definition XAI :: provider_entry where
  "XAI =
    \<lparr> p_kind = PK_Xai, p_id = ''xai'',
      p_display_name = ''xAI'',
      p_base_url = ''https://api.x.ai/v1'',
      p_model = ''grok-4.6'',
      p_env_vars = [''XAI_API_KEY''],
      p_config_key = ''xai'',
      p_aliases = [''x-ai'', ''x_ai'', ''grok''],
      p_wire_policy = Fixed ChatCompletions \<rparr>"

definition TELECOMJS :: provider_entry where
  "TELECOMJS =
    \<lparr> p_kind = PK_Telecomjs, p_id = ''telecomjs'',
      p_display_name = ''TelecomJS TokenHub'',
      p_base_url = ''https://aigw.telecomjs.com/v1'',
      p_model = ''deepseek-v4-pro'',
      p_env_vars = [''TELECOMJS_API_KEY''],
      p_config_key = ''telecomjs'',
      p_aliases = [''telecom-js'', ''telecom_js'', ''telecomjs-cn'', ''tokenhub''],
      p_wire_policy = Fixed ChatCompletions \<rparr>"

definition EDENAI :: provider_entry where
  "EDENAI =
    \<lparr> p_kind = PK_Edenai, p_id = ''edenai'',
      p_display_name = ''Eden AI'',
      p_base_url = ''https://api.edenai.run/v3'',
      p_model = ''deepseek/deepseek-v4-pro'',
      p_env_vars = [''EDENAI_API_KEY''],
      p_config_key = ''edenai'',
      p_aliases = [''eden-ai'', ''eden_ai''],
      p_wire_policy = Fixed ChatCompletions \<rparr>"

definition MODELSTUDIO_TOKEN_PLAN :: provider_entry where
  "MODELSTUDIO_TOKEN_PLAN =
    \<lparr> p_kind = PK_ModelstudioTokenPlan, p_id = ''modelstudio-token-plan'',
      p_display_name = ''Alibaba Cloud Model Studio'',
      p_base_url = ''https://token-plan.ap-southeast-1.maas.aliyuncs.com/compatible-mode/v1'',
      p_model = ''qwen3.8-max'',
      p_env_vars = [''MODELSTUDIO_API_KEY'', ''DASHSCOPE_API_KEY''],
      p_config_key = ''modelstudio_token_plan'',
      p_aliases = [''modelstudio-token-plan'', ''modelstudio_token_plan'', ''modelstudio'',
                   ''alibaba-token-plan'', ''dashscope-token-plan'', ''alibaba'', ''dashscope'',
                   ''modelstudio-coding-plan'', ''modelstudio_coding_plan'', ''alibaba-coding-plan'',
                   ''dashscope-coding-plan'', ''modelstudio-token-plan-anthropic'',
                   ''modelstudio_token_plan_anthropic'', ''alibaba-token-plan-anthropic'',
                   ''modelstudio-coding-plan-anthropic'', ''modelstudio_coding_plan_anthropic'',
                   ''alibaba-coding-plan-anthropic''],
      p_wire_policy = Fixed ChatCompletions \<rparr>"

definition MODELSTUDIO_TOKEN_PLAN_ANTHROPIC :: provider_entry where
  "MODELSTUDIO_TOKEN_PLAN_ANTHROPIC =
    \<lparr> p_kind = PK_ModelstudioTokenPlanAnthropic, p_id = ''modelstudio-token-plan-anthropic'',
      p_display_name = ''Alibaba Cloud Model Studio'',
      p_base_url = ''https://token-plan.ap-southeast-1.maas.aliyuncs.com/apps/anthropic'',
      p_model = ''qwen3.8-max'',
      p_env_vars = [''MODELSTUDIO_API_KEY'', ''DASHSCOPE_API_KEY''],
      p_config_key = ''modelstudio_token_plan_anthropic'',
      p_aliases = [],
      p_wire_policy = Fixed AnthropicMessages \<rparr>"

definition MODELSTUDIO_CODING_PLAN :: provider_entry where
  "MODELSTUDIO_CODING_PLAN =
    \<lparr> p_kind = PK_ModelstudioCodingPlan, p_id = ''modelstudio-coding-plan'',
      p_display_name = ''Alibaba Cloud Model Studio'',
      p_base_url = ''https://coding-intl.dashscope.aliyuncs.com/v1'',
      p_model = ''qwen3.8-max'',
      p_env_vars = [''MODELSTUDIO_API_KEY'', ''DASHSCOPE_API_KEY''],
      p_config_key = ''modelstudio_coding_plan'',
      p_aliases = [],
      p_wire_policy = Fixed ChatCompletions \<rparr>"

definition MODELSTUDIO_CODING_PLAN_ANTHROPIC :: provider_entry where
  "MODELSTUDIO_CODING_PLAN_ANTHROPIC =
    \<lparr> p_kind = PK_ModelstudioCodingPlanAnthropic, p_id = ''modelstudio-coding-plan-anthropic'',
      p_display_name = ''Alibaba Cloud Model Studio'',
      p_base_url = ''https://coding-intl.dashscope.aliyuncs.com/apps/anthropic'',
      p_model = ''qwen3.8-max'',
      p_env_vars = [''MODELSTUDIO_API_KEY'', ''DASHSCOPE_API_KEY''],
      p_config_key = ''modelstudio_coding_plan_anthropic'',
      p_aliases = [],
      p_wire_policy = Fixed AnthropicMessages \<rparr>"

definition CUSTOM :: provider_entry where
  "CUSTOM =
    \<lparr> p_kind = PK_Custom, p_id = ''custom'',
      p_display_name = ''Custom (OpenAI-compatible)'',
      p_base_url = ''http://localhost/v1'',
      p_model = ''custom-model'',
      p_env_vars = [],
      p_config_key = ''custom'',
      p_aliases = [],
      p_wire_policy = Fixed ChatCompletions \<rparr>"

definition PROVIDER_REGISTRY :: "provider_entry list" where
  "PROVIDER_REGISTRY =
     [DEEPSEEK, DEEPSEEK_ANTHROPIC, NVIDIA_NIM, OPENAI, ATLASCLOUD, WANJIE_ARK, VOLCENGINE,
      OPENROUTER, ORCAROUTER, XIAOMI_MIMO, NOVITA, FIREWORKS, SILICONFLOW, ARCEE,
      SILICONFLOW_CN, MOONSHOT, SGLANG, VLLM, OLLAMA, OLLAMA_CLOUD, HUGGINGFACE, TOGETHER,
      QIANFAN, OPENAI_CODEX, ANTHROPIC, OPENMODEL, ZAI, EASYBITS, STEPFUN, MINIMAX,
      MINIMAX_ANTHROPIC, DEEPINFRA, SAKANA, LONGCAT, OPENCODE_GO, OPENCODE_ZEN, META, XAI,
      MISTRAL, TELECOMJS, EDENAI, MODELSTUDIO_TOKEN_PLAN, MODELSTUDIO_TOKEN_PLAN_ANTHROPIC,
      MODELSTUDIO_CODING_PLAN, MODELSTUDIO_CODING_PLAN_ANTHROPIC, GOOGLE, ANTIGRAVITY, CUSTOM]"

definition ALL_KINDS :: "provider_kind list" where
  "ALL_KINDS =
     [PK_Deepseek, PK_NvidiaNim, PK_Openai, PK_Atlascloud, PK_WanjieArk, PK_Volcengine,
      PK_Openrouter, PK_Orcarouter, PK_XiaomiMimo, PK_Novita, PK_Fireworks, PK_Siliconflow,
      PK_Arcee, PK_SiliconflowCN, PK_Moonshot, PK_Sglang, PK_Vllm, PK_Ollama, PK_OllamaCloud,
      PK_Huggingface, PK_Together, PK_Qianfan, PK_OpenaiCodex, PK_Anthropic, PK_Openmodel,
      PK_Zai, PK_Easybits, PK_Stepfun, PK_Minimax, PK_Deepinfra, PK_Sakana, PK_LongCat,
      PK_OpencodeGo, PK_OpencodeZen, PK_Meta, PK_Xai, PK_Mistral, PK_Telecomjs,
      PK_ModelstudioTokenPlan, PK_Google, PK_Antigravity, PK_Edenai, PK_Custom]"

definition all_providers :: "provider_entry list" where
  "all_providers = PROVIDER_REGISTRY"

text \<open>\<open>sort_by\<close> is stable, and \<open>str\<close> compares by bytes, which for UTF-8 is the order of the code points.\<close>

definition providers_sorted_for_display :: "provider_entry list" where
  "providers_sorted_for_display = sort_key (\<lambda>p. to_ascii_lowercase (p_display_name p)) all_providers"

definition lookup_provider :: "string \<Rightarrow> provider_entry option" where
  "lookup_provider ident = find (\<lambda>p. p_id p = trim ident) all_providers"

text \<open>\<open>None\<close> is the panic of \<open>expect\<close>; \<open>provider_for_kind_total\<close> below shows it cannot happen.\<close>

definition provider_for_kind :: "provider_kind \<Rightarrow> provider_entry option" where
  "provider_for_kind kind = find (\<lambda>p. p_kind p = kind) PROVIDER_REGISTRY"

definition as_str :: "provider_kind \<Rightarrow> string" where
  "as_str kind = p_id (the (provider_for_kind kind))"

definition names_hint :: string where
  "names_hint = join '', '' (map as_str ALL_KINDS)"

definition parse :: "string \<Rightarrow> provider_kind option" where
  "parse name =
     map_option p_kind
       (find (\<lambda>p. eq_ignore_ascii_case (trim name) (p_id p) \<or>
                  list_ex (eq_ignore_ascii_case (trim name)) (p_aliases p)) all_providers)"

definition parse_config_identity :: "string \<Rightarrow> provider_kind option" where
  "parse_config_identity name =
     (case find (\<lambda>p. eq_ignore_ascii_case (trim name) (p_id p) \<or>
                      eq_ignore_ascii_case (trim name) (p_config_key p)) all_providers of
        Some p \<Rightarrow> Some (p_kind p)
      | None \<Rightarrow> parse (trim name))"

definition resolve_provider :: "string \<Rightarrow> provider_entry option" where
  "resolve_provider id_or_alias = Option.bind (parse id_or_alias) provider_for_kind"

definition is_siliconflow :: "provider_kind \<Rightarrow> bool" where
  "is_siliconflow kind \<longleftrightarrow> kind = PK_Siliconflow \<or> kind = PK_SiliconflowCN"

definition secret_store_slot :: "provider_kind \<Rightarrow> string" where
  "secret_store_slot kind =
     (if kind = PK_SiliconflowCN then ''siliconflow''
      else if kind = PK_ModelstudioTokenPlan \<or> kind = PK_ModelstudioTokenPlanAnthropic \<or>
              kind = PK_ModelstudioCodingPlan \<or> kind = PK_ModelstudioCodingPlanAnthropic
           then ''modelstudio-token-plan''
      else as_str kind)"

section \<open>The names the configuration file accepts\<close>

text \<open>
  The derived \<open>Deserialize\<close> of the enumeration: the kebab-case spelling of the variant and the
  \<open>alias\<close> attributes, compared exactly. A value of the root \<open>provider\<close> key that is none of them
  selects \<open>Custom\<close> (\<open>deserialize_root_provider\<close> in \<open>config/src/lib.rs\<close>).
\<close>

primrec serde_names :: "provider_kind \<Rightarrow> string list" where
  "serde_names PK_Deepseek = [''deepseek'', ''deepseek-cn'', ''deepseek_china'', ''deepseekcn'', ''deepseek-china'']"
| "serde_names PK_DeepseekAnthropic = [''deepseek-anthropic'', ''deepseek_anthropic'', ''deepseek-claude'', ''deepseek_claude'']"
| "serde_names PK_NvidiaNim = [''nvidia-nim'']"
| "serde_names PK_Openai = [''openai'', ''open-ai'']"
| "serde_names PK_Atlascloud = [''atlascloud'']"
| "serde_names PK_WanjieArk = [''wanjie-ark'', ''wanjie'', ''wanjie_ark'', ''ark-wanjie'', ''ark_wanjie'',
     ''wanjie-maas'', ''wanjie_maas'']"
| "serde_names PK_Volcengine = [''volcengine'', ''volcengine-ark'', ''volcengine_ark'', ''ark'']"
| "serde_names PK_Openrouter = [''openrouter'']"
| "serde_names PK_Orcarouter = [''orcarouter'', ''orca_router'', ''orca'']"
| "serde_names PK_XiaomiMimo = [''xiaomi-mimo'', ''mimo'', ''xiaomi'', ''xiaomi_mimo'']"
| "serde_names PK_Novita = [''novita'', ''novita-ai'', ''novita_ai'']"
| "serde_names PK_Fireworks = [''fireworks'', ''fireworks-ai'', ''fireworks_ai'']"
| "serde_names PK_Siliconflow = [''siliconflow'', ''silicon-flow'', ''silicon_flow'']"
| "serde_names PK_Arcee = [''arcee'', ''arcee-ai'', ''arcee_ai'']"
| "serde_names PK_SiliconflowCN = [''siliconflow-c-n'', ''siliconflow-cn'', ''siliconflow-CN'']"
| "serde_names PK_Moonshot = [''moonshot'', ''moonshot-ai'', ''moonshotai'', ''moonshot_ai'']"
| "serde_names PK_Sglang = [''sglang'']"
| "serde_names PK_Vllm = [''vllm'']"
| "serde_names PK_Ollama = [''ollama'']"
| "serde_names PK_OllamaCloud = [''ollama-cloud'', ''ollama_cloud'']"
| "serde_names PK_Huggingface = [''huggingface'', ''hugging-face'', ''hugging_face'', ''hf'']"
| "serde_names PK_Together = [''together'', ''together-ai'', ''together_ai'', ''togetherai'']"
| "serde_names PK_Qianfan = [''qianfan'', ''baidu-qianfan'', ''baidu_qianfan'', ''baidu'']"
| "serde_names PK_OpenaiCodex = [''openai-codex'', ''openai_codex'', ''codex'', ''chatgpt'', ''chatgpt-codex'',
     ''chatgpt_codex'']"
| "serde_names PK_Anthropic = [''anthropic'', ''claude'']"
| "serde_names PK_Openmodel = [''openmodel'', ''open-model'', ''open_model'']"
| "serde_names PK_Zai = [''zai'', ''z-ai'', ''z_ai'', ''z.ai'', ''zhipu'', ''zhipuai'', ''bigmodel'',
     ''big-model'']"
| "serde_names PK_Easybits = [''easybits'', ''easy-bits'', ''easy_bits'', ''eb'']"
| "serde_names PK_Stepfun = [''stepfun'', ''step-fun'', ''step_fun'', ''stepflash'', ''step-flash'', ''step_flash'']"
| "serde_names PK_Minimax = [''minimax'', ''mini-max'', ''mini_max'']"
| "serde_names PK_MinimaxAnthropic = [''minimax-anthropic'', ''minimax_anthropic'', ''mini-max-anthropic'',
     ''mini_max_anthropic'']"
| "serde_names PK_Deepinfra = [''deepinfra'', ''deep-infra'', ''deep_infra'']"
| "serde_names PK_Sakana = [''sakana'', ''sakana-ai'', ''sakana_ai'', ''fugu'']"
| "serde_names PK_LongCat = [''long-cat'', ''meituan-longcat'', ''meituan'']"
| "serde_names PK_OpencodeGo = [''opencode-go'', ''opencode_go'', ''opencodego'']"
| "serde_names PK_OpencodeZen = [''opencode-zen'', ''opencode_zen'', ''opencodezen'', ''zen'', ''opencode'']"
| "serde_names PK_Meta = [''meta'', ''meta-ai'', ''meta_ai'', ''meta-model-api'', ''meta_model_api'', ''muse'',
     ''muse-spark'']"
| "serde_names PK_Xai = [''xai'', ''x-ai'', ''x_ai'', ''grok'']"
| "serde_names PK_Mistral = [''mistral'', ''mistral-ai'', ''mistral_ai'', ''mistralai'', ''la-plateforme'',
     ''la_plateforme'']"
| "serde_names PK_Telecomjs = [''telecomjs'', ''telecom-js'', ''telecom_js'', ''telecomjs-cn'', ''tokenhub'']"
| "serde_names PK_ModelstudioTokenPlan = [''modelstudio-token-plan'', ''modelstudio_token_plan'', ''alibaba-token-plan'',
     ''dashscope-token-plan'']"
| "serde_names PK_ModelstudioTokenPlanAnthropic = [''modelstudio-token-plan-anthropic'', ''modelstudio_token_plan_anthropic'',
     ''alibaba-token-plan-anthropic'']"
| "serde_names PK_ModelstudioCodingPlan = [''modelstudio-coding-plan'', ''modelstudio_coding_plan'', ''alibaba-coding-plan'',
     ''dashscope-coding-plan'']"
| "serde_names PK_ModelstudioCodingPlanAnthropic = [''modelstudio-coding-plan-anthropic'', ''modelstudio_coding_plan_anthropic'',
     ''alibaba-coding-plan-anthropic'']"
| "serde_names PK_Antigravity = [''antigravity'', ''agy'']"
| "serde_names PK_Google = [''google'', ''google-gemini'', ''google_gemini'', ''gemini'', ''google-ai'',
     ''google_ai'', ''ai-studio'', ''aistudio'']"
| "serde_names PK_Edenai = [''edenai'', ''eden-ai'', ''eden_ai'']"
| "serde_names PK_Custom = [''custom'']"

definition VARIANTS :: "provider_kind list" where
  "VARIANTS =
     [PK_Deepseek, PK_DeepseekAnthropic, PK_NvidiaNim, PK_Openai, PK_Atlascloud, PK_WanjieArk,
      PK_Volcengine, PK_Openrouter, PK_Orcarouter, PK_XiaomiMimo, PK_Novita, PK_Fireworks,
      PK_Siliconflow, PK_Arcee, PK_SiliconflowCN, PK_Moonshot, PK_Sglang, PK_Vllm, PK_Ollama,
      PK_OllamaCloud, PK_Huggingface, PK_Together, PK_Qianfan, PK_OpenaiCodex, PK_Anthropic,
      PK_Openmodel, PK_Zai, PK_Easybits, PK_Stepfun, PK_Minimax, PK_MinimaxAnthropic,
      PK_Deepinfra, PK_Sakana, PK_LongCat, PK_OpencodeGo, PK_OpencodeZen, PK_Meta, PK_Xai,
      PK_Mistral, PK_Telecomjs, PK_ModelstudioTokenPlan, PK_ModelstudioTokenPlanAnthropic,
      PK_ModelstudioCodingPlan, PK_ModelstudioCodingPlanAnthropic, PK_Antigravity, PK_Google,
      PK_Edenai, PK_Custom]"

definition deserialize_kind :: "string \<Rightarrow> provider_kind option" where
  "deserialize_kind name = find (\<lambda>k. name \<in> set (serde_names k)) VARIANTS"

definition deserialize_root_provider :: "string \<Rightarrow> provider_kind" where
  "deserialize_root_provider name =
     (case deserialize_kind name of Some k \<Rightarrow> k | None \<Rightarrow> PK_Custom)"

section \<open>Completeness and unambiguity of the table\<close>

lemma registry_ids:
  "map (\<lambda>p. (p_kind p, p_id p)) PROVIDER_REGISTRY =
     [(PK_Deepseek, ''deepseek''), (PK_DeepseekAnthropic, ''deepseek-anthropic''),
      (PK_NvidiaNim, ''nvidia-nim''), (PK_Openai, ''openai''), (PK_Atlascloud, ''atlascloud''),
      (PK_WanjieArk, ''wanjie-ark''), (PK_Volcengine, ''volcengine''),
      (PK_Openrouter, ''openrouter''), (PK_Orcarouter, ''orcarouter''),
      (PK_XiaomiMimo, ''xiaomi-mimo''), (PK_Novita, ''novita''), (PK_Fireworks, ''fireworks''),
      (PK_Siliconflow, ''siliconflow''), (PK_Arcee, ''arcee''),
      (PK_SiliconflowCN, ''siliconflow-CN''), (PK_Moonshot, ''moonshot''),
      (PK_Sglang, ''sglang''), (PK_Vllm, ''vllm''), (PK_Ollama, ''ollama''),
      (PK_OllamaCloud, ''ollama-cloud''), (PK_Huggingface, ''huggingface''),
      (PK_Together, ''together''), (PK_Qianfan, ''qianfan''),
      (PK_OpenaiCodex, ''openai-codex''), (PK_Anthropic, ''anthropic''),
      (PK_Openmodel, ''openmodel''), (PK_Zai, ''zai''), (PK_Easybits, ''easybits''),
      (PK_Stepfun, ''stepfun''), (PK_Minimax, ''minimax''),
      (PK_MinimaxAnthropic, ''minimax-anthropic''), (PK_Deepinfra, ''deepinfra''),
      (PK_Sakana, ''sakana''), (PK_LongCat, ''longcat''), (PK_OpencodeGo, ''opencode-go''),
      (PK_OpencodeZen, ''opencode-zen''), (PK_Meta, ''meta''), (PK_Xai, ''xai''),
      (PK_Mistral, ''mistral''), (PK_Telecomjs, ''telecomjs''), (PK_Edenai, ''edenai''),
      (PK_ModelstudioTokenPlan, ''modelstudio-token-plan''),
      (PK_ModelstudioTokenPlanAnthropic, ''modelstudio-token-plan-anthropic''),
      (PK_ModelstudioCodingPlan, ''modelstudio-coding-plan''),
      (PK_ModelstudioCodingPlanAnthropic, ''modelstudio-coding-plan-anthropic''),
      (PK_Google, ''google''), (PK_Antigravity, ''antigravity''), (PK_Custom, ''custom'')]"
  by code_simp

lemma registry_kinds: "map p_kind PROVIDER_REGISTRY = map fst (map (\<lambda>p. (p_kind p, p_id p)) PROVIDER_REGISTRY)"
  by simp

lemma registry_distinct_kinds: "distinct (map p_kind PROVIDER_REGISTRY)"
  unfolding registry_kinds registry_ids by simp

lemma registry_complete: "k \<in> set (map p_kind PROVIDER_REGISTRY)"
  unfolding registry_kinds registry_ids by (cases k) simp_all

lemma find_unique:
  assumes "x \<in> set xs" "P x" "\<And>y. y \<in> set xs \<Longrightarrow> P y \<Longrightarrow> y = x"
  shows "find P xs = Some x"
proof (cases "find P xs")
  case None
  with assms(1,2) show ?thesis by (auto simp: find_None_iff)
next
  case (Some y)
  then have "y \<in> set xs" "P y" by (auto simp: find_Some_iff)
  with assms(3) Some show ?thesis by blast
qed

lemma provider_for_kind_Some:
  obtains p where "provider_for_kind k = Some p" "p_kind p = k" "p \<in> set PROVIDER_REGISTRY" "as_str k = p_id p"
proof -
  obtain p where p: "p \<in> set PROVIDER_REGISTRY" "p_kind p = k" using registry_complete [of k] by auto
  have "provider_for_kind k = Some p"
    unfolding provider_for_kind_def using registry_distinct_kinds p
    by (intro find_unique) (auto simp: distinct_map inj_on_def)
  with p that show thesis by (simp add: as_str_def)
qed

lemma as_str_eq:
  "as_str k = the (map_of (map (\<lambda>p. (p_kind p, p_id p)) PROVIDER_REGISTRY) k)"
proof -
  obtain p where p: "p_kind p = k" "p \<in> set PROVIDER_REGISTRY" "as_str k = p_id p"
    by (rule provider_for_kind_Some)
  then have "map_of (map (\<lambda>p. (p_kind p, p_id p)) PROVIDER_REGISTRY) k = Some (p_id p)"
    using registry_distinct_kinds by (intro map_of_is_SomeI) (auto simp: comp_def)
  with p show ?thesis by simp
qed

definition folded_keys :: "provider_entry \<Rightarrow> string list" where
  "folded_keys p = remdups [to_ascii_lowercase (p_id p), to_ascii_lowercase (p_config_key p)]"

lemma set_folded_keys:
  "z \<in> set (folded_keys p) \<longleftrightarrow> z = to_ascii_lowercase (p_id p) \<or> z = to_ascii_lowercase (p_config_key p)"
  by (auto simp: folded_keys_def)

lemma registry_keys:
  "concat (map folded_keys PROVIDER_REGISTRY) =
     [''deepseek'', ''deepseek-anthropic'', ''deepseek_anthropic'', ''nvidia-nim'',
      ''nvidia_nim'', ''openai'', ''atlascloud'', ''wanjie-ark'', ''wanjie_ark'',
      ''volcengine'', ''openrouter'', ''orcarouter'', ''xiaomi-mimo'', ''xiaomi_mimo'',
      ''novita'', ''fireworks'', ''siliconflow'', ''arcee'', ''siliconflow-cn'',
      ''siliconflow_cn'', ''moonshot'', ''sglang'', ''vllm'', ''ollama'', ''ollama-cloud'',
      ''ollama_cloud'', ''huggingface'', ''together'', ''qianfan'', ''openai-codex'',
      ''openai_codex'', ''anthropic'', ''openmodel'', ''zai'', ''easybits'', ''stepfun'',
      ''minimax'', ''minimax-anthropic'', ''minimax_anthropic'', ''deepinfra'', ''sakana'',
      ''longcat'', ''opencode-go'', ''opencode_go'', ''opencode-zen'', ''opencode_zen'',
      ''meta'', ''xai'', ''mistral'', ''telecomjs'', ''edenai'', ''modelstudio-token-plan'',
      ''modelstudio_token_plan'', ''modelstudio-token-plan-anthropic'',
      ''modelstudio_token_plan_anthropic'', ''modelstudio-coding-plan'',
      ''modelstudio_coding_plan'', ''modelstudio-coding-plan-anthropic'',
      ''modelstudio_coding_plan_anthropic'', ''google'', ''antigravity'', ''custom'']"
  by code_simp

lemma registry_keys_distinct: "distinct (concat (map folded_keys PROVIDER_REGISTRY))"
  unfolding registry_keys by simp

lemma distinct_concat_owner:
  assumes "distinct (concat (map f xs))" "x \<in> set xs" "y \<in> set xs" "z \<in> set (f x)" "z \<in> set (f y)"
  shows "x = y"
  using assms by (induction xs) auto

lemma config_identity_of_key:
  assumes "p \<in> set PROVIDER_REGISTRY" "to_ascii_lowercase (trim s) \<in> set (folded_keys p)"
  shows "parse_config_identity s = Some (p_kind p)"
proof -
  have "find (\<lambda>p. eq_ignore_ascii_case (trim s) (p_id p) \<or> eq_ignore_ascii_case (trim s) (p_config_key p))
          all_providers = Some p"
    unfolding all_providers_def
  proof (rule find_unique [OF assms(1)])
    show "y = p" if "y \<in> set PROVIDER_REGISTRY"
        "eq_ignore_ascii_case (trim s) (p_id y) \<or> eq_ignore_ascii_case (trim s) (p_config_key y)" for y
      using distinct_concat_owner [OF registry_keys_distinct that(1) assms(1) _ assms(2)] that(2)
      by (auto simp: set_folded_keys eq_ignore_ascii_case_def)
  qed (use assms(2) in \<open>auto simp: set_folded_keys eq_ignore_ascii_case_def\<close>)
  then show ?thesis by (simp add: parse_config_identity_def)
qed

lemma config_identity_not_key:
  assumes "to_ascii_lowercase (trim s) \<notin> set (concat (map folded_keys PROVIDER_REGISTRY))"
  shows "parse_config_identity s = parse (trim s)"
proof -
  have "find (\<lambda>p. eq_ignore_ascii_case (trim s) (p_id p) \<or> eq_ignore_ascii_case (trim s) (p_config_key p))
          all_providers = None"
    using assms by (auto simp: find_None_iff all_providers_def eq_ignore_ascii_case_def set_folded_keys)
  then show ?thesis by (simp add: parse_config_identity_def)
qed

definition folded_names :: "provider_entry \<Rightarrow> string list" where
  "folded_names p = map to_ascii_lowercase (p_id p # p_aliases p)"

lemma folded_names_entries:
  "folded_names DEEPSEEK = [''deepseek'', ''deep-seek'', ''deepseek-cn'', ''deepseek_china'', ''deepseekcn'',
      ''deepseek-china'', ''deepseek-anthropic'', ''deepseek_anthropic'', ''deepseek-claude'',
      ''deepseek_claude'']"
  "folded_names DEEPSEEK_ANTHROPIC = [''deepseek-anthropic'']"
  "folded_names NVIDIA_NIM = [''nvidia-nim'', ''nvidia'', ''nvidia_nim'', ''nim'']"
  "folded_names OPENAI = [''openai'', ''open-ai'']"
  "folded_names ATLASCLOUD = [''atlascloud'', ''atlas-cloud'', ''atlas_cloud'', ''atlas'']"
  "folded_names WANJIE_ARK = [''wanjie-ark'', ''wanjie'', ''wanjie_ark'', ''ark-wanjie'', ''ark_wanjie'',
      ''wanjieark'', ''wanjie-maas'', ''wanjie_maas'', ''wanjiemaas'']"
  "folded_names VOLCENGINE = [''volcengine'', ''volcengine-ark'', ''volcengine_ark'', ''ark'', ''volc-ark'',
      ''volcengineark'']"
  "folded_names OPENROUTER = [''openrouter'', ''open_router'']"
  "folded_names ORCAROUTER = [''orcarouter'', ''orca_router'']"
  "folded_names XIAOMI_MIMO = [''xiaomi-mimo'', ''xiaomi_mimo'', ''xiaomimimo'', ''mimo'', ''xiaomi'']"
  "folded_names NOVITA = [''novita'', ''novita-ai'', ''novita_ai'']"
  "folded_names FIREWORKS = [''fireworks'', ''fireworks-ai'']"
  "folded_names SILICONFLOW = [''siliconflow'', ''silicon-flow'', ''silicon_flow'']"
  "folded_names ARCEE = [''arcee'', ''arcee-ai'', ''arcee_ai'']"
  "folded_names SILICONFLOW_CN = [''siliconflow-cn'', ''silicon-flow-cn'', ''silicon-flow-cn'', ''silicon_flow_cn'',
      ''silicon_flow_cn'', ''siliconflow-china'']"
  "folded_names MOONSHOT = [''moonshot'', ''moonshot-ai'', ''moonshotai'', ''moonshot_ai'', ''kimi'', ''kimi-k2'']"
  "folded_names SGLANG = [''sglang'', ''sg-lang'']"
  "folded_names VLLM = [''vllm'', ''v-llm'']"
  "folded_names OLLAMA = [''ollama'', ''ollama-local'']"
  "folded_names OLLAMA_CLOUD = [''ollama-cloud'', ''ollama_cloud'']"
  "folded_names HUGGINGFACE = [''huggingface'', ''hugging-face'', ''hugging_face'', ''hf'']"
  "folded_names TOGETHER = [''together'', ''together-ai'', ''together_ai'', ''togetherai'']"
  "folded_names QIANFAN = [''qianfan'', ''baidu-qianfan'', ''baidu_qianfan'', ''baidu'']"
  "folded_names OPENAI_CODEX = [''openai-codex'', ''openai_codex'', ''openaicodex'', ''codex'', ''chatgpt'',
      ''chatgpt-codex'', ''chatgpt_codex'', ''chatgptcodex'']"
  "folded_names ANTHROPIC = [''anthropic'']"
  "folded_names OPENMODEL = [''openmodel'', ''open-model'', ''open_model'']"
  "folded_names ZAI = [''zai'', ''z-ai'', ''z_ai'', ''z.ai'', ''zhipu'', ''zhipuai'', ''bigmodel'', ''big-model'']"
  "folded_names EASYBITS = [''easybits'', ''easy-bits'', ''easy_bits'', ''eb'']"
  "folded_names STEPFUN = [''stepfun'', ''step-fun'', ''step_fun'', ''stepflash'', ''step-flash'', ''step_flash'']"
  "folded_names MINIMAX = [''minimax'', ''mini-max'', ''mini_max'', ''minimax-anthropic'', ''minimax_anthropic'',
      ''mini-max-anthropic'', ''mini_max_anthropic'']"
  "folded_names MINIMAX_ANTHROPIC = [''minimax-anthropic'']"
  "folded_names DEEPINFRA = [''deepinfra'', ''deep-infra'', ''deep_infra'']"
  "folded_names SAKANA = [''sakana'', ''sakana-ai'', ''sakana_ai'', ''fugu'']"
  "folded_names LONGCAT = [''longcat'', ''long-cat'', ''meituan-longcat'', ''meituan'']"
  "folded_names OPENCODE_GO = [''opencode-go'', ''opencode_go'', ''opencodego'']"
  "folded_names OPENCODE_ZEN = [''opencode-zen'', ''opencode_zen'', ''opencodezen'', ''zen'', ''opencode'']"
  "folded_names META = [''meta'', ''meta-ai'', ''meta_ai'', ''meta-model-api'', ''meta_model_api'', ''muse'',
      ''muse-spark'']"
  "folded_names XAI = [''xai'', ''x-ai'', ''x_ai'', ''grok'']"
  "folded_names MISTRAL = [''mistral'', ''mistral-ai'', ''mistral_ai'', ''mistralai'', ''la-plateforme'',
      ''la_plateforme'']"
  "folded_names TELECOMJS = [''telecomjs'', ''telecom-js'', ''telecom_js'', ''telecomjs-cn'', ''tokenhub'']"
  "folded_names EDENAI = [''edenai'', ''eden-ai'', ''eden_ai'']"
  "folded_names MODELSTUDIO_TOKEN_PLAN = [''modelstudio-token-plan'', ''modelstudio-token-plan'', ''modelstudio_token_plan'',
      ''modelstudio'', ''alibaba-token-plan'', ''dashscope-token-plan'', ''alibaba'',
      ''dashscope'', ''modelstudio-coding-plan'', ''modelstudio_coding_plan'',
      ''alibaba-coding-plan'', ''dashscope-coding-plan'', ''modelstudio-token-plan-anthropic'',
      ''modelstudio_token_plan_anthropic'', ''alibaba-token-plan-anthropic'',
      ''modelstudio-coding-plan-anthropic'', ''modelstudio_coding_plan_anthropic'',
      ''alibaba-coding-plan-anthropic'']"
  "folded_names MODELSTUDIO_TOKEN_PLAN_ANTHROPIC = [''modelstudio-token-plan-anthropic'']"
  "folded_names MODELSTUDIO_CODING_PLAN = [''modelstudio-coding-plan'']"
  "folded_names MODELSTUDIO_CODING_PLAN_ANTHROPIC = [''modelstudio-coding-plan-anthropic'']"
  "folded_names GOOGLE = [''google'', ''google-gemini'', ''google_gemini'', ''gemini'', ''google-ai'',
      ''google_ai'', ''ai-studio'', ''aistudio'']"
  "folded_names ANTIGRAVITY = [''antigravity'', ''agy'']"
  "folded_names CUSTOM = [''custom'']"
  by code_simp+

lemma entry_kinds:
  "p_kind DEEPSEEK = PK_Deepseek"
  "p_kind DEEPSEEK_ANTHROPIC = PK_DeepseekAnthropic"
  "p_kind NVIDIA_NIM = PK_NvidiaNim"
  "p_kind OPENAI = PK_Openai"
  "p_kind ATLASCLOUD = PK_Atlascloud"
  "p_kind WANJIE_ARK = PK_WanjieArk"
  "p_kind VOLCENGINE = PK_Volcengine"
  "p_kind OPENROUTER = PK_Openrouter"
  "p_kind ORCAROUTER = PK_Orcarouter"
  "p_kind XIAOMI_MIMO = PK_XiaomiMimo"
  "p_kind NOVITA = PK_Novita"
  "p_kind FIREWORKS = PK_Fireworks"
  "p_kind SILICONFLOW = PK_Siliconflow"
  "p_kind ARCEE = PK_Arcee"
  "p_kind SILICONFLOW_CN = PK_SiliconflowCN"
  "p_kind MOONSHOT = PK_Moonshot"
  "p_kind SGLANG = PK_Sglang"
  "p_kind VLLM = PK_Vllm"
  "p_kind OLLAMA = PK_Ollama"
  "p_kind OLLAMA_CLOUD = PK_OllamaCloud"
  "p_kind HUGGINGFACE = PK_Huggingface"
  "p_kind TOGETHER = PK_Together"
  "p_kind QIANFAN = PK_Qianfan"
  "p_kind OPENAI_CODEX = PK_OpenaiCodex"
  "p_kind ANTHROPIC = PK_Anthropic"
  "p_kind OPENMODEL = PK_Openmodel"
  "p_kind ZAI = PK_Zai"
  "p_kind EASYBITS = PK_Easybits"
  "p_kind STEPFUN = PK_Stepfun"
  "p_kind MINIMAX = PK_Minimax"
  "p_kind MINIMAX_ANTHROPIC = PK_MinimaxAnthropic"
  "p_kind DEEPINFRA = PK_Deepinfra"
  "p_kind SAKANA = PK_Sakana"
  "p_kind LONGCAT = PK_LongCat"
  "p_kind OPENCODE_GO = PK_OpencodeGo"
  "p_kind OPENCODE_ZEN = PK_OpencodeZen"
  "p_kind META = PK_Meta"
  "p_kind XAI = PK_Xai"
  "p_kind MISTRAL = PK_Mistral"
  "p_kind TELECOMJS = PK_Telecomjs"
  "p_kind EDENAI = PK_Edenai"
  "p_kind MODELSTUDIO_TOKEN_PLAN = PK_ModelstudioTokenPlan"
  "p_kind MODELSTUDIO_TOKEN_PLAN_ANTHROPIC = PK_ModelstudioTokenPlanAnthropic"
  "p_kind MODELSTUDIO_CODING_PLAN = PK_ModelstudioCodingPlan"
  "p_kind MODELSTUDIO_CODING_PLAN_ANTHROPIC = PK_ModelstudioCodingPlanAnthropic"
  "p_kind GOOGLE = PK_Google"
  "p_kind ANTIGRAVITY = PK_Antigravity"
  "p_kind CUSTOM = PK_Custom"
  by code_simp+

lemma parse_eq:
  "parse s = map_option p_kind (find (\<lambda>p. to_ascii_lowercase (trim s) \<in> set (folded_names p)) PROVIDER_REGISTRY)"
proof -
  have "(\<lambda>p. eq_ignore_ascii_case (trim s) (p_id p) \<or> list_ex (eq_ignore_ascii_case (trim s)) (p_aliases p)) =
      (\<lambda>p. to_ascii_lowercase (trim s) \<in> set (folded_names p))"
    by (auto simp: fun_eq_iff folded_names_def eq_ignore_ascii_case_def list_ex_iff)
  then show ?thesis by (simp add: parse_def all_providers_def)
qed

lemma as_str_simps:
  "as_str PK_Deepseek = ''deepseek''"
  "as_str PK_DeepseekAnthropic = ''deepseek-anthropic''"
  "as_str PK_NvidiaNim = ''nvidia-nim''"
  "as_str PK_Openai = ''openai''"
  "as_str PK_Atlascloud = ''atlascloud''"
  "as_str PK_WanjieArk = ''wanjie-ark''"
  "as_str PK_Volcengine = ''volcengine''"
  "as_str PK_Openrouter = ''openrouter''"
  "as_str PK_Orcarouter = ''orcarouter''"
  "as_str PK_XiaomiMimo = ''xiaomi-mimo''"
  "as_str PK_Novita = ''novita''"
  "as_str PK_Fireworks = ''fireworks''"
  "as_str PK_Siliconflow = ''siliconflow''"
  "as_str PK_Arcee = ''arcee''"
  "as_str PK_SiliconflowCN = ''siliconflow-CN''"
  "as_str PK_Moonshot = ''moonshot''"
  "as_str PK_Sglang = ''sglang''"
  "as_str PK_Vllm = ''vllm''"
  "as_str PK_Ollama = ''ollama''"
  "as_str PK_OllamaCloud = ''ollama-cloud''"
  "as_str PK_Huggingface = ''huggingface''"
  "as_str PK_Together = ''together''"
  "as_str PK_Qianfan = ''qianfan''"
  "as_str PK_OpenaiCodex = ''openai-codex''"
  "as_str PK_Anthropic = ''anthropic''"
  "as_str PK_Openmodel = ''openmodel''"
  "as_str PK_Zai = ''zai''"
  "as_str PK_Easybits = ''easybits''"
  "as_str PK_Stepfun = ''stepfun''"
  "as_str PK_Minimax = ''minimax''"
  "as_str PK_MinimaxAnthropic = ''minimax-anthropic''"
  "as_str PK_Deepinfra = ''deepinfra''"
  "as_str PK_Sakana = ''sakana''"
  "as_str PK_LongCat = ''longcat''"
  "as_str PK_OpencodeGo = ''opencode-go''"
  "as_str PK_OpencodeZen = ''opencode-zen''"
  "as_str PK_Meta = ''meta''"
  "as_str PK_Xai = ''xai''"
  "as_str PK_Mistral = ''mistral''"
  "as_str PK_Telecomjs = ''telecomjs''"
  "as_str PK_ModelstudioTokenPlan = ''modelstudio-token-plan''"
  "as_str PK_ModelstudioTokenPlanAnthropic = ''modelstudio-token-plan-anthropic''"
  "as_str PK_ModelstudioCodingPlan = ''modelstudio-coding-plan''"
  "as_str PK_ModelstudioCodingPlanAnthropic = ''modelstudio-coding-plan-anthropic''"
  "as_str PK_Antigravity = ''antigravity''"
  "as_str PK_Google = ''google''"
  "as_str PK_Edenai = ''edenai''"
  "as_str PK_Custom = ''custom''"
  unfolding as_str_eq registry_ids by simp_all

lemma folded_ids:
  "to_ascii_lowercase (trim (as_str PK_Deepseek)) = ''deepseek''"
  "to_ascii_lowercase (trim (as_str PK_DeepseekAnthropic)) = ''deepseek-anthropic''"
  "to_ascii_lowercase (trim (as_str PK_NvidiaNim)) = ''nvidia-nim''"
  "to_ascii_lowercase (trim (as_str PK_Openai)) = ''openai''"
  "to_ascii_lowercase (trim (as_str PK_Atlascloud)) = ''atlascloud''"
  "to_ascii_lowercase (trim (as_str PK_WanjieArk)) = ''wanjie-ark''"
  "to_ascii_lowercase (trim (as_str PK_Volcengine)) = ''volcengine''"
  "to_ascii_lowercase (trim (as_str PK_Openrouter)) = ''openrouter''"
  "to_ascii_lowercase (trim (as_str PK_Orcarouter)) = ''orcarouter''"
  "to_ascii_lowercase (trim (as_str PK_XiaomiMimo)) = ''xiaomi-mimo''"
  "to_ascii_lowercase (trim (as_str PK_Novita)) = ''novita''"
  "to_ascii_lowercase (trim (as_str PK_Fireworks)) = ''fireworks''"
  "to_ascii_lowercase (trim (as_str PK_Siliconflow)) = ''siliconflow''"
  "to_ascii_lowercase (trim (as_str PK_Arcee)) = ''arcee''"
  "to_ascii_lowercase (trim (as_str PK_SiliconflowCN)) = ''siliconflow-cn''"
  "to_ascii_lowercase (trim (as_str PK_Moonshot)) = ''moonshot''"
  "to_ascii_lowercase (trim (as_str PK_Sglang)) = ''sglang''"
  "to_ascii_lowercase (trim (as_str PK_Vllm)) = ''vllm''"
  "to_ascii_lowercase (trim (as_str PK_Ollama)) = ''ollama''"
  "to_ascii_lowercase (trim (as_str PK_OllamaCloud)) = ''ollama-cloud''"
  "to_ascii_lowercase (trim (as_str PK_Huggingface)) = ''huggingface''"
  "to_ascii_lowercase (trim (as_str PK_Together)) = ''together''"
  "to_ascii_lowercase (trim (as_str PK_Qianfan)) = ''qianfan''"
  "to_ascii_lowercase (trim (as_str PK_OpenaiCodex)) = ''openai-codex''"
  "to_ascii_lowercase (trim (as_str PK_Anthropic)) = ''anthropic''"
  "to_ascii_lowercase (trim (as_str PK_Openmodel)) = ''openmodel''"
  "to_ascii_lowercase (trim (as_str PK_Zai)) = ''zai''"
  "to_ascii_lowercase (trim (as_str PK_Easybits)) = ''easybits''"
  "to_ascii_lowercase (trim (as_str PK_Stepfun)) = ''stepfun''"
  "to_ascii_lowercase (trim (as_str PK_Minimax)) = ''minimax''"
  "to_ascii_lowercase (trim (as_str PK_MinimaxAnthropic)) = ''minimax-anthropic''"
  "to_ascii_lowercase (trim (as_str PK_Deepinfra)) = ''deepinfra''"
  "to_ascii_lowercase (trim (as_str PK_Sakana)) = ''sakana''"
  "to_ascii_lowercase (trim (as_str PK_LongCat)) = ''longcat''"
  "to_ascii_lowercase (trim (as_str PK_OpencodeGo)) = ''opencode-go''"
  "to_ascii_lowercase (trim (as_str PK_OpencodeZen)) = ''opencode-zen''"
  "to_ascii_lowercase (trim (as_str PK_Meta)) = ''meta''"
  "to_ascii_lowercase (trim (as_str PK_Xai)) = ''xai''"
  "to_ascii_lowercase (trim (as_str PK_Mistral)) = ''mistral''"
  "to_ascii_lowercase (trim (as_str PK_Telecomjs)) = ''telecomjs''"
  "to_ascii_lowercase (trim (as_str PK_ModelstudioTokenPlan)) = ''modelstudio-token-plan''"
  "to_ascii_lowercase (trim (as_str PK_ModelstudioTokenPlanAnthropic)) = ''modelstudio-token-plan-anthropic''"
  "to_ascii_lowercase (trim (as_str PK_ModelstudioCodingPlan)) = ''modelstudio-coding-plan''"
  "to_ascii_lowercase (trim (as_str PK_ModelstudioCodingPlanAnthropic)) = ''modelstudio-coding-plan-anthropic''"
  "to_ascii_lowercase (trim (as_str PK_Antigravity)) = ''antigravity''"
  "to_ascii_lowercase (trim (as_str PK_Google)) = ''google''"
  "to_ascii_lowercase (trim (as_str PK_Edenai)) = ''edenai''"
  "to_ascii_lowercase (trim (as_str PK_Custom)) = ''custom''"
  unfolding as_str_simps by code_simp+

definition catalog_kind :: "provider_kind \<Rightarrow> provider_kind" where
  "catalog_kind k =
     (if k = PK_DeepseekAnthropic then PK_Deepseek
      else if k = PK_MinimaxAnthropic then PK_Minimax
      else if k \<in> {PK_ModelstudioTokenPlanAnthropic, PK_ModelstudioCodingPlan,
                   PK_ModelstudioCodingPlanAnthropic} then PK_ModelstudioTokenPlan
      else k)"

lemma parse_as_str: "parse (as_str k) = Some (catalog_kind k)"
  unfolding parse_eq PROVIDER_REGISTRY_def
  by (cases k) (simp_all add: folded_ids folded_names_entries catalog_kind_def entry_kinds)

lemma deserialize_as_str:
  "deserialize_root_provider (as_str k) = (if k = PK_LongCat then PK_Custom else k)"
  unfolding deserialize_root_provider_def deserialize_kind_def VARIANTS_def
  by (cases k) (simp_all add: as_str_simps)

text \<open>
  C38. Every provider kind has a table entry, so \<open>provider_for_kind\<close> never panics, and the canonical
  identifier of a kind, in any case and with blanks around it, names exactly that kind when it is
  read as a configuration identity.
\<close>

theorem config_identity_roundtrip:
  assumes "eq_ignore_ascii_case (trim s) (as_str k)"
  shows "(\<exists>p. provider_for_kind k = Some p \<and> p_kind p = k) \<and> parse_config_identity s = Some k"
proof -
  obtain p where p: "provider_for_kind k = Some p" "p_kind p = k" "p \<in> set PROVIDER_REGISTRY" "as_str k = p_id p"
    by (rule provider_for_kind_Some)
  then have "to_ascii_lowercase (trim s) \<in> set (folded_keys p)"
    using assms by (auto simp: set_folded_keys eq_ignore_ascii_case_def)
  with config_identity_of_key [OF p(3)] p show ?thesis by simp
qed

theorem config_identity_roundtrip_witness: "parse_config_identity '' DeepSeek-Anthropic '' = Some PK_DeepseekAnthropic"
proof -
  have "trim '' DeepSeek-Anthropic '' = ''DeepSeek-Anthropic''" by code_simp
  moreover have "eq_ignore_ascii_case ''DeepSeek-Anthropic'' ''deepseek-anthropic''" by code_simp
  ultimately show ?thesis
    using config_identity_roundtrip [of "'' DeepSeek-Anthropic ''" PK_DeepseekAnthropic] by (simp add: as_str_simps)
qed

text \<open>
  Read as a catalogue name, the identifier of a kind gives the vendor's primary kind: the kind
  itself for the 43 rows of the catalogue, and the primary of the same vendor for the five legacy
  dialect and plan kinds.
\<close>

theorem parse_collapses_onto_catalog:
  "parse (as_str k) = Some (catalog_kind k) \<and> catalog_kind k \<in> set ALL_KINDS \<and>
   (catalog_kind k = k \<longleftrightarrow> k \<in> set ALL_KINDS)"
  unfolding parse_as_str by (cases k) (simp_all add: catalog_kind_def ALL_KINDS_def)

text \<open>
  C39. The configuration file and the environment disagree on names both accept. The root
  \<open>provider\<close> key reads every canonical identifier as its kind except \<open>longcat\<close>, which it turns into
  the custom provider, and \<open>deepseek-claude\<close> selects the Anthropic dialect in the file but plain
  DeepSeek when it comes from \<open>parse_config_identity\<close>.
\<close>

theorem toml_and_environment_diverge:
  "deserialize_root_provider (as_str k) = (if k = PK_LongCat then PK_Custom else k) \<and>
   parse_config_identity ''longcat'' = Some PK_LongCat \<and>
   deserialize_root_provider ''deepseek-claude'' = PK_DeepseekAnthropic \<and>
   parse_config_identity ''deepseek-claude'' = Some PK_Deepseek"
proof -
  have "LONGCAT \<in> set PROVIDER_REGISTRY" by (simp add: PROVIDER_REGISTRY_def)
  moreover have "to_ascii_lowercase (trim ''longcat'') \<in> set (folded_keys LONGCAT)" by code_simp
  ultimately have "parse_config_identity ''longcat'' = Some PK_LongCat"
    using config_identity_of_key by (metis entry_kinds)
  moreover have dc: "to_ascii_lowercase (trim ''deepseek-claude'') = ''deepseek-claude''"
      "trim (trim ''deepseek-claude'') = trim ''deepseek-claude''" by code_simp simp
  have "parse_config_identity ''deepseek-claude'' = parse (trim ''deepseek-claude'')"
    by (rule config_identity_not_key) (simp add: dc registry_keys)
  moreover have "parse (trim ''deepseek-claude'') = Some PK_Deepseek"
    unfolding parse_eq dc PROVIDER_REGISTRY_def by (simp add: folded_names_entries entry_kinds)
  moreover have "deserialize_root_provider ''deepseek-claude'' = PK_DeepseekAnthropic"
    by (simp add: deserialize_root_provider_def deserialize_kind_def VARIANTS_def)
  ultimately show ?thesis by (simp add: deserialize_as_str)
qed

section \<open>What the endpoint guards accept\<close>

lemma split_once_append:
  "c \<notin> set a \<Longrightarrow> split_once c (a @ c # b) = Some (a, b)"
  by (induction a) (auto simp: split_once_def)

lemma split_once_Some:
  "split_once c s = Some (a, b) \<Longrightarrow> s = a @ c # b \<and> c \<notin> set a"
proof -
  assume a: "split_once c s = Some (a, b)"
  then have ne: "dropWhile (\<lambda>x. x \<noteq> c) s \<noteq> []" and eq: "a = takeWhile (\<lambda>x. x \<noteq> c) s" "b = tl (dropWhile (\<lambda>x. x \<noteq> c) s)"
    by (auto simp: split_once_def Let_def split: if_splits list.splits)
  have "hd (dropWhile (\<lambda>x. x \<noteq> c) s) = c" using ne hd_dropWhile by blast
  with ne eq have "dropWhile (\<lambda>x. x \<noteq> c) s = c # b" by (cases "dropWhile (\<lambda>x. x \<noteq> c) s") auto
  with eq show ?thesis using takeWhile_dropWhile_id [of "\<lambda>x. x \<noteq> c" s] set_takeWhileD by fastforce
qed

lemma split_once_str_Some:
  "split_once_str p s = Some (a, b) \<Longrightarrow> s = a @ p @ b"
  by (induction p s arbitrary: a rule: split_once_str.induct)
    (auto simp: strip_prefix_def prefix_def split: if_splits option.splits)

lemma split_once_str_append:
  "p = x # xs \<Longrightarrow> x \<notin> set a \<Longrightarrow> split_once_str p (a @ p @ b) = Some (a, b)"
  by (induction a) (auto simp: strip_prefix_def)

lemma lower_separator:
  "ascii_lower c = CHR ''/'' \<longleftrightarrow> c = CHR ''/''" "ascii_lower c = CHR '':'' \<longleftrightarrow> c = CHR '':''"
  by (rule ascii_lower_iff; code_simp)+

lemma lower_same_separators:
  assumes "to_ascii_lowercase a = to_ascii_lowercase b"
  shows "CHR ''/'' \<in> set a \<longleftrightarrow> CHR ''/'' \<in> set b" "CHR '':'' \<in> set a \<longleftrightarrow> CHR '':'' \<in> set b"
proof -
  have "CHR ''/'' \<in> set x \<longleftrightarrow> CHR ''/'' \<in> set (to_ascii_lowercase x)"
    "CHR '':'' \<in> set x \<longleftrightarrow> CHR '':'' \<in> set (to_ascii_lowercase x)" for x
    by (auto simp: to_ascii_lowercase_def image_iff lower_separator eq_commute [of "CHR ''/''"] eq_commute [of "CHR '':''"])
  with assms show "CHR ''/'' \<in> set a \<longleftrightarrow> CHR ''/'' \<in> set b" "CHR '':'' \<in> set a \<longleftrightarrow> CHR '':'' \<in> set b"
    by metis+
qed

text \<open>
  An endpoint guard accepts exactly the URLs that are, up to blanks around them and one trailing
  slash, the scheme \<open>https\<close> and the expected authority in any case followed by the expected path
  letter for letter: no other path, scheme, port, user information or sub-domain is let through.
\<close>

theorem is_exact_https_route_iff:
  assumes "CHR ''/'' \<notin> set authority"
  shows "is_exact_https_route url authority path \<longleftrightarrow>
    (\<exists>s a. strip_one_slash (trim url) = s @ ''://'' @ a @ ''/'' @ path \<and>
           to_ascii_lowercase s = to_ascii_lowercase ''https'' \<and> to_ascii_lowercase a = to_ascii_lowercase authority)"
    (is "_ \<longleftrightarrow> (\<exists>s a. ?R s a)")
proof
  assume ok: "is_exact_https_route url authority path"
  obtain s r where sp: "split_once_str ''://'' (strip_one_slash (trim url)) = Some (s, r)"
    using ok by (cases "split_once_str ''://'' (strip_one_slash (trim url))")
      (simp_all only: is_exact_https_route_def option.case prod.exhaust, metis prod.exhaust)
  obtain a q where sl: "split_once CHR ''/'' r = Some (a, q)"
    using ok sp by (cases "split_once CHR ''/'' r")
      (simp_all only: is_exact_https_route_def option.case prod.case, metis prod.exhaust)
  have low: "to_ascii_lowercase s = to_ascii_lowercase ''https''" "to_ascii_lowercase a = to_ascii_lowercase authority" "q = path"
    using ok by (simp_all only: is_exact_https_route_def sp sl option.case prod.case eq_ignore_ascii_case_def)
  have "strip_one_slash (trim url) = s @ ''://'' @ r" using sp by (rule split_once_str_Some)
  moreover have "r = a @ ''/'' @ path" using split_once_Some [OF sl] low(3) by simp
  ultimately show "\<exists>s a. ?R s a" using low(1,2) by (intro exI [of _ s] exI [of _ a]) (simp only: simp_thms)
next
  assume "\<exists>s a. ?R s a"
  then obtain s a where R: "?R s a" by blast
  then have "CHR '':'' \<notin> set s" "CHR ''/'' \<notin> set a"
    using lower_same_separators(2) [of s "''https''"] lower_same_separators(1) [of a authority] assms by auto
  then have "split_once_str ''://'' (s @ ''://'' @ a @ ''/'' @ path) = Some (s, a @ ''/'' @ path)"
      "split_once CHR ''/'' (a @ ''/'' @ path) = Some (a, path)"
    using split_once_str_append [of "''://''" "CHR '':''" "''//''" s] split_once_append [of "CHR ''/''" a path] by simp_all
  with R show "is_exact_https_route url authority path"
    by (simp only: is_exact_https_route_def eq_ignore_ascii_case_def option.case prod.case simp_thms)
qed

theorem is_exact_https_route_iff_witness:
  "is_exact_https_route '' HTTPS://API.kimi.com/coding/v1/'' ''api.kimi.com'' ''coding/v1''"
proof -
  have "strip_one_slash (trim '' HTTPS://API.kimi.com/coding/v1/'') = ''HTTPS'' @ ''://'' @ ''API.kimi.com'' @ ''/'' @ ''coding/v1''"
    "to_ascii_lowercase ''HTTPS'' = to_ascii_lowercase ''https''"
    "to_ascii_lowercase ''API.kimi.com'' = to_ascii_lowercase ''api.kimi.com''" by code_simp+
  then have ex: "\<exists>s a. strip_one_slash (trim '' HTTPS://API.kimi.com/coding/v1/'') = s @ ''://'' @ a @ ''/'' @ ''coding/v1'' \<and>
      to_ascii_lowercase s = to_ascii_lowercase ''https'' \<and>
      to_ascii_lowercase a = to_ascii_lowercase ''api.kimi.com''" by blast
  show ?thesis by (rule is_exact_https_route_iff [THEN iffD2, OF _ ex]) simp
qed

lemma credential_help_for_route_cases:
  assumes "P (credential_help k)"
   "\<And>g. g \<noteq> [] \<Longrightarrow> P \<lparr> acquisition = ApiKey, credential_url = Some OLLAMA_CLOUD_API_KEY_URL,
         docs_url = Some ''https://docs.ollama.com/api/authentication'', guidance = g \<rparr>"
   "\<And>g. g \<noteq> [] \<Longrightarrow> P \<lparr> acquisition = ApiKey, credential_url = Some KIMI_CODE_MEMBERSHIP_PLAN_CONSOLE_URL,
         docs_url = None, guidance = g \<rparr>"
  shows "P (credential_help_for_route k url)"
  unfolding credential_help_for_route_def
  apply (split if_split, intro conjI impI)
   apply (rule assms(2), simp only: append_is_Nil_conv list.distinct simp_thms)
  apply (split if_split, intro conjI impI)
   apply (rule assms(3), simp only: append_is_Nil_conv list.distinct simp_thms)
  apply (rule assms(1))
  done
text \<open>
  Credential help never sends a user to a page that does not exist: it names a key page exactly
  for the providers whose credentials are issued as keys, whatever endpoint is configured, and it
  always carries guidance.
\<close>

theorem credential_help_complete:
  "(credential_url (credential_help_for_route k url) \<noteq> None \<longleftrightarrow>
    acquisition (credential_help_for_route k url) \<in> {ApiKey, ApiKeyOrOAuth}) \<and>
   guidance (credential_help_for_route k url) \<noteq> []"
proof (rule credential_help_for_route_cases
    [where P = "\<lambda>h. (credential_url h \<noteq> None \<longleftrightarrow> acquisition h \<in> {ApiKey, ApiKeyOrOAuth}) \<and> guidance h \<noteq> []"])
  have "credential_url (credential_help k) \<noteq> None \<longleftrightarrow> acquisition (credential_help k) \<in> {ApiKey, ApiKeyOrOAuth}"
    by (cases k) (simp_all only: credential_help.simps credential_help_data.select_convs option.distinct
      insert_iff empty_iff credential_acquisition.distinct simp_thms)
  moreover have "guidance (credential_help k) \<noteq> []"
    by (cases k) (simp_all only: credential_help.simps credential_help_data.select_convs append_is_Nil_conv
      list.distinct simp_thms)
  ultimately show "(credential_url (credential_help k) \<noteq> None \<longleftrightarrow>
      acquisition (credential_help k) \<in> {ApiKey, ApiKeyOrOAuth}) \<and> guidance (credential_help k) \<noteq> []" ..
qed simp_all

end
