(* ===== verification/Api_Provider.thy ===== *)
theory Api_Provider
  imports Provider_Registry
begin

text \<open>
  The provider type of the terminal program, \<open>ApiProvider\<close> of \<open>tui/src/config.rs\<close>: the lookup
  tables that translate to and from the configuration crate's kinds, the names it reads and
  prints, and the predicates that recognise a first-party model on its exact endpoint. The model
  identifiers of \<open>tui/src/config/models.rs\<close> are written out.

  The two tables are indexed by the discriminants of the enumerations, as the source indexes them
  with \<open>self as usize\<close>; the lemmas show that they are inverse to each other.
\<close>

datatype api_provider =
  AP_Deepseek | AP_DeepseekCN | AP_DeepseekAnthropic | AP_NvidiaNim | AP_Openai |
  AP_Atlascloud | AP_WanjieArk | AP_Volcengine | AP_Openrouter | AP_Orcarouter |
  AP_XiaomiMimo | AP_Novita | AP_Fireworks | AP_Siliconflow | AP_SiliconflowCn | AP_Arcee |
  AP_Moonshot | AP_Sglang | AP_Vllm | AP_Ollama | AP_OllamaCloud | AP_Huggingface |
  AP_Together | AP_Qianfan | AP_OpenaiCodex | AP_Anthropic | AP_Openmodel | AP_Zai |
  AP_Easybits | AP_Stepfun | AP_Minimax | AP_MinimaxAnthropic | AP_Deepinfra | AP_Sakana |
  AP_LongCat | AP_OpencodeGo | AP_OpencodeZen | AP_Meta | AP_Xai | AP_Mistral | AP_Google |
  AP_Antigravity | AP_Telecomjs | AP_Edenai | AP_ModelstudioTokenPlan |
  AP_ModelstudioTokenPlanAnthropic | AP_ModelstudioCodingPlan |
  AP_ModelstudioCodingPlanAnthropic | AP_Custom

primrec ap_discriminant :: "api_provider \<Rightarrow> usize" where
  "ap_discriminant AP_Deepseek = 0"
| "ap_discriminant AP_DeepseekCN = 1"
| "ap_discriminant AP_DeepseekAnthropic = 2"
| "ap_discriminant AP_NvidiaNim = 3"
| "ap_discriminant AP_Openai = 4"
| "ap_discriminant AP_Atlascloud = 5"
| "ap_discriminant AP_WanjieArk = 6"
| "ap_discriminant AP_Volcengine = 7"
| "ap_discriminant AP_Openrouter = 8"
| "ap_discriminant AP_Orcarouter = 9"
| "ap_discriminant AP_XiaomiMimo = 10"
| "ap_discriminant AP_Novita = 11"
| "ap_discriminant AP_Fireworks = 12"
| "ap_discriminant AP_Siliconflow = 13"
| "ap_discriminant AP_SiliconflowCn = 14"
| "ap_discriminant AP_Arcee = 15"
| "ap_discriminant AP_Moonshot = 16"
| "ap_discriminant AP_Sglang = 17"
| "ap_discriminant AP_Vllm = 18"
| "ap_discriminant AP_Ollama = 19"
| "ap_discriminant AP_OllamaCloud = 20"
| "ap_discriminant AP_Huggingface = 21"
| "ap_discriminant AP_Together = 22"
| "ap_discriminant AP_Qianfan = 23"
| "ap_discriminant AP_OpenaiCodex = 24"
| "ap_discriminant AP_Anthropic = 25"
| "ap_discriminant AP_Openmodel = 26"
| "ap_discriminant AP_Zai = 27"
| "ap_discriminant AP_Easybits = 28"
| "ap_discriminant AP_Stepfun = 29"
| "ap_discriminant AP_Minimax = 30"
| "ap_discriminant AP_MinimaxAnthropic = 31"
| "ap_discriminant AP_Deepinfra = 32"
| "ap_discriminant AP_Sakana = 33"
| "ap_discriminant AP_LongCat = 34"
| "ap_discriminant AP_OpencodeGo = 35"
| "ap_discriminant AP_OpencodeZen = 36"
| "ap_discriminant AP_Meta = 37"
| "ap_discriminant AP_Xai = 38"
| "ap_discriminant AP_Mistral = 39"
| "ap_discriminant AP_Google = 40"
| "ap_discriminant AP_Antigravity = 41"
| "ap_discriminant AP_Telecomjs = 42"
| "ap_discriminant AP_Edenai = 43"
| "ap_discriminant AP_ModelstudioTokenPlan = 44"
| "ap_discriminant AP_ModelstudioTokenPlanAnthropic = 45"
| "ap_discriminant AP_ModelstudioCodingPlan = 46"
| "ap_discriminant AP_ModelstudioCodingPlanAnthropic = 47"
| "ap_discriminant AP_Custom = 48"

primrec pk_discriminant :: "provider_kind \<Rightarrow> usize" where
  "pk_discriminant PK_Deepseek = 0"
| "pk_discriminant PK_DeepseekAnthropic = 1"
| "pk_discriminant PK_NvidiaNim = 2"
| "pk_discriminant PK_Openai = 3"
| "pk_discriminant PK_Atlascloud = 4"
| "pk_discriminant PK_WanjieArk = 5"
| "pk_discriminant PK_Volcengine = 6"
| "pk_discriminant PK_Openrouter = 7"
| "pk_discriminant PK_Orcarouter = 8"
| "pk_discriminant PK_XiaomiMimo = 9"
| "pk_discriminant PK_Novita = 10"
| "pk_discriminant PK_Fireworks = 11"
| "pk_discriminant PK_Siliconflow = 12"
| "pk_discriminant PK_Arcee = 13"
| "pk_discriminant PK_SiliconflowCN = 14"
| "pk_discriminant PK_Moonshot = 15"
| "pk_discriminant PK_Sglang = 16"
| "pk_discriminant PK_Vllm = 17"
| "pk_discriminant PK_Ollama = 18"
| "pk_discriminant PK_OllamaCloud = 19"
| "pk_discriminant PK_Huggingface = 20"
| "pk_discriminant PK_Together = 21"
| "pk_discriminant PK_Qianfan = 22"
| "pk_discriminant PK_OpenaiCodex = 23"
| "pk_discriminant PK_Anthropic = 24"
| "pk_discriminant PK_Openmodel = 25"
| "pk_discriminant PK_Zai = 26"
| "pk_discriminant PK_Easybits = 27"
| "pk_discriminant PK_Stepfun = 28"
| "pk_discriminant PK_Minimax = 29"
| "pk_discriminant PK_MinimaxAnthropic = 30"
| "pk_discriminant PK_Deepinfra = 31"
| "pk_discriminant PK_Sakana = 32"
| "pk_discriminant PK_LongCat = 33"
| "pk_discriminant PK_OpencodeGo = 34"
| "pk_discriminant PK_OpencodeZen = 35"
| "pk_discriminant PK_Meta = 36"
| "pk_discriminant PK_Xai = 37"
| "pk_discriminant PK_Mistral = 38"
| "pk_discriminant PK_Telecomjs = 39"
| "pk_discriminant PK_ModelstudioTokenPlan = 40"
| "pk_discriminant PK_ModelstudioTokenPlanAnthropic = 41"
| "pk_discriminant PK_ModelstudioCodingPlan = 42"
| "pk_discriminant PK_ModelstudioCodingPlanAnthropic = 43"
| "pk_discriminant PK_Antigravity = 44"
| "pk_discriminant PK_Google = 45"
| "pk_discriminant PK_Edenai = 46"
| "pk_discriminant PK_Custom = 47"

definition KIND_LOOKUP :: "provider_kind option list" where
  "KIND_LOOKUP =
     [Some PK_Deepseek, None, Some PK_DeepseekAnthropic, Some PK_NvidiaNim, Some PK_Openai,
      Some PK_Atlascloud, Some PK_WanjieArk, Some PK_Volcengine, Some PK_Openrouter,
      Some PK_Orcarouter, Some PK_XiaomiMimo, Some PK_Novita, Some PK_Fireworks,
      Some PK_Siliconflow, Some PK_SiliconflowCN, Some PK_Arcee, Some PK_Moonshot,
      Some PK_Sglang, Some PK_Vllm, Some PK_Ollama, Some PK_OllamaCloud, Some PK_Huggingface,
      Some PK_Together, Some PK_Qianfan, Some PK_OpenaiCodex, Some PK_Anthropic,
      Some PK_Openmodel, Some PK_Zai, Some PK_Easybits, Some PK_Stepfun, Some PK_Minimax,
      Some PK_MinimaxAnthropic, Some PK_Deepinfra, Some PK_Sakana, Some PK_LongCat,
      Some PK_OpencodeGo, Some PK_OpencodeZen, Some PK_Meta, Some PK_Xai, Some PK_Mistral,
      Some PK_Google, Some PK_Antigravity, Some PK_Telecomjs, Some PK_Edenai,
      Some PK_ModelstudioTokenPlan, Some PK_ModelstudioTokenPlanAnthropic,
      Some PK_ModelstudioCodingPlan, Some PK_ModelstudioCodingPlanAnthropic, Some PK_Custom]"

definition FROM_KIND_LOOKUP :: "api_provider list" where
  "FROM_KIND_LOOKUP =
     [AP_Deepseek, AP_DeepseekAnthropic, AP_NvidiaNim, AP_Openai, AP_Atlascloud, AP_WanjieArk,
      AP_Volcengine, AP_Openrouter, AP_Orcarouter, AP_XiaomiMimo, AP_Novita, AP_Fireworks,
      AP_Siliconflow, AP_Arcee, AP_SiliconflowCn, AP_Moonshot, AP_Sglang, AP_Vllm, AP_Ollama,
      AP_OllamaCloud, AP_Huggingface, AP_Together, AP_Qianfan, AP_OpenaiCodex, AP_Anthropic,
      AP_Openmodel, AP_Zai, AP_Easybits, AP_Stepfun, AP_Minimax, AP_MinimaxAnthropic,
      AP_Deepinfra, AP_Sakana, AP_LongCat, AP_OpencodeGo, AP_OpencodeZen, AP_Meta, AP_Xai,
      AP_Mistral, AP_Telecomjs, AP_ModelstudioTokenPlan, AP_ModelstudioTokenPlanAnthropic,
      AP_ModelstudioCodingPlan, AP_ModelstudioCodingPlanAnthropic, AP_Antigravity, AP_Google,
      AP_Edenai, AP_Custom]"

definition ap_kind :: "api_provider \<Rightarrow> provider_kind option" where
  "ap_kind p = KIND_LOOKUP ! ap_discriminant p"

definition from_kind :: "provider_kind \<Rightarrow> api_provider" where
  "from_kind k = FROM_KIND_LOOKUP ! pk_discriminant k"

definition ap_as_str :: "api_provider \<Rightarrow> string" where
  "ap_as_str p = (case ap_kind p of Some k \<Rightarrow> as_str k | None \<Rightarrow> ''deepseek-cn'')"

definition ap_display_name :: "api_provider \<Rightarrow> string" where
  "ap_display_name p =
     (case ap_kind p of Some k \<Rightarrow> p_display_name (the (provider_for_kind k)) | None \<Rightarrow> ''DeepSeek (legacy alias)'')"

definition metadata :: "api_provider \<Rightarrow> provider_entry option" where
  "metadata p = map_option (\<lambda>k. the (provider_for_kind k)) (ap_kind p)"

definition ap_env_vars :: "api_provider \<Rightarrow> string list" where
  "ap_env_vars p =
     (case metadata p of None \<Rightarrow> p_env_vars (the (provider_for_kind PK_Deepseek)) | Some e \<Rightarrow> p_env_vars e)"

definition env_vars_label :: "api_provider \<Rightarrow> string" where
  "env_vars_label p = join '' / '' (ap_env_vars p)"

definition sorted_for_display :: "api_provider list" where
  "sorted_for_display = map (\<lambda>e. from_kind (p_kind e)) providers_sorted_for_display"

definition DEFAULT_DEEPSEEKCN_BASE_URL :: string where
  "DEFAULT_DEEPSEEKCN_BASE_URL = ''https://api.deepseek.com/beta''"

definition default_base_url :: "api_provider \<Rightarrow> string" where
  "default_base_url p =
     (if p = AP_DeepseekCN then DEFAULT_DEEPSEEKCN_BASE_URL
      else case metadata p of None \<Rightarrow> p_base_url (the (provider_for_kind PK_Deepseek)) | Some e \<Rightarrow> p_base_url e)"

definition ap_credential_help :: "api_provider \<Rightarrow> credential_help_data" where
  "ap_credential_help p =
     (case metadata p of
        None \<Rightarrow> credential_help (p_kind (the (provider_for_kind PK_Deepseek)))
      | Some e \<Rightarrow> credential_help (p_kind e))"

definition ap_credential_url :: "api_provider \<Rightarrow> string option" where
  "ap_credential_url p = credential_url (ap_credential_help p)"

definition ap_all :: "api_provider list" where
  "ap_all = FROM_KIND_LOOKUP"

definition ap_names_hint :: string where
  "ap_names_hint =
     join '', ''
       (ap_as_str AP_Deepseek # ap_as_str AP_DeepseekCN #
        map ap_as_str (filter (\<lambda>p. p \<noteq> AP_Deepseek) ap_all))"

definition catalog :: "api_provider list" where
  "catalog = map from_kind ALL_KINDS"

definition catalog_identity :: "api_provider \<Rightarrow> api_provider" where
  "catalog_identity p =
     (if p = AP_DeepseekAnthropic then AP_Deepseek
      else if p = AP_MinimaxAnthropic then AP_Minimax
      else if p = AP_ModelstudioTokenPlanAnthropic \<or> p = AP_ModelstudioCodingPlan \<or>
              p = AP_ModelstudioCodingPlanAnthropic then AP_ModelstudioTokenPlan
      else p)"

definition is_self_hosted :: "api_provider \<Rightarrow> bool" where
  "is_self_hosted p \<longleftrightarrow> p = AP_Sglang \<or> p = AP_Vllm \<or> p = AP_Ollama"

definition ap_parse :: "string \<Rightarrow> api_provider option" where
  "ap_parse name =
     (let trimmed = trim name
      in if eq_ignore_ascii_case trimmed ''deepseek-cn'' \<or> eq_ignore_ascii_case trimmed ''deepseek_china'' \<or>
            eq_ignore_ascii_case trimmed ''deepseekcn'' \<or> eq_ignore_ascii_case trimmed ''deepseek-china''
         then Some AP_DeepseekCN
         else if eq_ignore_ascii_case trimmed ''deepseek-anthropic'' \<or>
            eq_ignore_ascii_case trimmed ''deepseek_anthropic'' \<or>
            eq_ignore_ascii_case trimmed ''deepseek-claude'' \<or> eq_ignore_ascii_case trimmed ''deepseek_claude''
         then Some AP_DeepseekAnthropic
         else if eq_ignore_ascii_case trimmed ''minimax-anthropic'' \<or>
            eq_ignore_ascii_case trimmed ''minimax_anthropic'' \<or>
            eq_ignore_ascii_case trimmed ''mini-max-anthropic'' \<or> eq_ignore_ascii_case trimmed ''mini_max_anthropic''
         then Some AP_MinimaxAnthropic
         else map_option from_kind (parse name))"

section \<open>First-party models on their exact endpoints\<close>

definition model_is :: "string \<Rightarrow> string \<Rightarrow> bool" where
  "model_is model ident \<longleftrightarrow> eq_ignore_ascii_case (trim model) ident"

definition moonshot_base_url_is_exact_kimi_code :: "string \<Rightarrow> bool" where
  "moonshot_base_url_is_exact_kimi_code base_url = is_exact_kimi_code_route PK_Moonshot base_url"

definition moonshot_base_url_is_exact_direct_platform :: "string \<Rightarrow> bool" where
  "moonshot_base_url_is_exact_direct_platform base_url = is_exact_moonshot_platform_route PK_Moonshot base_url"

definition is_exact_direct_moonshot_k3_route :: "api_provider \<Rightarrow> string \<Rightarrow> string \<Rightarrow> bool" where
  "is_exact_direct_moonshot_k3_route provider base_url model \<longleftrightarrow>
     provider = AP_Moonshot \<and> moonshot_base_url_is_exact_direct_platform base_url \<and> model_is model ''kimi-k3''"

definition is_exact_xai_grok_4_6_route :: "api_provider \<Rightarrow> string \<Rightarrow> string \<Rightarrow> bool" where
  "is_exact_xai_grok_4_6_route provider base_url model \<longleftrightarrow>
     provider = AP_Xai \<and> is_exact_xai_platform_route PK_Xai base_url \<and> model_is model ''grok-4.6''"

definition is_exact_kimi_code_k3_route :: "api_provider \<Rightarrow> string \<Rightarrow> string \<Rightarrow> bool" where
  "is_exact_kimi_code_k3_route provider base_url model \<longleftrightarrow>
     provider = AP_Moonshot \<and> moonshot_base_url_is_exact_kimi_code base_url \<and>
     (model_is model ''k3'' \<or> model_is model ''k3-256k'')"

definition is_exact_kimi_code_bare_k3_route :: "api_provider \<Rightarrow> string \<Rightarrow> string \<Rightarrow> bool" where
  "is_exact_kimi_code_bare_k3_route provider base_url model \<longleftrightarrow>
     provider = AP_Moonshot \<and> moonshot_base_url_is_exact_kimi_code base_url \<and> model_is model ''k3''"

definition is_exact_zai_chat_route :: "api_provider \<Rightarrow> string \<Rightarrow> bool" where
  "is_exact_zai_chat_route provider base_url \<longleftrightarrow>
     provider = AP_Zai \<and> config_is_exact_zai_chat_route PK_Zai base_url"

definition is_exact_zai_tiered_effort_route :: "api_provider \<Rightarrow> string \<Rightarrow> string \<Rightarrow> bool" where
  "is_exact_zai_tiered_effort_route provider base_url model \<longleftrightarrow>
     is_exact_zai_chat_route provider base_url \<and>
     (model_is model ''GLM-5.2'' \<or> model_is model ''GLM-5.3'' \<or> model_is model ''GLM-5.3-Flash'')"

definition is_exact_zai_glm_5_turbo_route :: "api_provider \<Rightarrow> string \<Rightarrow> string \<Rightarrow> bool" where
  "is_exact_zai_glm_5_turbo_route provider base_url model \<longleftrightarrow>
     is_exact_zai_chat_route provider base_url \<and> model_is model ''GLM-5-Turbo''"

definition is_exact_known_zai_reasoning_route :: "api_provider \<Rightarrow> string \<Rightarrow> string \<Rightarrow> bool" where
  "is_exact_known_zai_reasoning_route provider base_url model \<longleftrightarrow>
     is_exact_zai_tiered_effort_route provider base_url model \<or>
     is_exact_zai_glm_5_turbo_route provider base_url model \<or>
     (is_exact_zai_chat_route provider base_url \<and> model_is model ''GLM-5.1'')"

definition minimax_base_url_is_supported_direct :: "string \<Rightarrow> bool" where
  "minimax_base_url_is_supported_direct base_url \<longleftrightarrow>
     is_exact_minimax_chat_route PK_Minimax base_url \<or>
     is_exact_minimax_anthropic_route PK_MinimaxAnthropic base_url"

definition is_exact_minimax_m3_route :: "api_provider \<Rightarrow> string \<Rightarrow> string \<Rightarrow> bool" where
  "is_exact_minimax_m3_route provider base_url model \<longleftrightarrow>
     provider = AP_Minimax \<and> is_exact_minimax_chat_route PK_Minimax base_url \<and> model_is model ''MiniMax-M3''"

definition is_exact_minimax_anthropic_m3_route :: "api_provider \<Rightarrow> string \<Rightarrow> string \<Rightarrow> bool" where
  "is_exact_minimax_anthropic_m3_route provider base_url model \<longleftrightarrow>
     provider = AP_MinimaxAnthropic \<and> is_exact_minimax_anthropic_route PK_MinimaxAnthropic base_url \<and>
     model_is model ''MiniMax-M3''"

definition minimax_m3_route_uses_max_completion_tokens :: "api_provider \<Rightarrow> string \<Rightarrow> string \<Rightarrow> bool" where
  "minimax_m3_route_uses_max_completion_tokens provider base_url model =
     is_exact_minimax_m3_route provider base_url model"

section \<open>The tables are inverse to each other\<close>

lemma from_kind_simps:
  "from_kind PK_Deepseek = AP_Deepseek"
  "from_kind PK_DeepseekAnthropic = AP_DeepseekAnthropic"
  "from_kind PK_NvidiaNim = AP_NvidiaNim"
  "from_kind PK_Openai = AP_Openai"
  "from_kind PK_Atlascloud = AP_Atlascloud"
  "from_kind PK_WanjieArk = AP_WanjieArk"
  "from_kind PK_Volcengine = AP_Volcengine"
  "from_kind PK_Openrouter = AP_Openrouter"
  "from_kind PK_Orcarouter = AP_Orcarouter"
  "from_kind PK_XiaomiMimo = AP_XiaomiMimo"
  "from_kind PK_Novita = AP_Novita"
  "from_kind PK_Fireworks = AP_Fireworks"
  "from_kind PK_Siliconflow = AP_Siliconflow"
  "from_kind PK_Arcee = AP_Arcee"
  "from_kind PK_SiliconflowCN = AP_SiliconflowCn"
  "from_kind PK_Moonshot = AP_Moonshot"
  "from_kind PK_Sglang = AP_Sglang"
  "from_kind PK_Vllm = AP_Vllm"
  "from_kind PK_Ollama = AP_Ollama"
  "from_kind PK_OllamaCloud = AP_OllamaCloud"
  "from_kind PK_Huggingface = AP_Huggingface"
  "from_kind PK_Together = AP_Together"
  "from_kind PK_Qianfan = AP_Qianfan"
  "from_kind PK_OpenaiCodex = AP_OpenaiCodex"
  "from_kind PK_Anthropic = AP_Anthropic"
  "from_kind PK_Openmodel = AP_Openmodel"
  "from_kind PK_Zai = AP_Zai"
  "from_kind PK_Easybits = AP_Easybits"
  "from_kind PK_Stepfun = AP_Stepfun"
  "from_kind PK_Minimax = AP_Minimax"
  "from_kind PK_MinimaxAnthropic = AP_MinimaxAnthropic"
  "from_kind PK_Deepinfra = AP_Deepinfra"
  "from_kind PK_Sakana = AP_Sakana"
  "from_kind PK_LongCat = AP_LongCat"
  "from_kind PK_OpencodeGo = AP_OpencodeGo"
  "from_kind PK_OpencodeZen = AP_OpencodeZen"
  "from_kind PK_Meta = AP_Meta"
  "from_kind PK_Xai = AP_Xai"
  "from_kind PK_Mistral = AP_Mistral"
  "from_kind PK_Telecomjs = AP_Telecomjs"
  "from_kind PK_ModelstudioTokenPlan = AP_ModelstudioTokenPlan"
  "from_kind PK_ModelstudioTokenPlanAnthropic = AP_ModelstudioTokenPlanAnthropic"
  "from_kind PK_ModelstudioCodingPlan = AP_ModelstudioCodingPlan"
  "from_kind PK_ModelstudioCodingPlanAnthropic = AP_ModelstudioCodingPlanAnthropic"
  "from_kind PK_Antigravity = AP_Antigravity"
  "from_kind PK_Google = AP_Google"
  "from_kind PK_Edenai = AP_Edenai"
  "from_kind PK_Custom = AP_Custom"
  by (simp_all add: from_kind_def FROM_KIND_LOOKUP_def)

lemma ap_kind_from_kind: "ap_kind (from_kind k) = Some k"
  by (cases k) (simp_all add: from_kind_simps ap_kind_def KIND_LOOKUP_def)

lemma ap_kind_Some: "ap_kind p = Some k \<longleftrightarrow> p = from_kind k"
proof
  show "p = from_kind k" if "ap_kind p = Some k"
    using that by (cases p) (auto simp: ap_kind_def KIND_LOOKUP_def from_kind_simps)
qed (simp add: ap_kind_from_kind)

lemma ap_kind_None: "ap_kind p = None \<longleftrightarrow> p = AP_DeepseekCN"
  by (cases p) (simp_all add: ap_kind_def KIND_LOOKUP_def)

text \<open>
  The terminal program's providers and the configuration kinds correspond one to one, the
  legacy China provider apart, and the identifier a provider is persisted under reads back as that
  provider, except for the three Model Studio plan variants, which read back as the plan's primary.
\<close>

theorem api_provider_roundtrip:
  "ap_kind (from_kind k) = Some k \<and> (ap_kind p = None \<longleftrightarrow> p = AP_DeepseekCN) \<and>
   ap_parse (ap_as_str p) =
     Some (if p \<in> {AP_ModelstudioTokenPlanAnthropic, AP_ModelstudioCodingPlan, AP_ModelstudioCodingPlanAnthropic}
           then AP_ModelstudioTokenPlan else p)"
proof -
  have "ap_parse (as_str k) = Some (if k = PK_DeepseekAnthropic \<or> k = PK_MinimaxAnthropic then from_kind k
      else from_kind (catalog_kind k))" for k
    unfolding ap_parse_def eq_ignore_ascii_case_def parse_as_str Let_def
    by (cases k) (simp_all add: folded_ids ascii_lower_code catalog_kind_def from_kind_simps)
  moreover have "eq_ignore_ascii_case (trim ''deepseek-cn'') ''deepseek-cn''" by code_simp
  then have "ap_parse ''deepseek-cn'' = Some AP_DeepseekCN"
    unfolding ap_parse_def Let_def by (simp only: simp_thms if_True)
  ultimately have "ap_parse (ap_as_str p) =
     Some (if p \<in> {AP_ModelstudioTokenPlanAnthropic, AP_ModelstudioCodingPlan, AP_ModelstudioCodingPlanAnthropic}
           then AP_ModelstudioTokenPlan else p)"
    by (cases p) (simp_all add: ap_as_str_def ap_kind_def KIND_LOOKUP_def from_kind_simps catalog_kind_def)
  then show ?thesis by (simp only: ap_kind_from_kind ap_kind_None simp_thms)
qed

end
