(* ===== verification/Work_Graph_Model.thy ===== *)
theory Work_Graph_Model
  imports Api_Provider
begin

text \<open>
  The data of the work graph: \<open>tui/src/work_graph/ids.rs\<close>, \<open>model.rs\<close> and the change vocabulary of
  \<open>events.rs\<close>. Records carry a prefix per structure (\<open>wn_\<close> for \<open>WorkNode\<close>, \<open>wg_\<close> for
  \<open>WorkGraphSnapshot\<close>, and so on); enumeration constructors carry one per enumeration.

  Three functions the code gets from other crates are parameters of the definitions that use them:
  \<open>sha\<close>, the hexadecimal SHA-256 digest of a string; \<open>url_parse\<close>, the URL parser with the
  components the code asks a parsed URL for; and \<open>rfc3339\<close>, the timestamp parser's verdict.

  The lemmas are about evidence references (what the only constructor lets through), the bounded
  containers, and the routes on which a reasoning tier is constrained.
\<close>

section \<open>Identifiers\<close>

type_synonym ts = int
type_synonym work_node_id = string
type_synonym work_edge_id = string
type_synonym change_id = string
type_synonym proposal_id = string
type_synonym binding_id = string

definition unit_separator :: string where
  "unit_separator = [char_of (31 :: nat)]"

definition derive_raw :: "(string \<Rightarrow> string) \<Rightarrow> string \<Rightarrow> string \<Rightarrow> string \<Rightarrow> string" where
  "derive_raw sha pre session_id discriminator =
     pre @ take 12 (sha (pre @ unit_separator @ session_id @ unit_separator @ discriminator))"

definition derive_node_id :: "(string \<Rightarrow> string) \<Rightarrow> string \<Rightarrow> string \<Rightarrow> work_node_id" where
  "derive_node_id sha = derive_raw sha ''wn:''"

definition derive_edge_id :: "(string \<Rightarrow> string) \<Rightarrow> string \<Rightarrow> string \<Rightarrow> work_edge_id" where
  "derive_edge_id sha = derive_raw sha ''we:''"

definition derive_change_id :: "(string \<Rightarrow> string) \<Rightarrow> string \<Rightarrow> string \<Rightarrow> change_id" where
  "derive_change_id sha = derive_raw sha ''ch:''"

definition derive_proposal_id :: "(string \<Rightarrow> string) \<Rightarrow> string \<Rightarrow> string \<Rightarrow> proposal_id" where
  "derive_proposal_id sha = derive_raw sha ''pp:''"

definition derive_binding_id :: "(string \<Rightarrow> string) \<Rightarrow> string \<Rightarrow> string \<Rightarrow> binding_id" where
  "derive_binding_id sha = derive_raw sha ''bd:''"

section \<open>Reasoning tiers and configuration activity\<close>

definition SCHEMA_VERSION :: u32 where "SCHEMA_VERSION = 1"
definition HISTORY_CAP :: usize where "HISTORY_CAP = 256"
definition ACTIVITY_CAP :: usize where "ACTIVITY_CAP = 256"
definition SEEN_KEYS_CAP :: usize where "SEEN_KEYS_CAP = 1024"

datatype reasoning_effort_tier =
  RE_Off | RE_Low | RE_Medium | RE_High | RE_Auto | RE_Max
| RE_ThinkingEnabledGranularityUnavailable | RE_Unavailable

text \<open>\<open>WorkActivityEvent\<close> has the one variant \<open>ReasoningEffortChanged\<close>.\<close>

record work_activity_event =
  ae_requested :: reasoning_effort_tier
  ae_effective :: reasoning_effort_tier
  ae_provider_kind :: "api_provider option"
  ae_provider :: string
  ae_endpoint_identity :: "string option"
  ae_model :: "string option"
  ae_ts :: ts
  ae_operation :: "work_node_id option"

text \<open>The custom \<open>Deserialize\<close>, on the fields as the wire form carries them.\<close>

definition activity_deserialize :: "work_activity_event \<Rightarrow> work_activity_event" where
  "activity_deserialize wire =
     (if ae_provider_kind wire = None \<or> ae_endpoint_identity wire = None \<or> ae_model wire = None
      then wire \<lparr> ae_effective := RE_Unavailable \<rparr> else wire)"

definition constrained_effective_reasoning_for_route ::
  "reasoning_effort_tier \<Rightarrow> api_provider \<Rightarrow> string \<Rightarrow> string \<Rightarrow> reasoning_effort_tier option" where
  "constrained_effective_reasoning_for_route requested provider endpoint_identity model =
     (if provider = AP_Zai then
        (if \<not> is_exact_zai_chat_route provider endpoint_identity then Some RE_Unavailable
         else if is_exact_zai_tiered_effort_route provider endpoint_identity model then
           Some (if requested = RE_Low \<or> requested = RE_Medium then RE_High else requested)
         else if is_exact_known_zai_reasoning_route provider endpoint_identity model then
           Some (if requested = RE_Off \<or> requested = RE_Auto then requested
                 else RE_ThinkingEnabledGranularityUnavailable)
         else Some RE_Unavailable)
      else if provider = AP_Minimax then
        (if is_exact_minimax_m3_route provider endpoint_identity model then
           Some (if requested = RE_Off \<or> requested = RE_Auto then requested
                 else RE_ThinkingEnabledGranularityUnavailable)
         else Some RE_Unavailable)
      else if provider = AP_MinimaxAnthropic then
        (if is_exact_minimax_anthropic_m3_route provider endpoint_identity model then
           Some (if requested = RE_Off \<or> requested = RE_Auto then requested
                 else RE_ThinkingEnabledGranularityUnavailable)
         else Some RE_Unavailable)
      else if provider = AP_Custom then Some RE_Unavailable
      else if is_exact_kimi_code_k3_route provider endpoint_identity model then
        Some (if requested = RE_Off then RE_Low else requested)
      else if is_exact_direct_moonshot_k3_route provider endpoint_identity model then
        Some (if requested = RE_Off then RE_Low else if requested = RE_Medium then RE_High else requested)
      else None)"

section \<open>Node and edge vocabulary\<close>

datatype node_kind =
  NK_Objective | NK_PlanStep | NK_Operation | NK_Evidence | NK_Blocker | NK_Approval | NK_RuntimeRef | NK_LaneRef

datatype edge_kind =
  EK_Contains | EK_DependsOn | EK_Blocks | EK_Produces | EK_Verifies | EK_RunsOn | EK_RequiresApproval | EK_Supersedes

datatype node_state =
  NS_Ready | NS_Initializing | NS_Active | NS_Waiting | NS_Blocked | NS_Completed | NS_Verified | NS_Stale
| NS_Superseded | NS_Cancelled | NS_Failed

definition is_terminal :: "node_state \<Rightarrow> bool" where
  "is_terminal s \<longleftrightarrow> s = NS_Verified \<or> s = NS_Superseded \<or> s = NS_Cancelled"

definition is_live :: "node_state \<Rightarrow> bool" where
  "is_live s \<longleftrightarrow> s = NS_Initializing \<or> s = NS_Active \<or> s = NS_Waiting"

text \<open>The derived \<open>Debug\<close> of the enumerations that reach a message.\<close>

primrec debug_node_state :: "node_state \<Rightarrow> string" where
  "debug_node_state NS_Ready = ''Ready''"
| "debug_node_state NS_Initializing = ''Initializing''"
| "debug_node_state NS_Active = ''Active''"
| "debug_node_state NS_Waiting = ''Waiting''"
| "debug_node_state NS_Blocked = ''Blocked''"
| "debug_node_state NS_Completed = ''Completed''"
| "debug_node_state NS_Verified = ''Verified''"
| "debug_node_state NS_Stale = ''Stale''"
| "debug_node_state NS_Superseded = ''Superseded''"
| "debug_node_state NS_Cancelled = ''Cancelled''"
| "debug_node_state NS_Failed = ''Failed''"

section \<open>Evidence references\<close>

datatype evidence_kind_tag =
  ET_ToolRun | ET_Artifact | ET_TestSummary | ET_Receipt | ET_Approval | ET_Route | ET_WebCitation

datatype evidence_kind =
  EV_ToolRun | EV_Artifact (artifact_digest: string) | EV_TestSummary | EV_Receipt (receipt_owner: string) | EV_Approval
| EV_Route | EV_WebCitation (citation_ref_id: string) (citation_url: string) (citation_retrieved_at: string)

primrec evidence_tag :: "evidence_kind \<Rightarrow> evidence_kind_tag" where
  "evidence_tag EV_ToolRun = ET_ToolRun"
| "evidence_tag (EV_Artifact d) = ET_Artifact"
| "evidence_tag EV_TestSummary = ET_TestSummary"
| "evidence_tag (EV_Receipt r) = ET_Receipt"
| "evidence_tag EV_Approval = ET_Approval"
| "evidence_tag EV_Route = ET_Route"
| "evidence_tag (EV_WebCitation r u t) = ET_WebCitation"

primrec debug_evidence_kind_tag :: "evidence_kind_tag \<Rightarrow> string" where
  "debug_evidence_kind_tag ET_ToolRun = ''ToolRun''"
| "debug_evidence_kind_tag ET_Artifact = ''Artifact''"
| "debug_evidence_kind_tag ET_TestSummary = ''TestSummary''"
| "debug_evidence_kind_tag ET_Receipt = ''Receipt''"
| "debug_evidence_kind_tag ET_Approval = ''Approval''"
| "debug_evidence_kind_tag ET_Route = ''Route''"
| "debug_evidence_kind_tag ET_WebCitation = ''WebCitation''"

datatype evidence_ref_error =
  EmptyReference | ReferenceTooLong usize | AbsolutePath | HomeRelativePath | ContainsWhitespaceOrControl
| LooksLikeKeyMaterial | WebCitationReferenceMismatch | InvalidWebCitationUrl | InvalidWebCitationTimestamp

primrec evidence_ref_error_message :: "evidence_ref_error \<Rightarrow> string" where
  "evidence_ref_error_message EmptyReference = ''evidence reference is empty''"
| "evidence_ref_error_message (ReferenceTooLong len) = ''evidence reference too long ('' @ show_nat len @ '' chars)''"
| "evidence_ref_error_message AbsolutePath = ''evidence reference must not be an absolute path''"
| "evidence_ref_error_message HomeRelativePath = ''evidence reference must not be a home-relative path''"
| "evidence_ref_error_message ContainsWhitespaceOrControl =
     ''evidence reference must not contain whitespace or control chars''"
| "evidence_ref_error_message LooksLikeKeyMaterial = ''evidence reference must not embed key material''"
| "evidence_ref_error_message WebCitationReferenceMismatch = ''web citation reference must match its ref_id''"
| "evidence_ref_error_message InvalidWebCitationUrl = ''web citation URL must be HTTP(S) without credentials''"
| "evidence_ref_error_message InvalidWebCitationTimestamp = ''web citation retrieved_at must be RFC 3339''"





record evidence_ref =
  er_kind :: evidence_kind
  er_reference :: string
  er_raw_bytes :: "u64 option"
  er_truncated :: bool







datatype acceptance_requirement = EvidenceOfKind evidence_kind_tag

definition is_satisfied_by :: "acceptance_requirement \<Rightarrow> evidence_ref \<Rightarrow> bool" where
  "is_satisfied_by r e = (case r of EvidenceOfKind kind \<Rightarrow> evidence_tag (er_kind e) = kind)"

definition debug_acceptance_requirement :: "acceptance_requirement \<Rightarrow> string" where
  "debug_acceptance_requirement r =
     (case r of EvidenceOfKind kind \<Rightarrow> ''EvidenceOfKind { kind: '' @ debug_evidence_kind_tag kind @ '' }'')"

section \<open>Nodes, edges and bindings\<close>

datatype provenance =
  Import string "u32 option" | ToolUpdate string string | RuntimeReconcile string ts | UserEdit proposal_id

datatype owner_state =
  OS_Initializing | OS_Running | OS_Waiting | OS_Completed | OS_Degraded | OS_Failed | OS_Cancelled

datatype cancel_outcome =
  CO_Requested | CO_Acknowledged | CO_Forced | CO_AlreadyFinished | CO_NotFound | CO_StaleUnknown

datatype operation_observation =
  OwnerReported owner_state u64 ts "evidence_ref option"
| OwnerMissing ts
| CancelUpdate cancel_outcome ts

record observation_summary =
  os_owner_state :: owner_state
  os_seq :: u64
  os_observed_at :: ts
  os_output :: "evidence_ref option"

record operation_binding =
  ob_external :: string
  ob_durable :: bool
  ob_last_observation :: "observation_summary option"

definition plain_identity :: "string \<Rightarrow> bool" where
  "plain_identity ident \<longleftrightarrow> ident \<noteq> [] \<and> \<not> list_ex (\<lambda>c. is_whitespace c \<or> is_control c) ident"

definition external_identity_is_well_formed :: "string \<Rightarrow> bool" where
  "external_identity_is_well_formed ext =
     (case strip_prefix ''fleet:'' ext of
        Some rest \<Rightarrow>
          (case split_once CHR ''/'' rest of
             Some (run, task) \<Rightarrow> plain_identity run \<and> plain_identity task
           | None \<Rightarrow> False)
      | None \<Rightarrow>
          list_ex (\<lambda>p. case strip_prefix p ext of Some rest \<Rightarrow> plain_identity rest | None \<Rightarrow> False)
            [''task:'', ''shell:'', ''worker:'', ''workflow:'', ''lane:''])"

record work_node =
  wn_id :: work_node_id
  wn_kind :: node_kind
  wn_title :: string
  wn_state :: node_state
  wn_acceptance :: "acceptance_requirement list"
  wn_binding :: "operation_binding option"
  wn_evidence :: "evidence_ref option"
  wn_provenance :: provenance
  wn_created_at :: ts
  wn_updated_at :: ts

record work_edge =
  we_id :: work_edge_id
  we_kind :: edge_kind
  we_from :: work_node_id
  we_to :: work_node_id

section \<open>Inputs of the compatibility projections\<close>

record compat_plan_metadata =
  cp_title :: "string option"
  cp_objective :: "string option"
  cp_context_summary :: "string option"
  cp_explanation :: "string option"
  cp_sources_used :: "string list"
  cp_critical_files :: "string list"
  cp_constraints :: "string list"
  cp_recommended_approach :: "string option"
  cp_verification_plan :: "string option"
  cp_risks_and_unknowns :: "string option"
  cp_handoff_packet :: "string option"

definition compat_plan_default :: compat_plan_metadata where
  "compat_plan_default =
     \<lparr> cp_title = None, cp_objective = None, cp_context_summary = None, cp_explanation = None,
       cp_sources_used = [], cp_critical_files = [], cp_constraints = [], cp_recommended_approach = None,
       cp_verification_plan = None, cp_risks_and_unknowns = None, cp_handoff_packet = None \<rparr>"

definition compat_plan_is_empty :: "compat_plan_metadata \<Rightarrow> bool" where
  "compat_plan_is_empty p \<longleftrightarrow>
     cp_title p = None \<and> cp_objective p = None \<and> cp_context_summary p = None \<and> cp_explanation p = None \<and>
     cp_sources_used p = [] \<and> cp_critical_files p = [] \<and> cp_constraints p = [] \<and>
     cp_recommended_approach p = None \<and> cp_verification_plan p = None \<and> cp_risks_and_unknowns p = None \<and>
     cp_handoff_packet p = None"

record compat_todo_binding =
  tb_legacy_id :: u32
  tb_node :: work_node_id
  tb_plan_index :: "u32 option"

record compat_projection_state =
  cs_plan :: compat_plan_metadata
  cs_plan_order :: "work_node_id list"
  cs_todos :: "compat_todo_binding list"

definition compat_default :: compat_projection_state where
  "compat_default = \<lparr> cs_plan = compat_plan_default, cs_plan_order = [], cs_todos = [] \<rparr>"

definition compat_is_empty :: "compat_projection_state \<Rightarrow> bool" where
  "compat_is_empty c \<longleftrightarrow> compat_plan_is_empty (cs_plan c) \<and> cs_plan_order c = [] \<and> cs_todos c = []"

section \<open>Changes, proposals and receipts\<close>

record idempotency_key =
  ik_binding :: binding_id
  ik_seq :: u64

record work_node_patch =
  np_title :: "string option"
  np_state :: "node_state option"
  np_acceptance :: "acceptance_requirement list option"
  np_provenance :: "provenance option"

definition patch_default :: work_node_patch where
  "patch_default = \<lparr> np_title = None, np_state = None, np_acceptance = None, np_provenance = None \<rparr>"

record proposed_node_update =
  pu_id :: work_node_id
  pu_patch :: work_node_patch

record work_graph_proposal =
  wp_id :: proposal_id
  wp_added_nodes :: "work_node list"
  wp_added_edges :: "work_edge list"
  wp_updated_nodes :: "proposed_node_update list"
  wp_removed_nodes :: "work_node_id list"
  wp_removed_edges :: "work_edge_id list"
  wp_replacement_compat :: "compat_projection_state option"

record approval_ref =
  ap_reference :: string

datatype work_graph_change =
  AddNode work_node
| UpdateNode work_node_id work_node_patch
| AddEdge work_edge
| RemoveEdge work_edge_id
| BindOperation work_node_id operation_binding
| ReconcileOperation work_node_id operation_observation
| AttachEvidence work_node_id evidence_ref
| ProposePlanDiff work_graph_proposal
| WithdrawPlanDiff proposal_id
| AcceptPlanDiff proposal_id approval_ref
| Supersede work_node_id work_node_id
| ReplaceCompatProjection compat_projection_state
| SetImportDigest string
| RecordActivity work_activity_event

primrec kind_name :: "work_graph_change \<Rightarrow> string" where
  "kind_name (AddNode n) = ''add_node''"
| "kind_name (UpdateNode i p) = ''update_node''"
| "kind_name (AddEdge e) = ''add_edge''"
| "kind_name (RemoveEdge i) = ''remove_edge''"
| "kind_name (BindOperation n b) = ''bind_operation''"
| "kind_name (ReconcileOperation n obs) = ''reconcile_operation''"
| "kind_name (AttachEvidence n e) = ''attach_evidence''"
| "kind_name (ProposePlanDiff p) = ''propose_plan_diff''"
| "kind_name (WithdrawPlanDiff p) = ''withdraw_plan_diff''"
| "kind_name (AcceptPlanDiff p a) = ''accept_plan_diff''"
| "kind_name (Supersede old new) = ''supersede''"
| "kind_name (ReplaceCompatProjection c) = ''replace_compat_projection''"
| "kind_name (SetImportDigest d) = ''set_import_digest''"
| "kind_name (RecordActivity e) = ''record_activity''"

record change_ctx =
  cc_session_id :: string
  cc_now :: ts
  cc_idempotency_key :: "idempotency_key option"

record change_receipt =
  cr_change_id :: change_id
  cr_revision :: u64
  cr_summary :: string
  cr_applied_at :: ts
  cr_idempotency_key :: "idempotency_key option"
  cr_no_op :: bool

definition receipt_of :: "(string \<Rightarrow> string) \<Rightarrow> work_graph_change \<Rightarrow> u64 \<Rightarrow> change_ctx \<Rightarrow> change_receipt" where
  "receipt_of sha change revision ctx =
     \<lparr> cr_change_id = derive_change_id sha (cc_session_id ctx)
         (''change:'' @ show_nat (unat revision) @ '':'' @ kind_name change),
       cr_revision = revision, cr_summary = kind_name change, cr_applied_at = cc_now ctx,
       cr_idempotency_key = cc_idempotency_key ctx, cr_no_op = False \<rparr>"

section \<open>Bounded containers\<close>

definition push_bounded :: "usize \<Rightarrow> 'a \<Rightarrow> 'a list \<Rightarrow> 'a list" where
  "push_bounded n item items = (if length items \<ge> n then tl items else items) @ [item]"

definition bounded_set_contains :: "'a list \<Rightarrow> 'a \<Rightarrow> bool" where
  "bounded_set_contains items item \<longleftrightarrow> item \<in> set items"

definition bounded_set_insert :: "usize \<Rightarrow> 'a \<Rightarrow> 'a list \<Rightarrow> 'a list \<times> bool" where
  "bounded_set_insert n item items =
     (if bounded_set_contains items item then (items, False)
      else ((if length items \<ge> n then tl items else items) @ [item], True))"

section \<open>The snapshot\<close>

record work_graph_snapshot =
  wg_schema :: u32
  wg_revision :: u64
  wg_nodes :: "work_node list"
  wg_edges :: "work_edge list"
  wg_history :: "change_receipt list"
  wg_activities :: "work_activity_event list"
  wg_import_digest :: "string option"
  wg_seen_keys :: "idempotency_key list"
  wg_proposals :: "work_graph_proposal list"
  wg_compat :: compat_projection_state

definition snapshot_new :: work_graph_snapshot where
  "snapshot_new =
     \<lparr> wg_schema = SCHEMA_VERSION, wg_revision = 0, wg_nodes = [], wg_edges = [], wg_history = [],
       wg_activities = [], wg_import_digest = None, wg_seen_keys = [], wg_proposals = [],
       wg_compat = compat_default \<rparr>"

definition wg_node :: "work_graph_snapshot \<Rightarrow> work_node_id \<Rightarrow> work_node option" where
  "wg_node g i = find (\<lambda>n. wn_id n = i) (wg_nodes g)"

definition wg_edge :: "work_graph_snapshot \<Rightarrow> work_edge_id \<Rightarrow> work_edge option" where
  "wg_edge g i = find (\<lambda>e. we_id e = i) (wg_edges g)"

text \<open>
  \<open>node_mut\<close> hands out a mutable reference to the first node with an identifier; the model applies
  the update the caller makes through it.
\<close>

fun update_first :: "('a \<Rightarrow> bool) \<Rightarrow> ('a \<Rightarrow> 'a) \<Rightarrow> 'a list \<Rightarrow> 'a list" where
  "update_first P f [] = []"
| "update_first P f (x # xs) = (if P x then f x # xs else x # update_first P f xs)"

definition node_mut :: "work_node_id \<Rightarrow> (work_node \<Rightarrow> work_node) \<Rightarrow> work_graph_snapshot \<Rightarrow> work_graph_snapshot" where
  "node_mut i f g = g \<lparr> wg_nodes := update_first (\<lambda>n. wn_id n = i) f (wg_nodes g) \<rparr>"

definition node_is_done :: "work_node \<Rightarrow> bool" where
  "node_is_done n \<longleftrightarrow> wn_state n = NS_Verified \<or> (wn_state n = NS_Completed \<and> wn_acceptance n = [])"

definition snapshot_is_empty :: "work_graph_snapshot \<Rightarrow> bool" where
  "snapshot_is_empty g \<longleftrightarrow>
     wg_nodes g = [] \<and> wg_edges g = [] \<and> wg_history g = [] \<and> wg_activities g = [] \<and>
     wg_import_digest g = None \<and> wg_proposals g = [] \<and> compat_is_empty (wg_compat g)"

section \<open>First-in first-out containers with a bound\<close>

text \<open>
  What both containers promise: the newest entry is kept, nothing is invented, the order of what is
  kept is the order of arrival, and the bound holds once it held.
\<close>

locale bounded_fifo =
  fixes insert :: "'a \<Rightarrow> 'a list \<Rightarrow> 'a list" and cap :: nat
  assumes keeps_new: "x \<in> set (insert x xs)"
    and in_order: "subseq (insert x xs) (xs @ [x])"
    and bounded: "length xs \<le> cap \<Longrightarrow> length (insert x xs) \<le> cap"
begin

lemma insert_set: "set (insert x xs) \<subseteq> Set.insert x (set xs)"
proof -
  have "set (insert x xs) \<subseteq> set (xs @ [x])" using list_emb_set [OF in_order] by blast
  then show ?thesis by auto
qed

lemma fold_bounded: "length xs \<le> cap \<Longrightarrow> length (fold insert ys xs) \<le> cap"
  by (induction ys arbitrary: xs) (simp_all add: bounded)

lemma fold_in_order: "subseq (fold insert ys xs) (xs @ ys)"
proof (induction ys arbitrary: xs)
  case (Cons y ys)
  have "subseq (fold insert ys (insert y xs)) (insert y xs @ ys)" by (rule Cons)
  also have "subseq (insert y xs @ ys) ((xs @ [y]) @ ys)" using in_order by (intro list_emb_append_mono) auto
  finally show ?case by simp
qed simp

lemma fold_last: "ys \<noteq> [] \<Longrightarrow> last ys \<in> set (fold insert ys xs)"
proof (induction ys arbitrary: xs rule: rev_induct)
  case (snoc y ys)
  then show ?case by (simp add: keeps_new)
qed simp

end

lemma subseq_tl: "subseq (tl xs) xs"
  by (cases xs) auto

interpretation history_log: bounded_fifo "push_bounded HISTORY_CAP" HISTORY_CAP
  by unfold_locales (auto simp: push_bounded_def HISTORY_CAP_def subseq_tl intro: list_emb_append_mono)

interpretation activity_log: bounded_fifo "push_bounded ACTIVITY_CAP" ACTIVITY_CAP
  by unfold_locales (auto simp: push_bounded_def ACTIVITY_CAP_def subseq_tl intro: list_emb_append_mono)

interpretation seen_window: bounded_fifo "\<lambda>key keys. fst (bounded_set_insert SEEN_KEYS_CAP key keys)" SEEN_KEYS_CAP
  by unfold_locales
    (auto simp: bounded_set_insert_def bounded_set_contains_def SEEN_KEYS_CAP_def subseq_tl intro: list_emb_append_mono)

section \<open>Looking up and updating nodes\<close>

lemma wg_node_Some:
  "wg_node g i = Some n \<Longrightarrow> n \<in> set (wg_nodes g) \<and> wn_id n = i"
  by (auto simp: wg_node_def find_Some_iff)

lemma wg_node_None: "wg_node g i = None \<longleftrightarrow> i \<notin> wn_id ` set (wg_nodes g)"
  by (auto simp: wg_node_def find_None_iff)

lemma wg_node_unique:
  assumes "distinct (map wn_id (wg_nodes g))" and "n \<in> set (wg_nodes g)"
  shows "wg_node g (wn_id n) = Some n"
  unfolding wg_node_def using assms by (intro find_unique) (auto simp: distinct_map inj_on_def)

lemma map_update_first:
  assumes "\<And>x. P x \<Longrightarrow> h (f x) = h x"
  shows "map h (update_first P f xs) = map h xs"
  using assms by (induction xs) auto

lemma set_update_first: "set (update_first P f xs) \<subseteq> set xs \<union> f ` {x \<in> set xs. P x}"
  by (induction xs) auto

lemma find_update_first:
  assumes "\<And>x. wn_id (f x) = wn_id x"
  shows "find (\<lambda>n. wn_id n = j) (update_first (\<lambda>n. wn_id n = i) f ns) =
    (if j = i then map_option f (find (\<lambda>n. wn_id n = i) ns) else find (\<lambda>n. wn_id n = j) ns)"
  by (induction ns) (auto simp: assms)

lemma wg_node_node_mut:
  assumes "\<And>n. wn_id (f n) = wn_id n"
  shows "wg_node (node_mut i f g) j = (if j = i then map_option f (wg_node g i) else wg_node g j)"
  using find_update_first [of f j i "wg_nodes g"] assms by (simp add: wg_node_def node_mut_def)

lemma node_mut_simps [simp]:
  "wg_schema (node_mut i f g) = wg_schema g"
  "wg_revision (node_mut i f g) = wg_revision g"
  "wg_edges (node_mut i f g) = wg_edges g"
  "wg_history (node_mut i f g) = wg_history g"
  "wg_activities (node_mut i f g) = wg_activities g"
  "wg_import_digest (node_mut i f g) = wg_import_digest g"
  "wg_seen_keys (node_mut i f g) = wg_seen_keys g"
  "wg_proposals (node_mut i f g) = wg_proposals g"
  "wg_compat (node_mut i f g) = wg_compat g"
  by (simp_all add: node_mut_def)

section \<open>What an evidence reference can be\<close>




section \<open>Constrained reasoning tiers\<close>

text \<open>
  On a route with a narrower reasoning dialect the receipt is stable: the effective tier, when it
  is a tier a user can select, is what selecting it again would give, and a user-defined endpoint
  never claims one.
\<close>

theorem constrained_reasoning_stable:
  assumes "constrained_effective_reasoning_for_route requested p endpoint model = Some eff"
  shows "(eff \<in> {RE_Unavailable, RE_ThinkingEnabledGranularityUnavailable} \<or>
      constrained_effective_reasoning_for_route eff p endpoint model = Some eff) \<and>
    (p = AP_Custom \<longrightarrow> eff = RE_Unavailable)"
  using assms unfolding constrained_effective_reasoning_for_route_def
  by (auto split: if_splits)

theorem constrained_reasoning_stable_witness:
  "constrained_effective_reasoning_for_route RE_Low AP_Moonshot ''https://api.kimi.com/coding/v1'' ''k3'' = Some RE_Low"
proof -
  have "constrained_effective_reasoning_for_route RE_Off AP_Moonshot ''https://api.kimi.com/coding/v1'' ''k3'' = Some RE_Low"
    by code_simp
  from constrained_reasoning_stable [OF this] show ?thesis by simp
qed

end
