(* ===== verification/Work_Graph_Validate.thy ===== *)
theory Work_Graph_Validate
  imports Work_Graph_Model Worklist
begin

text \<open>
  The invariant checks of \<open>tui/src/work_graph/validate.rs\<close>: one definition per check, each returning
  the violations the code pushes, in the order it pushes them and with the messages it formats, and
  \<open>validate\<close>, which runs them all.

  The second half states the invariants without the algorithms that check them, as relations on
  nodes, and proves that a snapshot validates just if it satisfies them: the three-colour search
  decides acyclicity of the dependencies, the ancestry walk decides containment in an objective or
  plan step, and the loops with hash sets decide uniqueness.
\<close>

datatype validation_code =
  VC_Structural | VC_V1 | VC_V2 | VC_V3 | VC_V4 | VC_V5 | VC_V6 | VC_V7 | VC_V8 | VC_V9 | VC_V10

primrec debug_validation_code :: "validation_code \<Rightarrow> string" where
  "debug_validation_code VC_Structural = ''Structural''"
| "debug_validation_code VC_V1 = ''V1''"
| "debug_validation_code VC_V2 = ''V2''"
| "debug_validation_code VC_V3 = ''V3''"
| "debug_validation_code VC_V4 = ''V4''"
| "debug_validation_code VC_V5 = ''V5''"
| "debug_validation_code VC_V6 = ''V6''"
| "debug_validation_code VC_V7 = ''V7''"
| "debug_validation_code VC_V8 = ''V8''"
| "debug_validation_code VC_V9 = ''V9''"
| "debug_validation_code VC_V10 = ''V10''"

record violation =
  vi_code :: validation_code
  vi_message :: string

type_synonym validation_report = "violation list"

definition viol :: "validation_code \<Rightarrow> string \<Rightarrow> violation" where
  "viol code message = \<lparr> vi_code = code, vi_message = message \<rparr>"

definition report_single :: "validation_code \<Rightarrow> string \<Rightarrow> validation_report" where
  "report_single code message = [viol code message]"

definition contains_code :: "validation_report \<Rightarrow> validation_code \<Rightarrow> bool" where
  "contains_code r code = list_ex (\<lambda>v. vi_code v = code) r"

definition report_display :: "validation_report \<Rightarrow> string" where
  "report_display r =
     ''work graph validation failed:'' @
     concat (map (\<lambda>v. '' ['' @ debug_validation_code (vi_code v) @ ''] '' @ vi_message v @ '';'') r)"

section \<open>Structural checks\<close>

fun structural_nodes :: "work_node_id set \<Rightarrow> work_node list \<Rightarrow> violation list" where
  "structural_nodes ids [] = []"
| "structural_nodes ids (n # ns) =
     (if wn_id n \<in> ids then [viol VC_Structural (''duplicate node id '' @ wn_id n)] else []) @
     (if wn_evidence n \<noteq> None \<and> wn_kind n \<noteq> NK_Evidence
      then [viol VC_Structural (''node '' @ wn_id n @ '' carries evidence but is not an Evidence node'')] else []) @
     structural_nodes (insert (wn_id n) ids) ns"

fun structural_edges :: "work_node_id set \<Rightarrow> work_edge_id set \<Rightarrow> work_edge list \<Rightarrow> violation list" where
  "structural_edges node_ids ids [] = []"
| "structural_edges node_ids ids (e # es) =
     (if we_id e \<in> ids then [viol VC_Structural (''duplicate edge id '' @ we_id e)] else []) @
     concat (map (\<lambda>endpoint.
       if endpoint \<notin> node_ids
       then [viol VC_Structural (''edge '' @ we_id e @ '' references missing node '' @ endpoint)] else [])
       [we_from e, we_to e]) @
     structural_edges node_ids (insert (we_id e) ids) es"

fun structural_plan :: "work_graph_snapshot \<Rightarrow> work_node_id set \<Rightarrow> work_node_id list \<Rightarrow> violation list" where
  "structural_plan g ids [] = []"
| "structural_plan g ids (i # is) =
     (if i \<in> ids then [viol VC_Structural (''duplicate plan projection node '' @ i)] else []) @
     (case wg_node g i of
        Some n \<Rightarrow> if wn_kind n = NK_PlanStep then []
                  else [viol VC_Structural (''plan projection node '' @ i @ '' is not a PlanStep'')]
      | None \<Rightarrow> [viol VC_Structural (''plan projection references missing node '' @ i)]) @
     structural_plan g (insert i ids) is"

definition plan_alias :: "work_graph_snapshot \<Rightarrow> u32 \<Rightarrow> work_node_id option" where
  "plan_alias g index =
     (let order = cs_plan_order (wg_compat g)
      in if unat index < length order then Some (order ! unat index) else None)"

fun structural_todos :: "work_graph_snapshot \<Rightarrow> u32 set \<Rightarrow> compat_todo_binding list \<Rightarrow> violation list" where
  "structural_todos g ids [] = []"
| "structural_todos g ids (b # bs) =
     (if tb_legacy_id b = 0 \<or> tb_legacy_id b \<in> ids
      then [viol VC_Structural (''invalid or duplicate legacy To-do id '' @ show_nat (unat (tb_legacy_id b)))] else []) @
     (case wg_node g (tb_node b) of
        Some n \<Rightarrow>
          if wn_kind n \<noteq> NK_PlanStep
          then [viol VC_Structural (''To-do projection '' @ show_nat (unat (tb_legacy_id b)) @ '' node '' @
                  tb_node b @ '' is not a PlanStep'')]
          else []
      | None \<Rightarrow> [viol VC_Structural (''To-do projection '' @ show_nat (unat (tb_legacy_id b)) @
                  '' references missing node '' @ tb_node b)]) @
     (case tb_plan_index b of
        Some index \<Rightarrow>
          if plan_alias g index \<noteq> Some (tb_node b)
          then [viol VC_Structural (''To-do projection '' @ show_nat (unat (tb_legacy_id b)) @
                  '' has an invalid plan alias'')]
          else []
      | None \<Rightarrow> []) @
     structural_todos g (if tb_legacy_id b = 0 then ids else insert (tb_legacy_id b) ids) bs"

definition todo_is_active :: "work_graph_snapshot \<Rightarrow> compat_todo_binding \<Rightarrow> bool" where
  "todo_is_active g b = (case wg_node g (tb_node b) of Some n \<Rightarrow> wn_state n = NS_Active | None \<Rightarrow> False)"

definition provenance_is_bounded :: "work_activity_event \<Rightarrow> bool" where
  "provenance_is_bounded a \<longleftrightarrow>
     ae_provider_kind a \<noteq> None \<and>
     (case ae_endpoint_identity a of
        Some endpoint \<Rightarrow> endpoint \<noteq> [] \<and> length endpoint \<le> 512 \<and> \<not> list_ex is_control endpoint
      | None \<Rightarrow> False) \<and>
     (case ae_model a of
        Some model \<Rightarrow> trim model \<noteq> [] \<and> length model \<le> 256 \<and> \<not> list_ex is_control model
      | None \<Rightarrow> False)"

definition activity_operation_check :: "work_graph_snapshot \<Rightarrow> work_activity_event \<Rightarrow> violation list" where
  "activity_operation_check g a =
     (case ae_operation a of
        None \<Rightarrow> []
      | Some operation \<Rightarrow>
          (case wg_node g operation of
             Some n \<Rightarrow>
               if wn_kind n = NK_Operation then []
               else [viol VC_Structural (''activity operation '' @ operation @ '' is not an Operation node'')]
           | None \<Rightarrow> [viol VC_Structural (''activity references missing operation '' @ operation)]))"

definition activity_reasoning_check :: "work_activity_event \<Rightarrow> violation list" where
  "activity_reasoning_check a =
     (let provider_kind = the (ae_provider_kind a);
          constrained =
            (if provider_kind = AP_Custom then Some RE_Unavailable
             else constrained_effective_reasoning_for_route (ae_requested a) provider_kind
                    (the (ae_endpoint_identity a)) (the (ae_model a)))
      in case constrained of
           Some expected \<Rightarrow>
             if ae_effective a \<noteq> expected
             then [viol VC_Structural ''activity effective reasoning is impossible for its recorded route''] else []
         | None \<Rightarrow>
             if ae_effective a = RE_ThinkingEnabledGranularityUnavailable
             then [viol VC_Structural ''granularity-unavailable receipt is not valid for this recorded route'']
             else [])"

definition check_activity :: "work_graph_snapshot \<Rightarrow> work_activity_event \<Rightarrow> violation list" where
  "check_activity g a =
     (if ae_requested a = RE_ThinkingEnabledGranularityUnavailable \<or> ae_requested a = RE_Unavailable
      then [viol VC_Structural ''requested reasoning effort is not an operator-selectable tier''] else []) @
     (if ae_provider a = [] \<or> length (ae_provider a) > 128 \<or>
         list_ex (\<lambda>ch. is_whitespace ch \<or> is_control ch) (ae_provider a)
      then [viol VC_Structural ''activity provider is not a bounded route identity''] else []) @
     (if \<not> provenance_is_bounded a
      then (if ae_effective a \<noteq> RE_Unavailable
            then [viol VC_Structural ''activity without bounded route provenance must be effective unavailable'']
            else []) @ activity_operation_check g a
      else if the (ae_provider_kind a) \<noteq> AP_Custom \<and> ae_provider a \<noteq> ap_as_str (the (ae_provider_kind a))
      then [viol VC_Structural ''activity provider identity does not match its recorded kind'']
      else activity_reasoning_check a @ activity_operation_check g a)"

definition check_structural :: "work_graph_snapshot \<Rightarrow> violation list" where
  "check_structural g =
     (if wg_schema g \<noteq> SCHEMA_VERSION
      then [viol VC_Structural (''unknown schema '' @ show_nat (unat (wg_schema g)))] else []) @
     structural_nodes {} (wg_nodes g) @
     structural_edges (wn_id ` set (wg_nodes g)) {} (wg_edges g) @
     structural_plan g {} (cs_plan_order (wg_compat g)) @
     structural_todos g {} (cs_todos (wg_compat g)) @
     (if length (filter (todo_is_active g) (cs_todos (wg_compat g))) > 1
      then [viol VC_Structural ''legacy To-do projection has more than one active row''] else []) @
     (if length (wg_activities g) > ACTIVITY_CAP
      then [viol VC_Structural (''activity length '' @ show_nat (length (wg_activities g)) @
              '' exceeds bound '' @ show_nat ACTIVITY_CAP)] else []) @
     concat (map (check_activity g) (wg_activities g))"

section \<open>Dependency cycles\<close>

definition depends_on :: "work_graph_snapshot \<Rightarrow> (work_node_id \<times> work_node_id) list" where
  "depends_on g = map (\<lambda>e. (we_from e, we_to e)) (filter (\<lambda>e. we_kind e = EK_DependsOn) (wg_edges g))"

definition adjacent :: "(work_node_id \<times> work_node_id) list \<Rightarrow> work_node_id \<Rightarrow> work_node_id list" where
  "adjacent deps node = map snd (filter (\<lambda>p. fst p = node) deps)"

text \<open>
  The recursive function \<open>visit\<close> returns its verdict and the grown set \<open>done\<close>. Every call removes
  from \<open>in_progress\<close> the node it inserted, so the set a call finds is the set it leaves: it is a
  parameter here. The call inside \<open>all\<close> is \<open>visit_all\<close>, which stops at the first failure.
\<close>

function visit :: "(work_node_id \<times> work_node_id) list \<Rightarrow> work_node_id set \<Rightarrow> work_node_id \<Rightarrow> work_node_id set \<Rightarrow>
    bool \<times> work_node_id set"
  and visit_all :: "(work_node_id \<times> work_node_id) list \<Rightarrow> work_node_id set \<Rightarrow> work_node_id list \<Rightarrow> work_node_id set \<Rightarrow>
    bool \<times> work_node_id set" where
  "visit deps in_progress node finished =
     (if node \<in> finished then (True, finished)
      else if node \<in> in_progress then (False, finished)
      else case visit_all deps (insert node in_progress) (adjacent deps node) finished of
             (ok, finished') \<Rightarrow> (ok, insert node finished'))"
| "visit_all deps in_progress [] finished = (True, finished)"
| "visit_all deps in_progress (n # ns) finished =
     (case visit deps in_progress n finished of
        (ok, finished') \<Rightarrow> if ok then visit_all deps in_progress ns finished' else (False, finished'))"
  by pat_completeness auto

lemma adjacent_no_edge: "node \<notin> fst ` set deps \<Longrightarrow> adjacent deps node = []"
  by (auto simp: adjacent_def filter_empty_conv)

text \<open>The sources of edges outside the current path shrink, or the list of pending nodes does.\<close>

lemma path_shrinks:
  assumes "node \<notin> in_progress"
  shows "((card (fst ` set deps - insert node in_progress), 2 * length (adjacent deps node)),
      (card (fst ` set deps - in_progress), 1)) \<in> less_than <*lex*> less_than"
proof (cases "node \<in> fst ` set deps")
  case True
  with assms have "card (fst ` set deps - insert node in_progress) < card (fst ` set deps - in_progress)"
    by (intro psubset_card_mono) auto
  then show ?thesis by simp
next
  case False
  then have "fst ` set deps - insert node in_progress = fst ` set deps - in_progress" by auto
  with False show ?thesis by (simp add: adjacent_no_edge)
qed

termination visit
  by (relation "inv_image (less_than <*lex*> less_than)
      (\<lambda>x. case x of
         Inl (deps, in_progress, node, finished) \<Rightarrow> (card (fst ` set deps - in_progress), 1)
       | Inr (deps, in_progress, ns, finished) \<Rightarrow> (card (fst ` set deps - in_progress), 2 * length ns))")
    (use path_shrinks in auto)

declare visit.simps [simp del]

fun v1_loop :: "(work_node_id \<times> work_node_id) list \<Rightarrow> work_node list \<Rightarrow> work_node_id set \<Rightarrow> violation list" where
  "v1_loop deps [] finished = []"
| "v1_loop deps (n # ns) finished =
     (case visit deps {} (wn_id n) finished of
        (ok, finished') \<Rightarrow>
          if ok then v1_loop deps ns finished'
          else [viol VC_V1 (''depends_on cycle reachable from node '' @ wn_id n)])"

definition check_v1_depends_on_acyclic :: "work_graph_snapshot \<Rightarrow> violation list" where
  "check_v1_depends_on_acyclic g = v1_loop (depends_on g) (wg_nodes g) {}"

section \<open>Ancestry of live operations\<close>

definition contains_parents :: "work_graph_snapshot \<Rightarrow> work_node_id \<Rightarrow> work_node list" where
  "contains_parents g current =
     List.map_filter (\<lambda>e. if we_kind e = EK_Contains \<and> we_to e = current then wg_node g (we_from e) else None)
       (wg_edges g)"

definition is_root_kind :: "work_node \<Rightarrow> bool" where
  "is_root_kind n \<longleftrightarrow> wn_kind n = NK_Objective \<or> wn_kind n = NK_PlanStep"

text \<open>
  The walk over the stack \<open>frontier\<close>, with the flag \<open>rooted\<close> as the result; parents are pushed in the
  order of the edges, so the last one is on top.
\<close>

function climb :: "work_graph_snapshot \<Rightarrow> work_node_id list \<Rightarrow> work_node_id set \<Rightarrow> bool" where
  "climb g [] visited = False"
| "climb g (current # frontier) visited =
     (if current \<in> visited then climb g frontier visited
      else let parents = contains_parents g current
           in if list_ex is_root_kind parents then True
              else climb g (rev (map wn_id parents) @ frontier) (insert current visited))"
  by pat_completeness auto

definition climb_measure :: "work_graph_snapshot \<Rightarrow> work_node_id list \<times> work_node_id set \<Rightarrow> nat \<times> nat" where
  "climb_measure g s = (card (we_to ` set (wg_edges g) - snd s), length (fst s))"

definition climb_order ::
  "work_graph_snapshot \<Rightarrow>
   ((work_node_id list \<times> work_node_id set) \<times> (work_node_id list \<times> work_node_id set)) set" where
  "climb_order g = inv_image (less_than <*lex*> less_than) (climb_measure g)"

lemma wf_climb_order: "wf (climb_order g)"
  unfolding climb_order_def by (intro wf_inv_image wf_lex_prod wf_less_than)

lemma climb_order_pop: "((frontier, visited), (x # frontier, visited)) \<in> climb_order g"
  by (simp add: climb_order_def climb_measure_def)

lemma climb_order_push:
  assumes "current \<notin> visited"
  shows "((rev (map wn_id (contains_parents g current)) @ frontier, insert current visited),
      (current # frontier, visited)) \<in> climb_order g"
proof (cases "current \<in> we_to ` set (wg_edges g)")
  case True
  with assms have "card (we_to ` set (wg_edges g) - insert current visited) < card (we_to ` set (wg_edges g) - visited)"
    by (intro psubset_card_mono) auto
  then show ?thesis by (simp add: climb_order_def climb_measure_def)
next
  case False
  then have "we_to ` set (wg_edges g) - insert current visited = we_to ` set (wg_edges g) - visited" by auto
  moreover have "contains_parents g current = []"
    using False by (auto simp: contains_parents_def map_filter_def filter_empty_conv)
  ultimately show ?thesis by (simp add: climb_order_def climb_measure_def)
qed

termination climb
proof (relation "inv_image (less_than <*lex*> less_than) (\<lambda>(g, frontier, visited). climb_measure g (frontier, visited))")
  show "wf (inv_image (less_than <*lex*> less_than) (\<lambda>(g, frontier, visited). climb_measure g (frontier, visited)))"
    by (intro wf_inv_image wf_lex_prod wf_less_than)
qed (use climb_order_pop climb_order_push in \<open>auto simp: climb_order_def\<close>)

declare climb.simps(2) [simp del]

definition v2_violated :: "work_graph_snapshot \<Rightarrow> work_node \<Rightarrow> bool" where
  "v2_violated g n \<longleftrightarrow> wn_kind n = NK_Operation \<and> is_live (wn_state n) \<and> \<not> climb g [wn_id n] {}"

definition check_v2_live_operations_rooted :: "work_graph_snapshot \<Rightarrow> violation list" where
  "check_v2_live_operations_rooted g =
     concat (map (\<lambda>n.
       if v2_violated g n
       then [viol VC_V2 (''live operation '' @ wn_id n @ '' has no Objective/PlanStep ancestry'')] else [])
       (wg_nodes g))"

section \<open>Bindings, evidence, blockers, references and history\<close>

definition check_v3_binding_only_on_operations :: "work_graph_snapshot \<Rightarrow> violation list" where
  "check_v3_binding_only_on_operations g =
     concat (map (\<lambda>n.
       if wn_binding n \<noteq> None \<and> wn_kind n \<noteq> NK_Operation
       then [viol VC_V3 (''non-operation node '' @ wn_id n @ '' carries a binding'')] else [])
       (wg_nodes g))"

definition verifying_evidence :: "work_graph_snapshot \<Rightarrow> work_node \<Rightarrow> work_node list" where
  "verifying_evidence g n =
     filter (\<lambda>m. wn_kind m = NK_Evidence)
       (List.map_filter (\<lambda>e. wg_node g (we_from e))
         (filter (\<lambda>e. we_kind e = EK_Verifies \<and> we_to e = wn_id n) (wg_edges g)))"

definition requirement_satisfied :: "work_node list \<Rightarrow> acceptance_requirement \<Rightarrow> bool" where
  "requirement_satisfied evidence r =
     list_ex (\<lambda>ev. case wn_evidence ev of Some payload \<Rightarrow> is_satisfied_by r payload | None \<Rightarrow> False) evidence"

definition check_v4_verified_requires_evidence :: "work_graph_snapshot \<Rightarrow> violation list" where
  "check_v4_verified_requires_evidence g =
     concat (map (\<lambda>n.
       if wn_state n \<noteq> NS_Verified then []
       else if wn_acceptance n = []
       then [viol VC_V4 (''verified node '' @ wn_id n @ '' has no acceptance requirements'')]
       else concat (map (\<lambda>r.
         if requirement_satisfied (verifying_evidence g n) r then []
         else [viol VC_V4 (''verified node '' @ wn_id n @ '' lacks satisfying evidence for '' @
                 debug_acceptance_requirement r)])
         (wn_acceptance n)))
       (wg_nodes g))"

definition not_done :: "work_graph_snapshot \<Rightarrow> work_node_id \<Rightarrow> bool" where
  "not_done g i = (case wg_node g i of Some n \<Rightarrow> \<not> node_is_done n | None \<Rightarrow> False)"

definition blocked_has_cause :: "work_graph_snapshot \<Rightarrow> work_node_id \<Rightarrow> bool" where
  "blocked_has_cause g i \<longleftrightarrow>
     list_ex (\<lambda>e. we_kind e = EK_Blocks \<and> we_to e = i) (wg_edges g) \<or>
     list_ex (\<lambda>e. we_kind e = EK_DependsOn \<and> we_from e = i \<and> not_done g (we_to e)) (wg_edges g) \<or>
     list_ex (\<lambda>e. we_kind e = EK_RequiresApproval \<and> we_from e = i \<and> not_done g (we_to e)) (wg_edges g)"

definition check_v5_blocked_has_cause :: "work_graph_snapshot \<Rightarrow> violation list" where
  "check_v5_blocked_has_cause g =
     concat (map (\<lambda>n.
       if wn_state n = NS_Blocked \<and> \<not> blocked_has_cause g (wn_id n)
       then [viol VC_V5 (''blocked node '' @ wn_id n @ '' has no blocking cause'')] else [])
       (wg_nodes g))"

fun v6_loop :: "(string \<rightharpoonup> work_node_id) \<Rightarrow> work_node list \<Rightarrow> violation list" where
  "v6_loop known [] = []"
| "v6_loop known (n # ns) =
     (case wn_binding n of
        None \<Rightarrow> v6_loop known ns
      | Some b \<Rightarrow>
          (if external_identity_is_well_formed (ob_external b) then []
           else [viol VC_V6 (''node '' @ wn_id n @ '' binding external '' @ debug_str (ob_external b) @
                   '' matches no identity scheme'')]) @
          (case known (ob_external b) of
             Some previous \<Rightarrow>
               [viol VC_V6 (''external '' @ debug_str (ob_external b) @ '' bound by both '' @ previous @
                  '' and '' @ wn_id n)]
           | None \<Rightarrow> []) @
          v6_loop (known(ob_external b \<mapsto> wn_id n)) ns)"

definition check_v6_binding_identity :: "work_graph_snapshot \<Rightarrow> violation list" where
  "check_v6_binding_identity g = v6_loop Map.empty (wg_nodes g)"

definition check_v7_refs_inert :: "work_graph_snapshot \<Rightarrow> violation list" where
  "check_v7_refs_inert g =
     concat (map (\<lambda>n.
       if (wn_kind n = NK_RuntimeRef \<or> wn_kind n = NK_LaneRef) \<and> wn_state n \<noteq> NS_Ready
       then [viol VC_V7 (''reference node '' @ wn_id n @ '' carries liveness state '' @
               debug_node_state (wn_state n))] else [])
       (wg_nodes g))"

fun v8_loop :: "u64 option \<Rightarrow> change_receipt list \<Rightarrow> violation list" where
  "v8_loop previous [] = []"
| "v8_loop previous (r # rs) =
     (case previous of
        Some prev \<Rightarrow>
          if cr_revision r \<le> prev
          then [viol VC_V8 (''history revisions not strictly increasing ('' @ show_nat (unat prev) @ '' then '' @
                  show_nat (unat (cr_revision r)) @ '')'')]
          else v8_loop (Some (cr_revision r)) rs
      | None \<Rightarrow> v8_loop (Some (cr_revision r)) rs)"

definition saturating_inc :: "u64 \<Rightarrow> u64" where
  "saturating_inc n = (if n = - 1 then n else n + 1)"

definition check_v8_history_bounded_monotonic :: "work_graph_snapshot \<Rightarrow> violation list" where
  "check_v8_history_bounded_monotonic g =
     (if length (wg_history g) > HISTORY_CAP
      then [viol VC_V8 (''history length '' @ show_nat (length (wg_history g)) @ '' exceeds bound '' @
              show_nat HISTORY_CAP)] else []) @
     v8_loop None (wg_history g) @
     (if wg_history g \<noteq> [] \<and> cr_revision (last (wg_history g)) > saturating_inc (wg_revision g)
      then [viol VC_V8 (''history revision '' @ show_nat (unat (cr_revision (last (wg_history g)))) @
              '' ahead of snapshot revision '' @ show_nat (unat (wg_revision g)))] else [])"

definition all_violations :: "work_graph_snapshot \<Rightarrow> violation list" where
  "all_violations g =
     check_structural g @ check_v1_depends_on_acyclic g @ check_v2_live_operations_rooted g @
     check_v3_binding_only_on_operations g @ check_v4_verified_requires_evidence g @
     check_v5_blocked_has_cause g @ check_v6_binding_identity g @ check_v7_refs_inert g @
     check_v8_history_bounded_monotonic g"

definition validate :: "work_graph_snapshot \<Rightarrow> validation_report + unit" where
  "validate g = (if all_violations g = [] then Inr () else Inl (all_violations g))"
section \<open>The invariants without the algorithms\<close>

text \<open>
  What each invariant says of the nodes and edges. \<open>contains_child\<close> and \<open>depends\<close> are the relations the
  edges of a kind denote.
\<close>

definition edge_rel :: "work_graph_snapshot \<Rightarrow> edge_kind \<Rightarrow> (work_node_id \<times> work_node_id) set" where
  "edge_rel g k = {(we_from e, we_to e) | e. e \<in> set (wg_edges g) \<and> we_kind e = k}"

definition node_ids :: "work_graph_snapshot \<Rightarrow> work_node_id set" where
  "node_ids g = wn_id ` set (wg_nodes g)"

definition plan_steps :: "work_graph_snapshot \<Rightarrow> work_node_id set" where
  "plan_steps g = wn_id ` {n \<in> set (wg_nodes g). wn_kind n = NK_PlanStep}"

definition wf_structure :: "work_graph_snapshot \<Rightarrow> bool" where
  "wf_structure g \<longleftrightarrow>
     wg_schema g = SCHEMA_VERSION \<and>
     distinct (map wn_id (wg_nodes g)) \<and>
     (\<forall>n \<in> set (wg_nodes g). wn_evidence n \<noteq> None \<longrightarrow> wn_kind n = NK_Evidence) \<and>
     distinct (map we_id (wg_edges g)) \<and>
     (\<forall>k. edge_rel g k \<subseteq> node_ids g \<times> node_ids g)"

definition wf_projection :: "work_graph_snapshot \<Rightarrow> bool" where
  "wf_projection g \<longleftrightarrow>
     distinct (cs_plan_order (wg_compat g)) \<and>
     set (cs_plan_order (wg_compat g)) \<subseteq> plan_steps g \<and>
     distinct (map tb_legacy_id (cs_todos (wg_compat g))) \<and>
     (\<forall>b \<in> set (cs_todos (wg_compat g)).
        tb_legacy_id b \<noteq> 0 \<and> tb_node b \<in> plan_steps g \<and>
        (\<forall>i. tb_plan_index b = Some i \<longrightarrow>
           unat i < length (cs_plan_order (wg_compat g)) \<and> cs_plan_order (wg_compat g) ! unat i = tb_node b)) \<and>
     length (filter (\<lambda>b. \<exists>n \<in> set (wg_nodes g). wn_id n = tb_node b \<and> wn_state n = NS_Active)
       (cs_todos (wg_compat g))) \<le> 1"

definition activity_ok :: "work_graph_snapshot \<Rightarrow> work_activity_event \<Rightarrow> bool" where
  "activity_ok g a \<longleftrightarrow>
     ae_requested a \<notin> {RE_ThinkingEnabledGranularityUnavailable, RE_Unavailable} \<and>
     ae_provider a \<noteq> [] \<and> length (ae_provider a) \<le> 128 \<and>
     (\<forall>c \<in> set (ae_provider a). \<not> is_whitespace c \<and> \<not> is_control c) \<and>
     (\<forall>i. ae_operation a = Some i \<longrightarrow> (\<exists>n \<in> set (wg_nodes g). wn_id n = i \<and> wn_kind n = NK_Operation)) \<and>
     (if provenance_is_bounded a
      then (the (ae_provider_kind a) = AP_Custom \<and> ae_effective a = RE_Unavailable) \<or>
           (the (ae_provider_kind a) \<noteq> AP_Custom \<and> ae_provider a = ap_as_str (the (ae_provider_kind a)) \<and>
            (case constrained_effective_reasoning_for_route (ae_requested a) (the (ae_provider_kind a))
                    (the (ae_endpoint_identity a)) (the (ae_model a)) of
               Some expected \<Rightarrow> ae_effective a = expected
             | None \<Rightarrow> ae_effective a \<noteq> RE_ThinkingEnabledGranularityUnavailable))
      else ae_effective a = RE_Unavailable)"

definition has_cause :: "work_graph_snapshot \<Rightarrow> work_node \<Rightarrow> bool" where
  "has_cause g n \<longleftrightarrow>
     (\<exists>i. (i, wn_id n) \<in> edge_rel g EK_Blocks) \<or>
     (\<exists>m \<in> set (wg_nodes g). \<not> node_is_done m \<and>
        ((wn_id n, wn_id m) \<in> edge_rel g EK_DependsOn \<or> (wn_id n, wn_id m) \<in> edge_rel g EK_RequiresApproval))"

definition wf_node :: "work_graph_snapshot \<Rightarrow> work_node \<Rightarrow> bool" where
  "wf_node g n \<longleftrightarrow>
     (wn_kind n = NK_Operation \<and> is_live (wn_state n) \<longrightarrow>
        (\<exists>r \<in> set (wg_nodes g). is_root_kind r \<and> (wn_id r, wn_id n) \<in> (edge_rel g EK_Contains)\<^sup>+)) \<and>
     (wn_binding n \<noteq> None \<longrightarrow> wn_kind n = NK_Operation) \<and>
     (wn_state n = NS_Verified \<longrightarrow>
        wn_acceptance n \<noteq> [] \<and>
        (\<forall>r \<in> set (wn_acceptance n). \<exists>m \<in> set (wg_nodes g). \<exists>payload.
           wn_kind m = NK_Evidence \<and> wn_evidence m = Some payload \<and> is_satisfied_by r payload \<and>
           (wn_id m, wn_id n) \<in> edge_rel g EK_Verifies)) \<and>
     (wn_state n = NS_Blocked \<longrightarrow> has_cause g n) \<and>
     (\<forall>b. wn_binding n = Some b \<longrightarrow> external_identity_is_well_formed (ob_external b)) \<and>
     (wn_kind n \<in> {NK_RuntimeRef, NK_LaneRef} \<longrightarrow> wn_state n = NS_Ready)"

definition externals :: "work_node list \<Rightarrow> string list" where
  "externals ns = List.map_filter (\<lambda>n. map_option ob_external (wn_binding n)) ns"

definition wf_history :: "work_graph_snapshot \<Rightarrow> bool" where
  "wf_history g \<longleftrightarrow>
     length (wg_history g) \<le> HISTORY_CAP \<and>
     sorted_wrt (<) (map cr_revision (wg_history g)) \<and>
     (\<forall>r \<in> set (wg_history g). cr_revision r \<le> saturating_inc (wg_revision g))"

definition well_formed :: "work_graph_snapshot \<Rightarrow> bool" where
  "well_formed g \<longleftrightarrow>
     wf_structure g \<and> wf_projection g \<and>
     length (wg_activities g) \<le> ACTIVITY_CAP \<and> (\<forall>a \<in> set (wg_activities g). activity_ok g a) \<and>
     acyclic (edge_rel g EK_DependsOn) \<and>
     (\<forall>n \<in> set (wg_nodes g). wf_node g n) \<and>
     distinct (externals (wg_nodes g)) \<and>
     wf_history g"

subsection \<open>Structure\<close>

lemma structural_nodes_Nil_iff:
  "structural_nodes ids ns = [] \<longleftrightarrow>
     distinct (map wn_id ns) \<and> wn_id ` set ns \<inter> ids = {} \<and>
     (\<forall>n \<in> set ns. wn_evidence n \<noteq> None \<longrightarrow> wn_kind n = NK_Evidence)"
  by (induction ns arbitrary: ids) auto

lemma structural_edges_Nil_iff:
  "structural_edges nids ids es = [] \<longleftrightarrow>
     distinct (map we_id es) \<and> we_id ` set es \<inter> ids = {} \<and>
     (\<forall>e \<in> set es. we_from e \<in> nids \<and> we_to e \<in> nids)"
  by (induction es arbitrary: ids) auto

lemma edge_rel_iff:
  "(i, j) \<in> edge_rel g k \<longleftrightarrow> (\<exists>e \<in> set (wg_edges g). we_kind e = k \<and> we_from e = i \<and> we_to e = j)"
  unfolding edge_rel_def by blast

lemma edge_rel_nodes:
  "(\<forall>k. edge_rel g k \<subseteq> node_ids g \<times> node_ids g) \<longleftrightarrow>
     (\<forall>e \<in> set (wg_edges g). we_from e \<in> node_ids g \<and> we_to e \<in> node_ids g)"
  by (auto simp: edge_rel_def)

lemma wg_node_kind_iff:
  assumes "distinct (map wn_id (wg_nodes g))"
  shows "(case wg_node g i of Some n \<Rightarrow> P n | None \<Rightarrow> False) \<longleftrightarrow> (\<exists>n \<in> set (wg_nodes g). wn_id n = i \<and> P n)"
proof (cases "wg_node g i")
  case None
  then have "i \<notin> wn_id ` set (wg_nodes g)" using wg_node_None by blast
  then have "\<not> (\<exists>n \<in> set (wg_nodes g). wn_id n = i \<and> P n)" by blast
  with None show ?thesis by simp
next
  case (Some m)
  then have "m \<in> set (wg_nodes g)" and "wn_id m = i" using wg_node_Some by blast+
  moreover have "n = m" if "n \<in> set (wg_nodes g)" and "wn_id n = i" for n
    using wg_node_unique [OF assms that(1)] that(2) Some by simp
  ultimately have "(\<exists>n \<in> set (wg_nodes g). wn_id n = i \<and> P n) \<longleftrightarrow> P m" by blast
  with Some show ?thesis by simp
qed

lemma plan_steps_iff:
  assumes "distinct (map wn_id (wg_nodes g))"
  shows "i \<in> plan_steps g \<longleftrightarrow> (case wg_node g i of Some n \<Rightarrow> wn_kind n = NK_PlanStep | None \<Rightarrow> False)"
  unfolding wg_node_kind_iff [OF assms] plan_steps_def image_iff by blast

lemma structural_plan_Nil_iff:
  assumes "distinct (map wn_id (wg_nodes g))"
  shows "structural_plan g ids is = [] \<longleftrightarrow> distinct is \<and> set is \<inter> ids = {} \<and> set is \<subseteq> plan_steps g"
proof (induction "is" arbitrary: ids)
  case (Cons i "is")
  then show ?case by (auto simp: plan_steps_iff [OF assms] split: option.splits if_splits)
qed simp

lemma plan_alias_iff:
  "plan_alias g i = Some n \<longleftrightarrow>
     unat i < length (cs_plan_order (wg_compat g)) \<and> cs_plan_order (wg_compat g) ! unat i = n"
  by (simp add: plan_alias_def Let_def)

lemma structural_todos_Cons_Nil:
  "structural_todos g ids (b # bs) = [] \<longleftrightarrow>
     tb_legacy_id b \<noteq> 0 \<and> tb_legacy_id b \<notin> ids \<and>
     (case wg_node g (tb_node b) of Some n \<Rightarrow> wn_kind n = NK_PlanStep | None \<Rightarrow> False) \<and>
     (\<forall>i. tb_plan_index b = Some i \<longrightarrow> plan_alias g i = Some (tb_node b)) \<and>
     structural_todos g (insert (tb_legacy_id b) ids) bs = []"
  by (cases "tb_legacy_id b = 0"; cases "tb_plan_index b"; cases "wg_node g (tb_node b)") simp_all

lemma structural_todos_Nil_iff:
  assumes "distinct (map wn_id (wg_nodes g))"
  shows "structural_todos g ids bs = [] \<longleftrightarrow>
    distinct (map tb_legacy_id bs) \<and> tb_legacy_id ` set bs \<inter> ids = {} \<and>
    (\<forall>b \<in> set bs. tb_legacy_id b \<noteq> 0 \<and> tb_node b \<in> plan_steps g \<and>
       (\<forall>i. tb_plan_index b = Some i \<longrightarrow> plan_alias g i = Some (tb_node b)))"
proof (induction bs arbitrary: ids)
  case (Cons b bs)
  show ?case
    unfolding structural_todos_Cons_Nil Cons plan_steps_iff [OF assms, of "tb_node b", symmetric] by auto
qed simp

lemma check_activity_Nil:
  "check_activity g a = [] \<longleftrightarrow>
     \<not> (ae_requested a = RE_ThinkingEnabledGranularityUnavailable \<or> ae_requested a = RE_Unavailable) \<and>
     \<not> (ae_provider a = [] \<or> length (ae_provider a) > 128 \<or>
        list_ex (\<lambda>ch. is_whitespace ch \<or> is_control ch) (ae_provider a)) \<and>
     (if provenance_is_bounded a
      then (the (ae_provider_kind a) = AP_Custom \<or> ae_provider a = ap_as_str (the (ae_provider_kind a))) \<and>
        activity_reasoning_check a = []
      else ae_effective a = RE_Unavailable) \<and>
     activity_operation_check g a = []"
  unfolding check_activity_def by (simp split: if_split)

lemma activity_operation_check_Nil:
  assumes "distinct (map wn_id (wg_nodes g))"
  shows "activity_operation_check g a = [] \<longleftrightarrow>
    (\<forall>i. ae_operation a = Some i \<longrightarrow> (\<exists>n \<in> set (wg_nodes g). wn_id n = i \<and> wn_kind n = NK_Operation))"
  unfolding wg_node_kind_iff [OF assms, symmetric] by (auto simp: activity_operation_check_def split: option.splits)

lemma activity_reasoning_check_Nil:
  "activity_reasoning_check a = [] \<longleftrightarrow>
     (if the (ae_provider_kind a) = AP_Custom then ae_effective a = RE_Unavailable
      else case constrained_effective_reasoning_for_route (ae_requested a) (the (ae_provider_kind a))
                  (the (ae_endpoint_identity a)) (the (ae_model a)) of
             Some expected \<Rightarrow> ae_effective a = expected
           | None \<Rightarrow> ae_effective a \<noteq> RE_ThinkingEnabledGranularityUnavailable)"
  by (simp add: activity_reasoning_check_def Let_def split: option.split)

lemma check_activity_Nil_iff:
  assumes "distinct (map wn_id (wg_nodes g))"
  shows "check_activity g a = [] \<longleftrightarrow> activity_ok g a"
proof -
  have "list_ex (\<lambda>ch. is_whitespace ch \<or> is_control ch) (ae_provider a) \<longleftrightarrow>
      \<not> (\<forall>c \<in> set (ae_provider a). \<not> is_whitespace c \<and> \<not> is_control c)"
    by (auto simp: list_ex_iff)
  then show ?thesis
    unfolding check_activity_Nil activity_operation_check_Nil [OF assms] activity_reasoning_check_Nil activity_ok_def
      not_less [symmetric] insert_iff empty_iff
    by argo
qed

lemma check_structural_Nil_iff:
  "check_structural g = [] \<longleftrightarrow>
     wf_structure g \<and> wf_projection g \<and>
     length (wg_activities g) \<le> ACTIVITY_CAP \<and> (\<forall>a \<in> set (wg_activities g). activity_ok g a)"
proof (cases "distinct (map wn_id (wg_nodes g))")
  case True
  have active: "todo_is_active g = (\<lambda>b. \<exists>n \<in> set (wg_nodes g). wn_id n = tb_node b \<and> wn_state n = NS_Active)"
    using wg_node_kind_iff [OF True] by (auto simp: fun_eq_iff todo_is_active_def)
  show ?thesis
    unfolding check_structural_def wf_structure_def wf_projection_def edge_rel_nodes append_is_Nil_conv
      node_ids_def [symmetric]
      structural_nodes_Nil_iff structural_edges_Nil_iff structural_plan_Nil_iff [OF True]
      structural_todos_Nil_iff [OF True] concat_eq_Nil_conv active plan_alias_iff
    by (simp add: check_activity_Nil_iff [OF True] not_less conj_ac)
next
  case False
  then show ?thesis by (simp add: check_structural_def wf_structure_def structural_nodes_Nil_iff)
qed

subsection \<open>Dependency cycles\<close>

definition cyclic_from :: "('a \<times> 'a) set \<Rightarrow> 'a \<Rightarrow> bool" where
  "cyclic_from E x \<longleftrightarrow> (\<exists>y. (x, y) \<in> E\<^sup>* \<and> (y, y) \<in> E\<^sup>+)"

lemma cyclic_from_step: "cyclic_from E x \<longleftrightarrow> (\<exists>y. (x, y) \<in> E \<and> cyclic_from E y)"
proof
  assume "cyclic_from E x"
  then obtain y where "(x, y) \<in> E\<^sup>*" and "(y, y) \<in> E\<^sup>+" by (auto simp: cyclic_from_def)
  then have "(x, y) \<in> E\<^sup>+" by (rule rtrancl_trancl_trancl)
  then obtain z where "(x, z) \<in> E" and "(z, y) \<in> E\<^sup>*" by (meson tranclD)
  with \<open>(y, y) \<in> E\<^sup>+\<close> show "\<exists>z. (x, z) \<in> E \<and> cyclic_from E z" by (auto simp: cyclic_from_def)
next
  assume "\<exists>y. (x, y) \<in> E \<and> cyclic_from E y"
  then show "cyclic_from E x" by (auto simp: cyclic_from_def intro: converse_rtrancl_into_rtrancl)
qed

lemma adjacent_iff: "n \<in> set (adjacent deps node) \<longleftrightarrow> (node, n) \<in> set deps"
  by (force simp: adjacent_def)

text \<open>
  The search: what it marks as done leads into no cycle, and when it fails the node it was called on
  leads into one. The nodes in progress are those from which the current node is reached.
\<close>

lemma visit_correct:
  "(\<forall>p \<in> in_progress. (p, node) \<in> (set deps)\<^sup>+) \<Longrightarrow> \<forall>x \<in> finished. \<not> cyclic_from (set deps) x \<Longrightarrow>
    visit deps in_progress node finished = (ok, finished') \<Longrightarrow>
    (if ok then finished \<subseteq> finished' \<and> node \<in> finished' \<and> (\<forall>x \<in> finished'. \<not> cyclic_from (set deps) x)
     else cyclic_from (set deps) node)"
  "(\<forall>n \<in> set ns. \<forall>p \<in> in_progress. (p, n) \<in> (set deps)\<^sup>+) \<Longrightarrow> \<forall>x \<in> finished. \<not> cyclic_from (set deps) x \<Longrightarrow>
    visit_all deps in_progress ns finished = (ok, finished') \<Longrightarrow>
    (if ok then finished \<subseteq> finished' \<and> set ns \<subseteq> finished' \<and> (\<forall>x \<in> finished'. \<not> cyclic_from (set deps) x)
     else \<exists>n \<in> set ns. cyclic_from (set deps) n)"
proof (induction deps in_progress node finished and deps in_progress ns finished
    arbitrary: ok finished' and ok finished' rule: visit_visit_all.induct)
  case (1 deps in_progress node finished)
  show ?case
  proof (cases "node \<in> finished \<or> node \<in> in_progress")
    case True
    with 1 show ?thesis by (auto simp: visit.simps cyclic_from_def split: if_splits)
  next
    case False
    obtain ok2 f2 where call: "visit_all deps (insert node in_progress) (adjacent deps node) finished = (ok2, f2)"
      by fastforce
    have "\<forall>n \<in> set (adjacent deps node). \<forall>p \<in> insert node in_progress. (p, n) \<in> (set deps)\<^sup>+"
      using "1.prems"(1) by (auto simp: adjacent_iff intro: trancl_into_trancl)
    from "1.IH" [OF _ _ this "1.prems"(2) call] False
    have "if ok2 then finished \<subseteq> f2 \<and> set (adjacent deps node) \<subseteq> f2 \<and> (\<forall>x \<in> f2. \<not> cyclic_from (set deps) x)
      else \<exists>n \<in> set (adjacent deps node). cyclic_from (set deps) n" by simp
    moreover have "ok = ok2" "finished' = insert node f2"
      using "1.prems"(3) False call by (auto simp: visit.simps)
    ultimately show ?thesis
      using cyclic_from_step [of "set deps" node] by (auto simp: adjacent_iff subset_iff split: if_splits)
  qed
next
  case (2 deps in_progress finished)
  then show ?case by simp
next
  case (3 deps in_progress n ns finished)
  obtain ok2 f2 where call: "visit deps in_progress n finished = (ok2, f2)" by fastforce
  have first: "if ok2 then finished \<subseteq> f2 \<and> n \<in> f2 \<and> (\<forall>x \<in> f2. \<not> cyclic_from (set deps) x)
      else cyclic_from (set deps) n"
    using "3.IH"(1) [OF _ "3.prems"(2) call] "3.prems"(1) by simp
  show ?case
  proof (cases ok2)
    case True
    with call "3.prems"(3) have rest: "visit_all deps in_progress ns f2 = (ok, finished')"
      by simp
    have "if ok then f2 \<subseteq> finished' \<and> set ns \<subseteq> finished' \<and> (\<forall>x \<in> finished'. \<not> cyclic_from (set deps) x)
      else \<exists>n \<in> set ns. cyclic_from (set deps) n"
      using "3.IH"(2) [OF call [symmetric] True _ _ rest] "3.prems"(1) first True by simp
    with first True show ?thesis by (auto split: if_splits)
  next
    case False
    with first call "3.prems"(3) show ?thesis by auto
  qed
qed

lemma v1_loop_Nil_iff:
  assumes "\<forall>x \<in> finished. \<not> cyclic_from (set deps) x"
  shows "v1_loop deps ns finished = [] \<longleftrightarrow> (\<forall>n \<in> set ns. \<not> cyclic_from (set deps) (wn_id n))"
  using assms
proof (induction ns arbitrary: finished)
  case (Cons n ns)
  obtain ok f where call: "visit deps {} (wn_id n) finished = (ok, f)" by fastforce
  from visit_correct(1) [OF _ Cons.prems call]
  have v: "if ok then wn_id n \<in> f \<and> (\<forall>x \<in> f. \<not> cyclic_from (set deps) x) else cyclic_from (set deps) (wn_id n)"
    by (auto split: if_splits)
  show ?case
  proof (cases ok)
    case True
    with v Cons.IH [of f] call show ?thesis by auto
  next
    case False
    with v call show ?thesis by simp
  qed
qed simp

lemma set_depends_on: "set (depends_on g) = edge_rel g EK_DependsOn"
  by (auto simp: depends_on_def edge_rel_def)

lemma check_v1_Nil_iff:
  assumes "wf_structure g"
  shows "check_v1_depends_on_acyclic g = [] \<longleftrightarrow> acyclic (edge_rel g EK_DependsOn)"
proof -
  have in_nodes: "\<exists>n \<in> set (wg_nodes g). cyclic_from (edge_rel g EK_DependsOn) (wn_id n)"
    if "(y, y) \<in> (edge_rel g EK_DependsOn)\<^sup>+" for y
  proof -
    have "y \<in> node_ids g" using tranclD [OF that] assms by (auto simp: wf_structure_def)
    then obtain n where "n \<in> set (wg_nodes g)" and "y = wn_id n" by (auto simp: node_ids_def)
    moreover have "cyclic_from (edge_rel g EK_DependsOn) y" using that unfolding cyclic_from_def by blast
    ultimately show ?thesis by blast
  qed
  have has_cycle: "\<exists>y. (y, y) \<in> (edge_rel g EK_DependsOn)\<^sup>+" if "cyclic_from (edge_rel g EK_DependsOn) x" for x
    using that unfolding cyclic_from_def by blast
  have "check_v1_depends_on_acyclic g = [] \<longleftrightarrow>
      (\<forall>n \<in> set (wg_nodes g). \<not> cyclic_from (edge_rel g EK_DependsOn) (wn_id n))"
    unfolding check_v1_depends_on_acyclic_def by (simp add: v1_loop_Nil_iff set_depends_on)
  with in_nodes has_cycle show ?thesis unfolding acyclic_def by metis
qed

subsection \<open>Ancestry\<close>

interpretation ancestry: worklist_search "climb g" "\<lambda>i. list_ex is_root_kind (contains_parents g i)" "\<lambda>i. False"
    "\<lambda>i. rev (map wn_id (contains_parents g i))" "climb_order g" for g
  by unfold_locales
    (auto simp: climb.simps Let_def wf_climb_order climb_order_pop climb_order_push)

lemma set_map_filter: "y \<in> set (List.map_filter f xs) \<longleftrightarrow> (\<exists>x \<in> set xs. f x = Some y)"
  by (induction xs) (auto split: option.splits)

lemma set_contains_parents:
  assumes "wf_structure g"
  shows "p \<in> set (contains_parents g i) \<longleftrightarrow>
    p \<in> set (wg_nodes g) \<and> (wn_id p, i) \<in> edge_rel g EK_Contains"
proof -
  have node: "wg_node g j = Some p \<longleftrightarrow> p \<in> set (wg_nodes g) \<and> wn_id p = j" for j
    using wg_node_Some wg_node_unique assms by (metis wf_structure_def)
  show ?thesis
    by (force simp: contains_parents_def set_map_filter edge_rel_def node)
qed

lemma ancestry_edges:
  assumes "wf_structure g"
  shows "ancestry.edges g = (edge_rel g EK_Contains)\<inverse>"
proof -
  have "j \<in> node_ids g" if "(j, i) \<in> edge_rel g EK_Contains" for i j
    using assms that by (auto simp: wf_structure_def)
  then show ?thesis
    by (force simp: ancestry.edges_def set_contains_parents [OF assms] node_ids_def)
qed

lemma climb_iff:
  assumes "wf_structure g"
  shows "climb g [i] {} \<longleftrightarrow>
    (\<exists>r \<in> set (wg_nodes g). is_root_kind r \<and> (wn_id r, i) \<in> (edge_rel g EK_Contains)\<^sup>+)"
proof -
  have "climb g [i] {} \<longleftrightarrow> ancestry.reaches g i"
    by (subst ancestry.run_iff_reaches) (auto simp: ancestry.explored_def)
  also have "\<dots> \<longleftrightarrow> (\<exists>j. (j, i) \<in> (edge_rel g EK_Contains)\<^sup>* \<and>
      (\<exists>r. r \<in> set (wg_nodes g) \<and> is_root_kind r \<and> (wn_id r, j) \<in> edge_rel g EK_Contains))"
    unfolding ancestry.reaches_def unfolding ancestry_edges [OF assms] rtrancl_converse list_ex_iff
      Bex_def set_contains_parents [OF assms] converse_iff by (simp add: conj_ac)
  also have "\<dots> \<longleftrightarrow> (\<exists>r \<in> set (wg_nodes g). is_root_kind r \<and> (wn_id r, i) \<in> (edge_rel g EK_Contains)\<^sup>+)"
    unfolding trancl_unfold_left relcomp_unfold by (simp add: Bex_def) metis
  finally show ?thesis .
qed

subsection \<open>Evidence, causes, identities and history\<close>

lemma requirement_satisfied_iff:
  assumes "wf_structure g"
  shows "requirement_satisfied (verifying_evidence g n) r \<longleftrightarrow>
    (\<exists>m \<in> set (wg_nodes g). \<exists>payload. wn_kind m = NK_Evidence \<and> wn_evidence m = Some payload \<and>
       is_satisfied_by r payload \<and> (wn_id m, wn_id n) \<in> edge_rel g EK_Verifies)"
proof -
  have node: "wg_node g j = Some p \<longleftrightarrow> p \<in> set (wg_nodes g) \<and> wn_id p = j" for j p
    using wg_node_Some wg_node_unique assms by (metis wf_structure_def)
  have "m \<in> set (verifying_evidence g n) \<longleftrightarrow>
      m \<in> set (wg_nodes g) \<and> wn_kind m = NK_Evidence \<and> (wn_id m, wn_id n) \<in> edge_rel g EK_Verifies" for m
    by (force simp: verifying_evidence_def set_map_filter edge_rel_def node)
  then show ?thesis
    by (auto simp: requirement_satisfied_def list_ex_iff split: option.splits)
qed

lemma blocked_has_cause_iff:
  assumes "wf_structure g"
  shows "blocked_has_cause g (wn_id n) \<longleftrightarrow> has_cause g n"
proof -
  have pending: "not_done g i \<longleftrightarrow> (\<exists>m \<in> set (wg_nodes g). wn_id m = i \<and> \<not> node_is_done m)" for i
    using assms by (simp add: not_done_def wg_node_kind_iff wf_structure_def)
  have blocks: "list_ex (\<lambda>e. we_kind e = EK_Blocks \<and> we_to e = wn_id n) (wg_edges g) \<longleftrightarrow>
      (\<exists>i. (i, wn_id n) \<in> edge_rel g EK_Blocks)"
    unfolding edge_rel_iff list_ex_iff by metis
  have waits: "list_ex (\<lambda>e. we_kind e = k \<and> we_from e = wn_id n \<and> not_done g (we_to e)) (wg_edges g) \<longleftrightarrow>
      (\<exists>m \<in> set (wg_nodes g). \<not> node_is_done m \<and> (wn_id n, wn_id m) \<in> edge_rel g k)" for k
    unfolding edge_rel_iff list_ex_iff pending by metis
  show ?thesis
    unfolding blocked_has_cause_def has_cause_def blocks waits conj_disj_distribL bex_disj_distrib by (rule refl)
qed

lemma externals_Cons:
  "externals (n # ns) = (case wn_binding n of None \<Rightarrow> externals ns | Some b \<Rightarrow> ob_external b # externals ns)"
  by (auto simp: externals_def List.map_filter_simps split: option.split)

lemma v6_loop_Nil_iff:
  "v6_loop known ns = [] \<longleftrightarrow>
     (\<forall>n \<in> set ns. \<forall>b. wn_binding n = Some b \<longrightarrow> external_identity_is_well_formed (ob_external b)) \<and>
     distinct (externals ns) \<and> set (externals ns) \<inter> dom known = {}"
proof (induction ns arbitrary: known)
  case (Cons n ns)
  then show ?case
    by (cases "wn_binding n") (auto simp: externals_Cons split: option.splits if_splits)
qed (simp add: externals_def List.map_filter_simps)

lemma v8_loop_Nil_iff:
  "v8_loop previous rs = [] \<longleftrightarrow>
     sorted_wrt (<) ((case previous of None \<Rightarrow> [] | Some p \<Rightarrow> [p]) @ map cr_revision rs)"
proof (induction rs arbitrary: previous)
  case (Cons r rs)
  then show ?case by (cases previous) (auto simp: not_le)
qed (simp split: option.split)

lemma last_greatest:
  assumes "sorted_wrt (<) xs" and "xs \<noteq> []"
  shows "(b :: u64) < last xs \<longleftrightarrow> (\<exists>x \<in> set xs. b < x)"
  using assms by (induction xs rule: rev_induct) (auto simp: sorted_wrt_append intro: less_trans)

lemma check_v8_Nil_iff: "check_v8_history_bounded_monotonic g = [] \<longleftrightarrow> wf_history g"
proof (cases "sorted_wrt (<) (map cr_revision (wg_history g)) \<and> wg_history g \<noteq> []")
  case True
  then have "saturating_inc (wg_revision g) < cr_revision (last (wg_history g)) \<longleftrightarrow>
      (\<exists>r \<in> set (wg_history g). saturating_inc (wg_revision g) < cr_revision r)"
    using last_greatest [of "map cr_revision (wg_history g)" "saturating_inc (wg_revision g)"] by (simp add: last_map)
  with True show ?thesis
    by (simp add: check_v8_history_bounded_monotonic_def wf_history_def v8_loop_Nil_iff not_less [symmetric])
next
  case False
  then show ?thesis
    by (auto simp: check_v8_history_bounded_monotonic_def wf_history_def v8_loop_Nil_iff not_less)
qed

lemma concat_map_Nil_iff: "concat (map f xs) = [] \<longleftrightarrow> (\<forall>x \<in> set xs. f x = [])"
  by (induction xs) auto

lemma concat_if_Nil_iff: "concat (map (\<lambda>x. if P x then [f x] else []) xs) = [] \<longleftrightarrow> (\<forall>x \<in> set xs. \<not> P x)"
  by (induction xs) auto

lemma concat_unless_Nil_iff: "concat (map (\<lambda>x. if P x then [] else [f x]) xs) = [] \<longleftrightarrow> (\<forall>x \<in> set xs. P x)"
  by (induction xs) auto

lemma guarded_Nil_iff: "(if a \<noteq> b then [] else if c then [x] else ys) = [] \<longleftrightarrow> (a = b \<longrightarrow> \<not> c \<and> ys = [])"
  by simp

lemma check_v2_Nil_iff:
  assumes "wf_structure g"
  shows "check_v2_live_operations_rooted g = [] \<longleftrightarrow>
    (\<forall>n \<in> set (wg_nodes g). wn_kind n = NK_Operation \<and> is_live (wn_state n) \<longrightarrow>
       (\<exists>r \<in> set (wg_nodes g). is_root_kind r \<and> (wn_id r, wn_id n) \<in> (edge_rel g EK_Contains)\<^sup>+))"
  unfolding check_v2_live_operations_rooted_def concat_if_Nil_iff v2_violated_def climb_iff [OF assms]
  by (intro ball_cong refl) argo

lemma check_v3_Nil_iff:
  "check_v3_binding_only_on_operations g = [] \<longleftrightarrow>
     (\<forall>n \<in> set (wg_nodes g). wn_binding n \<noteq> None \<longrightarrow> wn_kind n = NK_Operation)"
  unfolding check_v3_binding_only_on_operations_def concat_if_Nil_iff by (intro ball_cong refl) argo

lemma check_v4_Nil_iff:
  assumes "wf_structure g"
  shows "check_v4_verified_requires_evidence g = [] \<longleftrightarrow>
    (\<forall>n \<in> set (wg_nodes g). wn_state n = NS_Verified \<longrightarrow>
        wn_acceptance n \<noteq> [] \<and>
        (\<forall>r \<in> set (wn_acceptance n). \<exists>m \<in> set (wg_nodes g). \<exists>payload.
           wn_kind m = NK_Evidence \<and> wn_evidence m = Some payload \<and> is_satisfied_by r payload \<and>
           (wn_id m, wn_id n) \<in> edge_rel g EK_Verifies))"
  unfolding check_v4_verified_requires_evidence_def concat_map_Nil_iff [of _ "wg_nodes g"] guarded_Nil_iff
    concat_unless_Nil_iff requirement_satisfied_iff [OF assms] by (rule refl)

lemma check_v5_Nil_iff:
  assumes "wf_structure g"
  shows "check_v5_blocked_has_cause g = [] \<longleftrightarrow>
    (\<forall>n \<in> set (wg_nodes g). wn_state n = NS_Blocked \<longrightarrow> has_cause g n)"
  unfolding check_v5_blocked_has_cause_def concat_if_Nil_iff blocked_has_cause_iff [OF assms]
  by (intro ball_cong refl) argo

lemma check_v6_Nil_iff:
  "check_v6_binding_identity g = [] \<longleftrightarrow>
     (\<forall>n \<in> set (wg_nodes g). \<forall>b. wn_binding n = Some b \<longrightarrow> external_identity_is_well_formed (ob_external b)) \<and>
     distinct (externals (wg_nodes g))"
  unfolding check_v6_binding_identity_def v6_loop_Nil_iff by simp

lemma check_v7_Nil_iff:
  "check_v7_refs_inert g = [] \<longleftrightarrow>
     (\<forall>n \<in> set (wg_nodes g). wn_kind n \<in> {NK_RuntimeRef, NK_LaneRef} \<longrightarrow> wn_state n = NS_Ready)"
  unfolding check_v7_refs_inert_def concat_if_Nil_iff insert_iff empty_iff by (intro ball_cong refl) argo

lemma node_checks_Nil_iff:
  assumes "wf_structure g"
  shows "check_v2_live_operations_rooted g = [] \<and> check_v3_binding_only_on_operations g = [] \<and>
      check_v4_verified_requires_evidence g = [] \<and> check_v5_blocked_has_cause g = [] \<and>
      check_v6_binding_identity g = [] \<and> check_v7_refs_inert g = [] \<longleftrightarrow>
    (\<forall>n \<in> set (wg_nodes g). wf_node g n) \<and> distinct (externals (wg_nodes g))"
  unfolding check_v2_Nil_iff [OF assms] check_v3_Nil_iff check_v4_Nil_iff [OF assms] check_v5_Nil_iff [OF assms]
    check_v6_Nil_iff check_v7_Nil_iff wf_node_def ball_conj_distrib
  by argo

lemma all_violations_Nil_iff: "all_violations g = [] \<longleftrightarrow> well_formed g"
proof (cases "wf_structure g")
  case True
  then show ?thesis
    using check_structural_Nil_iff [of g] check_v1_Nil_iff [OF True] node_checks_Nil_iff [OF True]
      check_v8_Nil_iff [of g]
    unfolding all_violations_def well_formed_def append_is_Nil_conv by argo
next
  case False
  then show ?thesis
    using check_structural_Nil_iff [of g] by (simp add: all_violations_def well_formed_def)
qed

lemma validate_Inr_iff: "validate g = Inr u \<longleftrightarrow> well_formed g"
  by (simp add: validate_def all_violations_Nil_iff)

text \<open>
  C4. Validation decides the invariants of the work graph: the loops over hash sets, the search for
  dependency cycles and the walk up the containment edges find no violation just if identifiers are
  unique and references resolve, the dependencies are acyclic, every live operation is contained,
  over any number of steps, in an objective or plan step, verified nodes have evidence for every
  requirement, blocked nodes have a cause, bindings are unique, and the history is bounded and
  strictly increasing.
\<close>

theorem validate_decides: "validate g = Inr () \<longleftrightarrow> well_formed g"
  by (rule validate_Inr_iff)

end
