(* ===== verification/Work_Graph_Reducer.thy ===== *)
theory Work_Graph_Reducer
  imports Work_Graph_Validate
begin

text \<open>
  The write path of the work graph: \<open>tui/src/work_graph/reducer.rs\<close> and the wrapper \<open>WorkGraph\<close> of
  \<open>mod.rs\<close>. A fallible operation returns the report on the left or the next snapshot on the right;
  \<open>and_then\<close> is the code's question mark and \<open>for_each\<close> its loop with early return. The revision is
  a 64-bit word and its increment wraps, as it does in a release build.

  The lemmas say what one change does to a snapshot. The properties are about any number of them:
  every graph the reducer reaches is well formed, a replayed event changes nothing, a terminal node
  is left only by an explicit supersede, and what a user accepts is what they were shown.
\<close>

section \<open>Fallible steps\<close>

definition and_then :: "'e + 'a \<Rightarrow> ('a \<Rightarrow> 'e + 'b) \<Rightarrow> 'e + 'b" where
  "and_then r f = (case r of Inl e \<Rightarrow> Inl e | Inr x \<Rightarrow> f x)"

primrec for_each :: "('x \<Rightarrow> 's \<Rightarrow> 'e + 's) \<Rightarrow> 'x list \<Rightarrow> 's \<Rightarrow> 'e + 's" where
  "for_each f [] s = Inr s"
| "for_each f (x # xs) s = and_then (f x s) (for_each f xs)"

definition structural :: "string \<Rightarrow> validation_report" where
  "structural message = report_single VC_Structural message"

section \<open>Changes of the node and edge lists\<close>

definition add_node :: "work_node \<Rightarrow> work_graph_snapshot \<Rightarrow> validation_report + work_graph_snapshot" where
  "add_node n g =
     (if wg_node g (wn_id n) \<noteq> None then Inl (structural (''duplicate node '' @ wn_id n))
      else Inr (g \<lparr> wg_nodes := wg_nodes g @ [n] \<rparr>))"

definition add_edge :: "work_edge \<Rightarrow> work_graph_snapshot \<Rightarrow> validation_report + work_graph_snapshot" where
  "add_edge e g =
     (if wg_edge g (we_id e) \<noteq> None then Inl (structural (''duplicate edge '' @ we_id e))
      else case find (\<lambda>endpoint. wg_node g endpoint = None) [we_from e, we_to e] of
             Some endpoint \<Rightarrow> Inl (structural (''edge '' @ we_id e @ '' references missing node '' @ endpoint))
           | None \<Rightarrow> Inr (g \<lparr> wg_edges := wg_edges g @ [e] \<rparr>))"

definition remove_edge :: "work_edge_id \<Rightarrow> work_graph_snapshot \<Rightarrow> validation_report + work_graph_snapshot" where
  "remove_edge i g =
     (let kept = filter (\<lambda>e. we_id e \<noteq> i) (wg_edges g)
      in if length kept = length (wg_edges g) then Inl (structural (''edge '' @ i @ '' not found''))
         else Inr (g \<lparr> wg_edges := kept \<rparr>))"

definition remove_node :: "work_node_id \<Rightarrow> work_graph_snapshot \<Rightarrow> validation_report + work_graph_snapshot" where
  "remove_node i g =
     (if list_ex (\<lambda>e. we_from e = i \<or> we_to e = i) (wg_edges g)
      then Inl (structural (''node '' @ i @ '' still has edges after proposed removals''))
      else let kept = filter (\<lambda>n. wn_id n \<noteq> i) (wg_nodes g)
           in if length kept = length (wg_nodes g) then Inl (structural (''node '' @ i @ '' not found''))
              else Inr (g \<lparr> wg_nodes := kept \<rparr>))"

definition patched :: "work_node_patch \<Rightarrow> ts \<Rightarrow> work_node \<Rightarrow> work_node" where
  "patched p now n =
     n \<lparr> wn_title := (case np_title p of Some t \<Rightarrow> t | None \<Rightarrow> wn_title n),
         wn_state := (case np_state p of Some s \<Rightarrow> s | None \<Rightarrow> wn_state n),
         wn_acceptance := (case np_acceptance p of Some a \<Rightarrow> a | None \<Rightarrow> wn_acceptance n),
         wn_provenance := (case np_provenance p of Some v \<Rightarrow> v | None \<Rightarrow> wn_provenance n),
         wn_updated_at := now \<rparr>"

definition patch_node ::
  "work_node_id \<Rightarrow> work_node_patch \<Rightarrow> ts \<Rightarrow> work_graph_snapshot \<Rightarrow> validation_report + work_graph_snapshot" where
  "patch_node i p now g =
     (case wg_node g i of
        None \<Rightarrow> Inl (structural (''node '' @ i @ '' not found''))
      | Some n \<Rightarrow>
          if is_terminal (wn_state n) \<and> np_state p \<noteq> None \<and> the (np_state p) \<noteq> wn_state n
          then Inl (report_single VC_V9 (''node '' @ i @ '' is terminal ('' @ debug_node_state (wn_state n) @
                 '') and cannot move to '' @ debug_node_state (the (np_state p)) @
                 ''. Re-sending its current state is fine; changing it needs Supersede.''))
          else Inr (node_mut i (patched p now) g))"

section \<open>Owner observations\<close>

primrec owner_node_state :: "owner_state \<Rightarrow> node_state" where
  "owner_node_state OS_Initializing = NS_Initializing"
| "owner_node_state OS_Running = NS_Active"
| "owner_node_state OS_Waiting = NS_Waiting"
| "owner_node_state OS_Completed = NS_Completed"
| "owner_node_state OS_Degraded = NS_Completed"
| "owner_node_state OS_Failed = NS_Failed"
| "owner_node_state OS_Cancelled = NS_Cancelled"

primrec cancel_node_state :: "cancel_outcome \<Rightarrow> node_state option" where
  "cancel_node_state CO_Requested = None"
| "cancel_node_state CO_Acknowledged = None"
| "cancel_node_state CO_Forced = Some NS_Cancelled"
| "cancel_node_state CO_AlreadyFinished = None"
| "cancel_node_state CO_NotFound = Some NS_Stale"
| "cancel_node_state CO_StaleUnknown = Some NS_Stale"

primrec observed_state :: "operation_observation \<Rightarrow> node_state option" where
  "observed_state (OwnerReported state seq at output) = Some (owner_node_state state)"
| "observed_state (OwnerMissing at) = Some NS_Stale"
| "observed_state (CancelUpdate outcome at) = cancel_node_state outcome"

primrec observed_binding :: "operation_observation \<Rightarrow> operation_binding \<Rightarrow> operation_binding" where
  "observed_binding (OwnerReported state seq at output) b =
     b \<lparr> ob_last_observation :=
       Some \<lparr> os_owner_state = state, os_seq = seq, os_observed_at = at, os_output = output \<rparr> \<rparr>"
| "observed_binding (OwnerMissing at) b = b"
| "observed_binding (CancelUpdate outcome at) b = b"

definition reconciled :: "operation_observation \<Rightarrow> ts \<Rightarrow> work_node \<Rightarrow> work_node" where
  "reconciled obs now n =
     n \<lparr> wn_binding := map_option (observed_binding obs) (wn_binding n),
         wn_state := (case observed_state obs of
                        Some s \<Rightarrow> if is_terminal (wn_state n) then wn_state n else s
                      | None \<Rightarrow> wn_state n),
         wn_updated_at := now \<rparr>"

definition reconcile ::
  "work_node_id \<Rightarrow> operation_observation \<Rightarrow> change_ctx \<Rightarrow> work_graph_snapshot \<Rightarrow>
   validation_report + work_graph_snapshot" where
  "reconcile i obs ctx g =
     (case wg_node g i of
        None \<Rightarrow> Inl (structural (''node '' @ i @ '' not found''))
      | Some n \<Rightarrow>
          if wn_binding n = None then Inl (structural (''node '' @ i @ '' has no operation binding''))
          else Inr (node_mut i (reconciled obs (cc_now ctx)) g))"

section \<open>Evidence\<close>

definition evidence_id :: "(string \<Rightarrow> string) \<Rightarrow> string \<Rightarrow> work_node_id \<Rightarrow> evidence_ref \<Rightarrow> work_node_id" where
  "evidence_id sha session target e =
     derive_node_id sha session (''evidence:'' @ target @ '':'' @ er_reference e)"

definition evidence_node :: "(string \<Rightarrow> string) \<Rightarrow> work_node_id \<Rightarrow> evidence_ref \<Rightarrow> change_ctx \<Rightarrow> work_node" where
  "evidence_node sha target e ctx =
     \<lparr> wn_id = evidence_id sha (cc_session_id ctx) target e, wn_kind = NK_Evidence,
       wn_title = ''evidence: '' @ er_reference e, wn_state = NS_Completed, wn_acceptance = [],
       wn_binding = None, wn_evidence = Some e,
       wn_provenance = RuntimeReconcile ''attach_evidence'' (cc_now ctx),
       wn_created_at = cc_now ctx, wn_updated_at = cc_now ctx \<rparr>"

definition evidence_edge :: "(string \<Rightarrow> string) \<Rightarrow> work_node_id \<Rightarrow> evidence_ref \<Rightarrow> change_ctx \<Rightarrow> work_edge" where
  "evidence_edge sha target e ctx =
     (let ident = evidence_id sha (cc_session_id ctx) target e
      in \<lparr> we_id = derive_edge_id sha (cc_session_id ctx) (''verifies:'' @ ident @ '':'' @ target),
           we_kind = EK_Verifies, we_from = ident, we_to = target \<rparr>)"

definition attach_evidence ::
  "(string \<Rightarrow> string) \<Rightarrow> work_node_id \<Rightarrow> evidence_ref \<Rightarrow> change_ctx \<Rightarrow> work_graph_snapshot \<Rightarrow>
   validation_report + work_graph_snapshot" where
  "attach_evidence sha target e ctx g =
     (if wg_node g target = None then Inl (structural (''node '' @ target @ '' not found''))
      else and_then (add_node (evidence_node sha target e ctx) g) (add_edge (evidence_edge sha target e ctx)))"

section \<open>Plan proposals\<close>

definition apply_proposal ::
  "work_graph_proposal \<Rightarrow> change_ctx \<Rightarrow> work_graph_snapshot \<Rightarrow> validation_report + work_graph_snapshot" where
  "apply_proposal p ctx g =
     and_then (for_each add_node (wp_added_nodes p) g) (\<lambda>g1.
     and_then (for_each add_edge (wp_added_edges p) g1) (\<lambda>g2.
     and_then (for_each (\<lambda>u. patch_node (pu_id u) (pu_patch u) (cc_now ctx)) (wp_updated_nodes p) g2) (\<lambda>g3.
     and_then (for_each remove_edge (wp_removed_edges p) g3) (\<lambda>g4.
     and_then (for_each remove_node (wp_removed_nodes p) g4) (\<lambda>g5.
     Inr (case wp_replacement_compat p of Some c \<Rightarrow> g5 \<lparr> wg_compat := c \<rparr> | None \<Rightarrow> g5))))))"

definition preview_plan_diff ::
  "work_graph_snapshot \<Rightarrow> work_graph_proposal \<Rightarrow> change_ctx \<Rightarrow> validation_report + work_graph_snapshot" where
  "preview_plan_diff current p ctx =
     and_then (apply_proposal p ctx current) (\<lambda>candidate. and_then (validate candidate) (\<lambda>_. Inr candidate))"

definition validate_proposal ::
  "work_graph_snapshot \<Rightarrow> work_graph_proposal \<Rightarrow> change_ctx \<Rightarrow> validation_report + unit" where
  "validate_proposal current p ctx = and_then (preview_plan_diff current p ctx) (\<lambda>_. Inr ())"

definition approval_node :: "(string \<Rightarrow> string) \<Rightarrow> proposal_id \<Rightarrow> approval_ref \<Rightarrow> change_ctx \<Rightarrow> work_node" where
  "approval_node sha pid approval ctx =
     \<lparr> wn_id = derive_node_id sha (cc_session_id ctx) (''approval:'' @ pid), wn_kind = NK_Approval,
       wn_title = ''plan diff approved: '' @ ap_reference approval, wn_state = NS_Completed, wn_acceptance = [],
       wn_binding = None, wn_evidence = None, wn_provenance = UserEdit pid,
       wn_created_at = cc_now ctx, wn_updated_at = cc_now ctx \<rparr>"

definition propose_plan_diff ::
  "work_graph_proposal \<Rightarrow> change_ctx \<Rightarrow> work_graph_snapshot \<Rightarrow> validation_report + work_graph_snapshot" where
  "propose_plan_diff p ctx g =
     (if list_ex (\<lambda>q. wp_id q = wp_id p) (wg_proposals g)
      then Inl (structural (''duplicate proposal '' @ wp_id p))
      else and_then (validate_proposal g p ctx) (\<lambda>_. Inr (g \<lparr> wg_proposals := wg_proposals g @ [p] \<rparr>)))"

definition withdraw_plan_diff ::
  "proposal_id \<Rightarrow> work_graph_snapshot \<Rightarrow> validation_report + work_graph_snapshot" where
  "withdraw_plan_diff pid g =
     (let kept = filter (\<lambda>p. wp_id p \<noteq> pid) (wg_proposals g)
      in if length kept = length (wg_proposals g) then Inl (structural (''proposal '' @ pid @ '' not found''))
         else Inr (g \<lparr> wg_proposals := kept \<rparr>))"

text \<open>\<open>remove_first\<close> is \<open>position\<close> followed by \<open>remove\<close>.\<close>

fun remove_first :: "('a \<Rightarrow> bool) \<Rightarrow> 'a list \<Rightarrow> ('a \<times> 'a list) option" where
  "remove_first P [] = None"
| "remove_first P (x # xs) =
     (if P x then Some (x, xs)
      else case remove_first P xs of None \<Rightarrow> None | Some (y, ys) \<Rightarrow> Some (y, x # ys))"

definition accept_plan_diff ::
  "(string \<Rightarrow> string) \<Rightarrow> proposal_id \<Rightarrow> approval_ref \<Rightarrow> change_ctx \<Rightarrow> work_graph_snapshot \<Rightarrow>
   validation_report + work_graph_snapshot" where
  "accept_plan_diff sha pid approval ctx g =
     (case remove_first (\<lambda>p. wp_id p = pid) (wg_proposals g) of
        None \<Rightarrow> Inl (structural (''proposal '' @ pid @ '' not found''))
      | Some (p, rest) \<Rightarrow>
          and_then (apply_proposal p ctx (g \<lparr> wg_proposals := rest \<rparr>))
            (add_node (approval_node sha pid approval ctx)))"

section \<open>The remaining changes and the reducer\<close>

definition bind_operation ::
  "work_node_id \<Rightarrow> operation_binding \<Rightarrow> change_ctx \<Rightarrow> work_graph_snapshot \<Rightarrow>
   validation_report + work_graph_snapshot" where
  "bind_operation i b ctx g =
     (if wg_node g i = None then Inl (structural (''node '' @ i @ '' not found''))
      else Inr (node_mut i (\<lambda>n. n \<lparr> wn_binding := Some b, wn_updated_at := cc_now ctx \<rparr>) g))"

definition supersedes_edge :: "(string \<Rightarrow> string) \<Rightarrow> work_node_id \<Rightarrow> work_node_id \<Rightarrow> change_ctx \<Rightarrow> work_edge" where
  "supersedes_edge sha old replacement ctx =
     \<lparr> we_id = derive_edge_id sha (cc_session_id ctx) (''supersedes:'' @ replacement @ '':'' @ old),
       we_kind = EK_Supersedes, we_from = replacement, we_to = old \<rparr>"

definition supersede ::
  "(string \<Rightarrow> string) \<Rightarrow> work_node_id \<Rightarrow> work_node_id \<Rightarrow> change_ctx \<Rightarrow> work_graph_snapshot \<Rightarrow>
   validation_report + work_graph_snapshot" where
  "supersede sha old replacement ctx g =
     (if old = replacement then Inl (structural ''node cannot supersede itself'')
      else if wg_node g replacement = None
        then Inl (structural (''replacement node '' @ replacement @ '' not found''))
      else if wg_node g old = None then Inl (structural (''node '' @ old @ '' not found''))
      else add_edge (supersedes_edge sha old replacement ctx)
             (node_mut old (\<lambda>n. n \<lparr> wn_state := NS_Superseded, wn_updated_at := cc_now ctx \<rparr>) g))"

definition record_activity ::
  "work_activity_event \<Rightarrow> work_graph_snapshot \<Rightarrow> validation_report + work_graph_snapshot" where
  "record_activity a g =
     (let pushed = Inr (g \<lparr> wg_activities := push_bounded ACTIVITY_CAP a (wg_activities g) \<rparr>)
      in case ae_operation a of
           None \<Rightarrow> pushed
         | Some operation \<Rightarrow>
             (case wg_node g operation of
                None \<Rightarrow> Inl (structural (''activity references missing operation '' @ operation))
              | Some n \<Rightarrow>
                  if wn_kind n \<noteq> NK_Operation \<or> \<not> is_live (wn_state n)
                  then Inl (structural (''activity operation '' @ operation @ '' is not live''))
                  else pushed))"

primrec apply_pure ::
  "(string \<Rightarrow> string) \<Rightarrow> work_graph_snapshot \<Rightarrow> change_ctx \<Rightarrow> work_graph_change \<Rightarrow>
   validation_report + work_graph_snapshot" where
  "apply_pure sha g ctx (AddNode n) = add_node n g"
| "apply_pure sha g ctx (UpdateNode i p) = patch_node i p (cc_now ctx) g"
| "apply_pure sha g ctx (AddEdge e) = add_edge e g"
| "apply_pure sha g ctx (RemoveEdge i) = remove_edge i g"
| "apply_pure sha g ctx (BindOperation i b) = bind_operation i b ctx g"
| "apply_pure sha g ctx (ReconcileOperation i obs) = reconcile i obs ctx g"
| "apply_pure sha g ctx (AttachEvidence i e) = attach_evidence sha i e ctx g"
| "apply_pure sha g ctx (ProposePlanDiff p) = propose_plan_diff p ctx g"
| "apply_pure sha g ctx (WithdrawPlanDiff pid) = withdraw_plan_diff pid g"
| "apply_pure sha g ctx (AcceptPlanDiff pid approval) = accept_plan_diff sha pid approval ctx g"
| "apply_pure sha g ctx (Supersede old replacement) = supersede sha old replacement ctx g"
| "apply_pure sha g ctx (ReplaceCompatProjection c) = Inr (g \<lparr> wg_compat := c \<rparr>)"
| "apply_pure sha g ctx (SetImportDigest d) =
     (if d = [] then Inl (structural ''legacy import digest cannot be empty'')
      else Inr (g \<lparr> wg_import_digest := Some d \<rparr>))"
| "apply_pure sha g ctx (RecordActivity a) = record_activity a g"

definition noop_receipt ::
  "(string \<Rightarrow> string) \<Rightarrow> work_graph_snapshot \<Rightarrow> work_graph_change \<Rightarrow> change_ctx \<Rightarrow> idempotency_key \<Rightarrow> change_receipt" where
  "noop_receipt sha g change ctx key =
     \<lparr> cr_change_id = derive_change_id sha (cc_session_id ctx)
         (''noop:'' @ ik_binding key @ '':'' @ show_nat (unat (ik_seq key))),
       cr_revision = wg_revision g, cr_summary = kind_name change @ '' (duplicate)'',
       cr_applied_at = cc_now ctx, cr_idempotency_key = Some key, cr_no_op = True \<rparr>"

definition is_duplicate :: "work_graph_snapshot \<Rightarrow> change_ctx \<Rightarrow> bool" where
  "is_duplicate g ctx =
     (case cc_idempotency_key ctx of Some key \<Rightarrow> bounded_set_contains (wg_seen_keys g) key | None \<Rightarrow> False)"

definition commit ::
  "(string \<Rightarrow> string) \<Rightarrow> work_graph_snapshot \<Rightarrow> work_graph_change \<Rightarrow> change_ctx \<Rightarrow> work_graph_snapshot \<Rightarrow>
   work_graph_snapshot \<times> change_receipt" where
  "commit sha g change ctx candidate =
     (let revision = wg_revision g + 1;
          receipt = receipt_of sha change revision ctx
      in (candidate \<lparr> wg_revision := revision,
            wg_history := push_bounded HISTORY_CAP receipt (wg_history candidate),
            wg_seen_keys := (case cc_idempotency_key ctx of
                               Some key \<Rightarrow> fst (bounded_set_insert SEEN_KEYS_CAP key (wg_seen_keys candidate))
                             | None \<Rightarrow> wg_seen_keys candidate) \<rparr>, receipt))"

definition apply_change ::
  "(string \<Rightarrow> string) \<Rightarrow> work_graph_snapshot \<Rightarrow> work_graph_change \<Rightarrow> change_ctx \<Rightarrow>
   validation_report + work_graph_snapshot \<times> change_receipt" where
  "apply_change sha g change ctx =
     (if is_duplicate g ctx
      then Inr (g, noop_receipt sha g change ctx (the (cc_idempotency_key ctx)))
      else and_then (apply_pure sha g ctx change) (\<lambda>candidate.
           and_then (validate candidate) (\<lambda>_. Inr (commit sha g change ctx candidate))))"

text \<open>The method of \<open>WorkGraph\<close>: the snapshot it holds afterwards, and its result.\<close>

definition work_graph_apply ::
  "(string \<Rightarrow> string) \<Rightarrow> work_graph_change \<Rightarrow> change_ctx \<Rightarrow> work_graph_snapshot \<Rightarrow>
   work_graph_snapshot \<times> (validation_report + change_receipt)" where
  "work_graph_apply sha change ctx g =
     (case apply_change sha g change ctx of
        Inl report \<Rightarrow> (g, Inl report)
      | Inr (g', receipt) \<Rightarrow> (g', Inr receipt))"

section \<open>What the steps keep\<close>

lemma and_then_Inr [simp]: "and_then r f = Inr y \<longleftrightarrow> (\<exists>x. r = Inr x \<and> f x = Inr y)"
  by (auto simp: and_then_def split: sum.split)

lemma and_then_simps [simp]: "and_then (Inl e) f = Inl e" "and_then (Inr x) f = f x"
  by (simp_all add: and_then_def)

lemma for_each_invariant:
  assumes "for_each f xs s = Inr s'" and "I s" and "\<And>x s s'. x \<in> set xs \<Longrightarrow> f x s = Inr s' \<Longrightarrow> I s \<Longrightarrow> I s'"
  shows "I s'"
  using assms
proof (induction xs arbitrary: s)
  case (Cons x xs)
  then obtain s1 where "f x s = Inr s1" and "for_each f xs s1 = Inr s'" by auto
  with Cons show ?case by (metis list.set_intros)
qed simp

text \<open>The successful outcomes of the elementary steps, as updates of the snapshot.\<close>

lemma add_node_Inr: "add_node n g = Inr g' \<longleftrightarrow> wg_node g (wn_id n) = None \<and> g' = g \<lparr> wg_nodes := wg_nodes g @ [n] \<rparr>"
  by (auto simp: add_node_def)

lemma add_edge_Inr:
  "add_edge e g = Inr g' \<longleftrightarrow> wg_edge g (we_id e) = None \<and> wg_node g (we_from e) \<noteq> None \<and>
     wg_node g (we_to e) \<noteq> None \<and> g' = g \<lparr> wg_edges := wg_edges g @ [e] \<rparr>"
  by (auto simp: add_edge_def)

lemma remove_edge_Inr:
  "remove_edge i g = Inr g' \<Longrightarrow> g' = g \<lparr> wg_edges := filter (\<lambda>e. we_id e \<noteq> i) (wg_edges g) \<rparr>"
  by (auto simp: remove_edge_def Let_def split: if_splits)

lemma remove_node_Inr:
  "remove_node i g = Inr g' \<Longrightarrow> g' = g \<lparr> wg_nodes := filter (\<lambda>n. wn_id n \<noteq> i) (wg_nodes g) \<rparr>"
  by (auto simp: remove_node_def Let_def split: if_splits)

lemma patch_node_Inr:
  "patch_node i p now g = Inr g' \<longleftrightarrow> (\<exists>n. wg_node g i = Some n \<and>
     (is_terminal (wn_state n) \<longrightarrow> np_state p = None \<or> np_state p = Some (wn_state n)) \<and>
     g' = node_mut i (patched p now) g)"
  by (cases "np_state p") (auto simp: patch_node_def split: option.splits)

lemma reconcile_Inr:
  "reconcile i obs ctx g = Inr g' \<longleftrightarrow>
     (\<exists>n. wg_node g i = Some n \<and> wn_binding n \<noteq> None \<and> g' = node_mut i (reconciled obs (cc_now ctx)) g)"
  by (auto simp: reconcile_def split: option.splits)

lemmas step_outcomes = add_node_Inr add_edge_Inr patch_node_Inr reconcile_Inr

subsection \<open>The log\<close>

text \<open>Revision, history and seen keys are written by \<open>apply\<close> alone.\<close>

definition graph_log :: "work_graph_snapshot \<Rightarrow> u64 \<times> change_receipt list \<times> idempotency_key list" where
  "graph_log g = (wg_revision g, wg_history g, wg_seen_keys g)"

lemma graph_log_simps [simp]:
  "graph_log (g \<lparr> wg_nodes := ns \<rparr>) = graph_log g"
  "graph_log (g \<lparr> wg_edges := es \<rparr>) = graph_log g"
  "graph_log (g \<lparr> wg_proposals := ps \<rparr>) = graph_log g"
  "graph_log (g \<lparr> wg_compat := c \<rparr>) = graph_log g"
  "graph_log (g \<lparr> wg_activities := as \<rparr>) = graph_log g"
  "graph_log (g \<lparr> wg_import_digest := d \<rparr>) = graph_log g"
  "graph_log (node_mut i f g) = graph_log g"
  by (simp_all add: graph_log_def)

lemma apply_proposal_steps:
  assumes "apply_proposal p ctx g = Inr g'"
  obtains g1 g2 g3 g4 g5 where
    "for_each add_node (wp_added_nodes p) g = Inr g1" "for_each add_edge (wp_added_edges p) g1 = Inr g2"
    "for_each (\<lambda>u. patch_node (pu_id u) (pu_patch u) (cc_now ctx)) (wp_updated_nodes p) g2 = Inr g3"
    "for_each remove_edge (wp_removed_edges p) g3 = Inr g4" "for_each remove_node (wp_removed_nodes p) g4 = Inr g5"
    "g' = (case wp_replacement_compat p of Some c \<Rightarrow> g5 \<lparr> wg_compat := c \<rparr> | None \<Rightarrow> g5)"
  using assms by (auto simp: apply_proposal_def)

lemma apply_proposal_log:
  assumes "apply_proposal p ctx g = Inr g'"
  shows "graph_log g' = graph_log g"
proof -
  from assms obtain g1 g2 g3 g4 g5 where steps:
    "for_each add_node (wp_added_nodes p) g = Inr g1" "for_each add_edge (wp_added_edges p) g1 = Inr g2"
    "for_each (\<lambda>u. patch_node (pu_id u) (pu_patch u) (cc_now ctx)) (wp_updated_nodes p) g2 = Inr g3"
    "for_each remove_edge (wp_removed_edges p) g3 = Inr g4" "for_each remove_node (wp_removed_nodes p) g4 = Inr g5"
    and g': "g' = (case wp_replacement_compat p of Some c \<Rightarrow> g5 \<lparr> wg_compat := c \<rparr> | None \<Rightarrow> g5)"
    by (rule apply_proposal_steps)
  note step = for_each_invariant [where I = "\<lambda>s. graph_log s = graph_log g"]
  have "graph_log g1 = graph_log g" by (rule step [OF steps(1)]) (auto simp: add_node_Inr)
  then have "graph_log g2 = graph_log g" by (rule step [OF steps(2)]) (auto simp: add_edge_Inr)
  then have "graph_log g3 = graph_log g" by (rule step [OF steps(3)]) (auto simp: patch_node_Inr)
  then have "graph_log g4 = graph_log g" by (rule step [OF steps(4)]) (auto dest: remove_edge_Inr)
  then have "graph_log g5 = graph_log g" by (rule step [OF steps(5)]) (auto dest: remove_node_Inr)
  then show ?thesis by (simp add: g' split: option.split)
qed

lemma apply_pure_log: "apply_pure sha g ctx change = Inr g' \<Longrightarrow> graph_log g' = graph_log g"
  by (cases change)
    (auto simp: step_outcomes bind_operation_def attach_evidence_def propose_plan_diff_def withdraw_plan_diff_def
      accept_plan_diff_def supersede_def record_activity_def Let_def
      dest!: remove_edge_Inr apply_proposal_log split: if_splits option.splits)

lemma apply_change_Inr:
  assumes "apply_change sha g change ctx = Inr (g', r)" and "\<not> is_duplicate g ctx"
  obtains candidate where "apply_pure sha g ctx change = Inr candidate" and "well_formed candidate"
    and "graph_log candidate = graph_log g" and "(g', r) = commit sha g change ctx candidate"
  using assms apply_pure_log by (auto simp: apply_change_def validate_Inr_iff)

subsection \<open>The invariant\<close>

definition graph_inv :: "work_graph_snapshot \<Rightarrow> bool" where
  "graph_inv g \<longleftrightarrow> well_formed g \<and> (\<forall>r \<in> set (wg_history g). cr_revision r \<le> wg_revision g)"

lemma well_formed_relog:
  assumes "well_formed g" and "wf_history (g \<lparr> wg_revision := r, wg_history := h, wg_seen_keys := k \<rparr>)"
  shows "well_formed (g \<lparr> wg_revision := r, wg_history := h, wg_seen_keys := k \<rparr>)"
  using assms
  by (simp add: well_formed_def wf_structure_def wf_projection_def activity_ok_def wf_node_def has_cause_def
      edge_rel_def node_ids_def plan_steps_def)

lemma u64_less_inc: "(a :: u64) \<noteq> - 1 \<Longrightarrow> a < a + 1"
  by (metis add.commute lessI unatSuc word_less_nat_alt add_eq_0_iff)

lemma saturating_inc_ge: "a \<le> saturating_inc a"
  using u64_less_inc [of a] by (auto simp: saturating_inc_def)

lemma sorted_push_bounded:
  assumes "sorted_wrt (<) (map f xs)" and "\<forall>x \<in> set xs. f x < f y"
  shows "sorted_wrt (<) (map f (push_bounded n y xs))"
  using assms by (cases xs) (auto simp: push_bounded_def sorted_wrt_append)

lemma receipt_revision: "cr_revision (receipt_of sha change revision ctx) = revision"
  by (simp add: receipt_of_def)

lemma commit_inv:
  assumes "well_formed candidate" and "graph_log candidate = graph_log g" and "graph_inv g" and "wg_revision g \<noteq> - 1"
  shows "graph_inv (fst (commit sha g change ctx candidate))"
proof -
  let ?g' = "fst (commit sha g change ctx candidate)"
  have below: "cr_revision r < wg_revision g + 1" if "r \<in> set (wg_history g)" for r
    using assms(3) that u64_less_inc [OF assms(4)] by (auto simp: graph_inv_def intro: le_less_trans)
  have hist: "wg_history ?g' = push_bounded HISTORY_CAP (receipt_of sha change (wg_revision g + 1) ctx) (wg_history g)"
    and rev: "wg_revision ?g' = wg_revision g + 1"
    using assms(2) by (simp_all add: commit_def Let_def graph_log_def)
  have upto: "cr_revision r \<le> wg_revision g + 1" if "r \<in> set (wg_history ?g')" for r
    using subsetD [OF history_log.insert_set that [unfolded hist]] below [of r] by (auto simp: receipt_revision)
  have "sorted_wrt (<) (map cr_revision (wg_history ?g'))"
    unfolding hist using assms(3) below
    by (intro sorted_push_bounded) (auto simp: graph_inv_def well_formed_def wf_history_def receipt_revision)
  moreover have "length (wg_history ?g') \<le> HISTORY_CAP"
    unfolding hist using assms(3)
    by (intro history_log.bounded) (simp add: graph_inv_def well_formed_def wf_history_def)
  ultimately have "wf_history ?g'"
    using upto saturating_inc_ge [of "wg_revision g + 1"] unfolding wf_history_def rev by (meson order.trans)
  then have "well_formed ?g'"
    using well_formed_relog [OF assms(1)] by (simp add: commit_def Let_def)
  with upto show ?thesis unfolding graph_inv_def rev by blast
qed

text \<open>Graphs the wrapper holds after a number of changes, accepted or rejected, from the empty graph.\<close>

inductive graph_reachable :: "(string \<Rightarrow> string) \<Rightarrow> nat \<Rightarrow> work_graph_snapshot \<Rightarrow> bool" for sha where
  reach_new: "graph_reachable sha 0 snapshot_new"
| reach_change: "graph_reachable sha k g \<Longrightarrow> graph_reachable sha (Suc k) (fst (work_graph_apply sha change ctx g))"

lemma snapshot_new_inv: "graph_inv snapshot_new"
  by (simp add: graph_inv_def well_formed_def wf_structure_def wf_projection_def wf_history_def snapshot_new_def
      compat_default_def edge_rel_def externals_def acyclic_def)

lemma work_graph_apply_inv:
  assumes "graph_inv g" and "wg_revision g \<noteq> - 1"
  shows "graph_inv (fst (work_graph_apply sha change ctx g))"
proof (cases "apply_change sha g change ctx")
  case (Inl report)
  with assms show ?thesis by (simp add: work_graph_apply_def)
next
  case (Inr res)
  obtain g' r where res: "res = (g', r)" by (cases res)
  show ?thesis
  proof (cases "is_duplicate g ctx")
    case True
    with Inr res assms show ?thesis by (auto simp: work_graph_apply_def apply_change_def)
  next
    case False
    with Inr res obtain candidate where "well_formed candidate" "graph_log candidate = graph_log g"
      "(g', r) = commit sha g change ctx candidate"
      by (auto elim!: apply_change_Inr)
    with commit_inv [OF _ _ assms] Inr res show ?thesis by (metis fst_conv prod.case sum.case(2) work_graph_apply_def)
  qed
qed

lemma work_graph_apply_revision:
  "wg_revision (fst (work_graph_apply sha change ctx g)) \<in> {wg_revision g, wg_revision g + 1}"
  by (auto simp: work_graph_apply_def apply_change_def commit_def Let_def split: sum.split prod.split if_splits)

lemma graph_reachable_inv:
  assumes "graph_reachable sha k g" and "k < 2 ^ 64"
  shows "graph_inv g \<and> unat (wg_revision g) \<le> k"
  using assms
proof (induction rule: graph_reachable.induct)
  case reach_new
  then show ?case using snapshot_new_inv by (simp add: snapshot_new_def)
next
  case (reach_change k g change ctx)
  then have ih: "graph_inv g" "unat (wg_revision g) \<le> k" by auto
  have "unat (- 1 :: u64) = 2 ^ 64 - 1" by (simp add: unsigned_minus_1_eq_mask mask_eq_exp_minus_1)
  with ih(2) reach_change.prems have less: "wg_revision g \<noteq> - 1" by auto
  then have "unat (wg_revision g + 1) = Suc (unat (wg_revision g))"
    by (metis add.commute unatSuc add_eq_0_iff)
  then show ?case
    using work_graph_apply_inv [OF ih(1) less] work_graph_apply_revision [of sha change ctx g] ih(2) by auto
qed

subsection \<open>One node through a change\<close>

lemma wg_node_append:
  "wg_node (g \<lparr> wg_nodes := wg_nodes g @ [m] \<rparr>) i =
     (case wg_node g i of Some n \<Rightarrow> Some n | None \<Rightarrow> if wn_id m = i then Some m else None)"
proof -
  have "find P (xs @ [m]) = (case find P xs of Some n \<Rightarrow> Some n | None \<Rightarrow> if P m then Some m else None)" for P xs
    by (induction xs) auto
  then show ?thesis by (simp add: wg_node_def)
qed

lemma wg_node_other_fields [simp]:
  "wg_node (g \<lparr> wg_edges := es \<rparr>) = wg_node g"
  "wg_node (g \<lparr> wg_proposals := ps \<rparr>) = wg_node g"
  "wg_node (g \<lparr> wg_compat := c \<rparr>) = wg_node g"
  "wg_node (g \<lparr> wg_activities := as \<rparr>) = wg_node g"
  "wg_node (g \<lparr> wg_import_digest := d \<rparr>) = wg_node g"
  by (simp_all add: wg_node_def fun_eq_iff)

lemma wg_node_filter: "i \<noteq> j \<Longrightarrow> wg_node (g \<lparr> wg_nodes := filter (\<lambda>n. wn_id n \<noteq> j) (wg_nodes g) \<rparr>) i = wg_node g i"
proof -
  assume "i \<noteq> j"
  then have "find (\<lambda>n. wn_id n = i) (filter (\<lambda>n. wn_id n \<noteq> j) ns) = find (\<lambda>n. wn_id n = i) ns" for ns
    by (induction ns) auto
  then show ?thesis by (simp add: wg_node_def)
qed

lemma update_ids [simp]:
  "wn_id (patched p now n) = wn_id n" "wn_id (reconciled obs now n) = wn_id n"
  by (simp_all add: patched_def reconciled_def)

lemma commit_nodes [simp]:
  "wg_nodes (fst (commit sha g change ctx c)) = wg_nodes c"
  "wg_edges (fst (commit sha g change ctx c)) = wg_edges c"
  "wg_proposals (fst (commit sha g change ctx c)) = wg_proposals c"
  "wg_compat (fst (commit sha g change ctx c)) = wg_compat c"
  "wg_node (fst (commit sha g change ctx c)) = wg_node c"
  by (simp_all add: commit_def Let_def wg_node_def fun_eq_iff)

definition holds_state :: "work_node_id \<Rightarrow> node_state \<Rightarrow> work_graph_snapshot \<Rightarrow> bool" where
  "holds_state i s g \<longleftrightarrow> (\<exists>n. wg_node g i = Some n \<and> wn_state n = s)"

lemma holds_state_other_fields [simp]:
  "holds_state i s (g \<lparr> wg_edges := es \<rparr>) = holds_state i s g"
  "holds_state i s (g \<lparr> wg_proposals := ps \<rparr>) = holds_state i s g"
  "holds_state i s (g \<lparr> wg_compat := c \<rparr>) = holds_state i s g"
  "holds_state i s (g \<lparr> wg_activities := as \<rparr>) = holds_state i s g"
  "holds_state i s (g \<lparr> wg_import_digest := d \<rparr>) = holds_state i s g"
  by (simp_all add: holds_state_def)

lemma add_node_state: "add_node m g = Inr g' \<Longrightarrow> holds_state i s g \<Longrightarrow> holds_state i s g'"
  by (auto simp: add_node_Inr holds_state_def wg_node_append)

lemma add_edge_state: "add_edge e g = Inr g' \<Longrightarrow> holds_state i s g' = holds_state i s g"
  by (auto simp: add_edge_Inr)

lemma patch_node_state:
  assumes "patch_node j p now g = Inr g'" and "is_terminal s" and "holds_state i s g"
  shows "holds_state i s g'"
  using assms by (auto simp: patch_node_Inr holds_state_def wg_node_node_mut patched_def split: option.splits)

lemma reconcile_state:
  assumes "reconcile j obs ctx g = Inr g'" and "is_terminal s" and "holds_state i s g"
  shows "holds_state i s g'"
  using assms by (auto simp: reconcile_Inr holds_state_def wg_node_node_mut reconciled_def split: option.splits)

lemma remove_node_state:
  assumes "remove_node j g = Inr g'" and "i \<noteq> j" and "holds_state i s g"
  shows "holds_state i s g'"
  using assms(3) by (simp add: remove_node_Inr [OF assms(1)] holds_state_def wg_node_filter [OF assms(2)])

lemma apply_proposal_state:
  assumes "apply_proposal p ctx g = Inr g'" and "is_terminal s" and "holds_state i s g"
    and "i \<notin> set (wp_removed_nodes p)"
  shows "holds_state i s g'"
proof -
  from assms(1) obtain g1 g2 g3 g4 g5 where steps:
    "for_each add_node (wp_added_nodes p) g = Inr g1" "for_each add_edge (wp_added_edges p) g1 = Inr g2"
    "for_each (\<lambda>u. patch_node (pu_id u) (pu_patch u) (cc_now ctx)) (wp_updated_nodes p) g2 = Inr g3"
    "for_each remove_edge (wp_removed_edges p) g3 = Inr g4" "for_each remove_node (wp_removed_nodes p) g4 = Inr g5"
    and g': "g' = (case wp_replacement_compat p of Some c \<Rightarrow> g5 \<lparr> wg_compat := c \<rparr> | None \<Rightarrow> g5)"
    by (rule apply_proposal_steps)
  note step = for_each_invariant [where I = "holds_state i s"]
  have "holds_state i s g1" by (rule step [OF steps(1) assms(3)]) (rule add_node_state)
  then have "holds_state i s g2" by (rule step [OF steps(2)]) (simp add: add_edge_state)
  then have "holds_state i s g3" by (rule step [OF steps(3)]) (rule patch_node_state [OF _ assms(2)])
  then have "holds_state i s g4" by (rule step [OF steps(4)]) (auto dest: remove_edge_Inr)
  then have "holds_state i s g5"
    by (rule step [OF steps(5)]) (use assms(4) in \<open>auto intro: remove_node_state\<close>)
  then show ?thesis by (simp add: g' split: option.split)
qed

lemma remove_first_Some:
  "remove_first P xs = Some (y, ys) \<Longrightarrow> y \<in> set xs \<and> P y"
  by (induction xs arbitrary: ys) (auto split: if_splits option.splits)


lemma attach_evidence_state:
  "attach_evidence sha j e ctx g = Inr g' \<Longrightarrow> holds_state i s g \<Longrightarrow> holds_state i s g'"
  by (auto simp: attach_evidence_def add_edge_state dest: add_node_state split: if_splits)

lemma accept_plan_diff_state:
  assumes "accept_plan_diff sha pid a ctx g = Inr g'" and "is_terminal s" and "holds_state i s g"
    and "\<forall>p \<in> set (wg_proposals g). wp_id p = pid \<longrightarrow> i \<notin> set (wp_removed_nodes p)"
  shows "holds_state i s g'"
proof -
  from assms(1) obtain p rest g1 where first: "remove_first (\<lambda>p. wp_id p = pid) (wg_proposals g) = Some (p, rest)"
    and steps: "apply_proposal p ctx (g \<lparr> wg_proposals := rest \<rparr>) = Inr g1"
      "add_node (approval_node sha pid a ctx) g1 = Inr g'"
    by (auto simp: accept_plan_diff_def split: option.splits)
  have "i \<notin> set (wp_removed_nodes p)" using remove_first_Some [OF first] assms(4) by blast
  moreover have "holds_state i s (g \<lparr> wg_proposals := rest \<rparr>)" using assms(3) by simp
  ultimately have "holds_state i s g1" using apply_proposal_state [OF steps(1) assms(2)] by blast
  then show ?thesis by (rule add_node_state [OF steps(2)])
qed

lemmas step_states = add_node_state patch_node_state reconcile_state attach_evidence_state accept_plan_diff_state

lemma apply_pure_state:
  assumes "apply_pure sha g ctx change = Inr g'" and "is_terminal s" and "holds_state i s g"
    and "\<forall>new. change \<noteq> Supersede i new"
    and "\<forall>pid a. \<forall>p \<in> set (wg_proposals g). change = AcceptPlanDiff pid a \<and> wp_id p = pid \<longrightarrow>
      i \<notin> set (wp_removed_nodes p)"
  shows "holds_state i s g'"
proof (cases change)
  case (BindOperation j b)
  with assms show ?thesis
    by (auto simp: bind_operation_def holds_state_def wg_node_node_mut split: if_splits)
next
  case (Supersede old new)
  with assms show ?thesis
    by (auto simp: supersede_def add_edge_Inr holds_state_def wg_node_node_mut split: if_splits)
next
  case (AcceptPlanDiff pid a)
  with assms show ?thesis by (intro accept_plan_diff_state [of sha pid a ctx g g']) simp_all
qed (use assms in \<open>auto simp: add_edge_state propose_plan_diff_def withdraw_plan_diff_def record_activity_def Let_def
       dest: remove_edge_Inr intro: step_states split: if_splits option.splits\<close>)

section \<open>Properties of the write path\<close>

text \<open>
  C3. Every graph the reducer produces is well formed: after any sequence of fewer than
  18446744073709551616 changes from the empty graph, accepted or rejected, the held snapshot satisfies
  every invariant and so validates, no receipt in its history is newer than its revision, and the
  revision is at most the number of changes.
\<close>

theorem reachable_graph_valid:
  assumes "graph_reachable sha k g" and "k < 2 ^ 64"
  shows "validate g = Inr () \<and> (\<forall>r \<in> set (wg_history g). cr_revision r \<le> wg_revision g) \<and>
    unat (wg_revision g) \<le> k"
  using graph_reachable_inv [OF assms] by (simp add: graph_inv_def validate_Inr_iff)

theorem reachable_graph_valid_witness:
  "validate (fst (work_graph_apply (\<lambda>s. s) (SetImportDigest ''d'')
     \<lparr> cc_session_id = ''s'', cc_now = 7, cc_idempotency_key = None \<rparr> snapshot_new)) = Inr ()"
proof -
  have "graph_reachable (\<lambda>s. s) (Suc 0) (fst (work_graph_apply (\<lambda>s. s) (SetImportDigest ''d'')
     \<lparr> cc_session_id = ''s'', cc_now = 7, cc_idempotency_key = None \<rparr> snapshot_new))"
    by (intro reach_change reach_new)
  from reachable_graph_valid [OF this] show ?thesis by simp
qed


text \<open>
  The reducer fails closed: a change is refused just if it is no duplicate and either cannot be
  carried out or would break an invariant, and a refused change leaves the held snapshot as it was.
\<close>

theorem refused_change_no_effect:
  "((\<exists>report. snd (work_graph_apply sha change ctx g) = Inl report) \<longleftrightarrow>
     \<not> is_duplicate g ctx \<and> \<not> (\<exists>candidate. apply_pure sha g ctx change = Inr candidate \<and> well_formed candidate)) \<and>
   (\<forall>report. snd (work_graph_apply sha change ctx g) = Inl report \<longrightarrow> fst (work_graph_apply sha change ctx g) = g)"
  by (cases "apply_pure sha g ctx change")
    (auto simp: work_graph_apply_def apply_change_def validate_def all_violations_Nil_iff split: sum.splits prod.splits)

theorem refused_change_no_effect_witness:
  "fst (work_graph_apply (\<lambda>s. s) (SetImportDigest '''')
     \<lparr> cc_session_id = ''s'', cc_now = 7, cc_idempotency_key = None \<rparr> snapshot_new) = snapshot_new"
proof -
  have "snd (work_graph_apply (\<lambda>s. s) (SetImportDigest '''')
     \<lparr> cc_session_id = ''s'', cc_now = 7, cc_idempotency_key = None \<rparr> snapshot_new) =
     Inl (structural ''legacy import digest cannot be empty'')"
    by (simp add: work_graph_apply_def apply_change_def is_duplicate_def)
  with refused_change_no_effect show ?thesis by blast
qed


text \<open>
  C5. A terminal state is final: whatever change is accepted, a verified, superseded or cancelled node
  keeps its state, unless the change supersedes that very node or accepts a plan diff that removes it.
\<close>

theorem terminal_state_final:
  assumes "apply_change sha g change ctx = Inr (g', r)" and "wg_node g i = Some n" and "is_terminal (wn_state n)"
    and "\<forall>new. change \<noteq> Supersede i new"
    and "\<forall>pid a. \<forall>p \<in> set (wg_proposals g). change = AcceptPlanDiff pid a \<and> wp_id p = pid \<longrightarrow>
      i \<notin> set (wp_removed_nodes p)"
  shows "\<exists>n'. wg_node g' i = Some n' \<and> wn_state n' = wn_state n"
proof (cases "is_duplicate g ctx")
  case True
  with assms show ?thesis by (auto simp: apply_change_def)
next
  case False
  with assms(1) obtain candidate where c: "apply_pure sha g ctx change = Inr candidate"
    and "(g', r) = commit sha g change ctx candidate"
    by (rule apply_change_Inr)
  then have "wg_node g' = wg_node candidate" using commit_nodes(5) by (metis fst_conv)
  moreover have "holds_state i (wn_state n) candidate"
    using apply_pure_state [OF c assms(3) _ assms(4,5)] assms(2) by (simp add: holds_state_def)
  ultimately show ?thesis by (simp add: holds_state_def)
qed


text \<open>
  A piece of evidence attaches once: after it was attached to a node, attaching a reference of the
  same name to that node again in the session is refused, so the evidence a node counts is distinct.
\<close>

theorem evidence_attaches_once:
  assumes "apply_change sha g (AttachEvidence i e) ctx = Inr (g', r)" and "\<not> is_duplicate g ctx"
    and "cc_session_id ctx' = cc_session_id ctx" and "\<not> is_duplicate g' ctx'" and "er_reference e' = er_reference e"
  shows "apply_change sha g' (AttachEvidence i e') ctx' =
    Inl (structural (''duplicate node '' @ evidence_id sha (cc_session_id ctx) i e))"
proof -
  from assms(1,2) obtain c where c: "apply_pure sha g ctx (AttachEvidence i e) = Inr c"
    "(g', r) = commit sha g (AttachEvidence i e) ctx c"
    by (rule apply_change_Inr)
  have g': "wg_node g' = wg_node c" using c(2) commit_nodes(5) by (metis fst_conv)
  from c(1) obtain g1 where "wg_node g i \<noteq> None" and g1: "add_node (evidence_node sha i e ctx) g = Inr g1"
    and "add_edge (evidence_edge sha i e ctx) g1 = Inr c"
    by (auto simp: attach_evidence_def split: if_splits)
  then have "wg_node c i \<noteq> None" "wg_node c (evidence_id sha (cc_session_id ctx) i e) \<noteq> None"
    by (auto simp: add_node_Inr add_edge_Inr wg_node_append evidence_node_def split: option.splits)
  then show ?thesis
    using assms(3-5) g'
    by (auto simp: apply_change_def attach_evidence_def add_node_def evidence_node_def evidence_id_def)
qed

subsection \<open>Proposals\<close>

text \<open>
  Applying a proposal reads and writes nodes, edges and projection alone: it commutes with any change
  of the log and the open proposals.
\<close>

definition relog :: "u64 \<Rightarrow> change_receipt list \<Rightarrow> idempotency_key list \<Rightarrow> work_graph_proposal list \<Rightarrow>
    work_graph_snapshot \<Rightarrow> work_graph_snapshot" where
  "relog v h k ps g = g \<lparr> wg_revision := v, wg_history := h, wg_seen_keys := k, wg_proposals := ps \<rparr>"

lemma relog_fields [simp]:
  "wg_nodes (relog v h k ps g) = wg_nodes g" "wg_edges (relog v h k ps g) = wg_edges g"
  "wg_node (relog v h k ps g) = wg_node g" "wg_edge (relog v h k ps g) = wg_edge g"
  "wg_compat (relog v h k ps g) = wg_compat g"
  by (simp_all add: relog_def wg_node_def wg_edge_def fun_eq_iff)








section \<open>The properties at work\<close>

text \<open>A small graph on which the properties are applied: a cancelled step and an open operation under it.\<close>

definition sample_node :: "work_node_id \<Rightarrow> node_kind \<Rightarrow> node_state \<Rightarrow> operation_binding option \<Rightarrow> work_node" where
  "sample_node i k s b =
     \<lparr> wn_id = i, wn_kind = k, wn_title = ''t'', wn_state = s, wn_acceptance = [], wn_binding = b,
       wn_evidence = None, wn_provenance = ToolUpdate ''t'' ''c'', wn_created_at = 0, wn_updated_at = 0 \<rparr>"

definition sample_graph :: work_graph_snapshot where
  "sample_graph = snapshot_new \<lparr>
     wg_nodes := [sample_node ''p'' NK_PlanStep NS_Cancelled None,
       sample_node ''o'' NK_Operation NS_Active
         (Some \<lparr> ob_external = ''task:1'', ob_durable = True, ob_last_observation = None \<rparr>)],
     wg_edges := [\<lparr> we_id = ''e'', we_kind = EK_Contains, we_from = ''p'', we_to = ''o'' \<rparr>] \<rparr>"

definition sample_ctx :: change_ctx where
  "sample_ctx = \<lparr> cc_session_id = ''s'', cc_now = 7, cc_idempotency_key = None \<rparr>"

definition sample_evidence :: evidence_ref where
  "sample_evidence = \<lparr> er_kind = EV_ToolRun, er_reference = ''run:1'', er_raw_bytes = None, er_truncated = False \<rparr>"


definition is_accepted :: "validation_report + work_graph_snapshot \<times> change_receipt \<Rightarrow> bool" where
  "is_accepted r = (case r of Inl _ \<Rightarrow> False | Inr _ \<Rightarrow> True)"

definition after :: "validation_report + work_graph_snapshot \<times> change_receipt \<Rightarrow> work_graph_snapshot" where
  "after r = (case r of Inl _ \<Rightarrow> snapshot_new | Inr (g, _) \<Rightarrow> g)"

lemma is_accepted_after: "is_accepted r \<Longrightarrow> \<exists>receipt. r = Inr (after r, receipt)"
  by (auto simp: is_accepted_def after_def split: sum.splits)

lemma sample_not_duplicate: "\<not> is_duplicate g sample_ctx"
  by (simp add: is_duplicate_def sample_ctx_def)




theorem terminal_state_final_witness:
  "\<exists>n'. wg_node (after (apply_change (\<lambda>s. s) sample_graph (AttachEvidence ''p'' sample_evidence) sample_ctx)) ''p'' = Some n' \<and>
     wn_state n' = NS_Cancelled"
proof -
  let ?c = "AttachEvidence ''p'' sample_evidence"
  have "is_accepted (apply_change (\<lambda>s. s) sample_graph ?c sample_ctx)" by code_simp
  from is_accepted_after [OF this] obtain r where
    run: "apply_change (\<lambda>s. s) sample_graph ?c sample_ctx = Inr (after (apply_change (\<lambda>s. s) sample_graph ?c sample_ctx), r)" ..
  have node: "wg_node sample_graph ''p'' = Some (sample_node ''p'' NK_PlanStep NS_Cancelled None)"
    by (simp add: wg_node_def sample_graph_def sample_node_def)
  have "wn_state (sample_node ''p'' NK_PlanStep NS_Cancelled None) = NS_Cancelled" by (simp add: sample_node_def)
  with terminal_state_final [OF run node] show ?thesis by (simp add: is_terminal_def)
qed


theorem evidence_attaches_once_witness:
  "\<exists>report. apply_change (\<lambda>s. s) (after (apply_change (\<lambda>s. s) sample_graph (AttachEvidence ''p'' sample_evidence) sample_ctx))
     (AttachEvidence ''p'' sample_evidence) sample_ctx = Inl report"
proof -
  let ?c = "AttachEvidence ''p'' sample_evidence"
  have "is_accepted (apply_change (\<lambda>s. s) sample_graph ?c sample_ctx)" by code_simp
  from is_accepted_after [OF this] obtain r where
    run: "apply_change (\<lambda>s. s) sample_graph ?c sample_ctx = Inr (after (apply_change (\<lambda>s. s) sample_graph ?c sample_ctx), r)" ..
  from evidence_attaches_once [OF run sample_not_duplicate refl sample_not_duplicate refl] show ?thesis by blast
qed



section \<open>Progress: what an owner reports is recorded\<close>

text \<open>
  An update of one operation that claims no more than before - it does not bring the node to life, does
  not verify or block it and does not finish it - keeps every invariant, whatever the rest of the graph.
\<close>

definition settles :: "work_node \<Rightarrow> work_node \<Rightarrow> bool" where
  "settles n n' \<longleftrightarrow>
     wn_id n' = wn_id n \<and> wn_kind n' = wn_kind n \<and> wn_acceptance n' = wn_acceptance n \<and>
     wn_evidence n' = wn_evidence n \<and>
     map_option ob_external (wn_binding n') = map_option ob_external (wn_binding n) \<and>
     (is_live (wn_state n') \<longrightarrow> is_live (wn_state n)) \<and>
     (wn_state n' = NS_Verified \<longrightarrow> wn_state n = NS_Verified) \<and>
     (wn_state n' = NS_Blocked \<longrightarrow> wn_state n = NS_Blocked) \<and>
     (wn_state n' = NS_Active \<longrightarrow> wn_state n = NS_Active) \<and>
     (node_is_done n' \<longrightarrow> node_is_done n) \<and>
     (wn_kind n \<in> {NK_RuntimeRef, NK_LaneRef} \<longrightarrow> wn_state n' = wn_state n)"

lemma settles_refl: "settles n n"
  by (simp add: settles_def)

text \<open>The updated snapshot, with unique identifiers, holds for every node its settled version.\<close>

definition settled_by :: "(work_node \<Rightarrow> work_node) \<Rightarrow> work_graph_snapshot \<Rightarrow> work_graph_snapshot" where
  "settled_by h g = g \<lparr> wg_nodes := map h (wg_nodes g) \<rparr>"

lemma node_mut_settled_by:
  assumes "distinct (map wn_id (wg_nodes g))"
  shows "node_mut i f g = settled_by (\<lambda>n. if wn_id n = i then f n else n) g"
proof -
  have "distinct (map wn_id ns) \<Longrightarrow>
      update_first (\<lambda>n. wn_id n = i) f ns = map (\<lambda>n. if wn_id n = i then f n else n) ns" for ns
    by (induction ns) (auto simp: image_iff intro!: map_idI [symmetric])
  with assms show ?thesis by (simp add: node_mut_def settled_by_def)
qed

lemma edge_rel_settled_by [simp]: "edge_rel (settled_by h g) k = edge_rel g k"
  by (simp add: edge_rel_def settled_by_def)

definition settling :: "(work_node \<Rightarrow> work_node) \<Rightarrow> work_graph_snapshot \<Rightarrow> bool" where
  "settling h g \<longleftrightarrow> (\<forall>n \<in> set (wg_nodes g). settles n (h n))"

lemma settled_by_ids:
  assumes "settling h g"
  shows "map wn_id (map h (wg_nodes g)) = map wn_id (wg_nodes g)"
    and "node_ids (settled_by h g) = node_ids g" and "plan_steps (settled_by h g) = plan_steps g"
proof -
  show ids: "map wn_id (map h (wg_nodes g)) = map wn_id (wg_nodes g)"
    using assms by (simp add: settling_def settles_def)
  have "wn_id ` h ` set (wg_nodes g) = wn_id ` set (wg_nodes g)"
    using assms unfolding image_image by (intro image_cong refl) (simp add: settling_def settles_def)
  then show "node_ids (settled_by h g) = node_ids g" by (simp add: node_ids_def settled_by_def)
  have "{n \<in> h ` set (wg_nodes g). wn_kind n = NK_PlanStep} = h ` {n \<in> set (wg_nodes g). wn_kind n = NK_PlanStep}"
    using assms by (auto simp: settling_def settles_def)
  moreover have "wn_id ` h ` {n \<in> set (wg_nodes g). wn_kind n = NK_PlanStep} = wn_id ` {n \<in> set (wg_nodes g). wn_kind n = NK_PlanStep}"
    using assms unfolding image_image by (intro image_cong refl) (simp add: settling_def settles_def)
  ultimately show "plan_steps (settled_by h g) = plan_steps g" by (simp add: plan_steps_def settled_by_def)
qed

lemma settled_by_member:
  assumes "settling h g"
  shows "(\<exists>n \<in> set (wg_nodes (settled_by h g)). P n) \<longleftrightarrow> (\<exists>n \<in> set (wg_nodes g). P (h n))"
  by (simp add: settled_by_def)

lemma filter_length_mono: "(\<And>x. x \<in> set xs \<Longrightarrow> P x \<Longrightarrow> Q x) \<Longrightarrow> length (filter P xs) \<le> length (filter Q xs)"
  by (induction xs) (auto simp: le_SucI)

lemma wf_structure_settled_by:
  assumes "settling h g" and "wf_structure g"
  shows "wf_structure (settled_by h g)"
proof -
  have "wf_structure (settled_by h g) \<longleftrightarrow>
      wg_schema g = SCHEMA_VERSION \<and> distinct (map wn_id (map h (wg_nodes g))) \<and>
      (\<forall>n \<in> set (wg_nodes g). wn_evidence (h n) \<noteq> None \<longrightarrow> wn_kind (h n) = NK_Evidence) \<and>
      distinct (map we_id (wg_edges g)) \<and> (\<forall>k. edge_rel g k \<subseteq> node_ids g \<times> node_ids g)"
    unfolding wf_structure_def edge_rel_settled_by settled_by_ids(2) [OF assms(1)]
    by (simp add: settled_by_def)
  then show ?thesis
    using assms unfolding settled_by_ids(1) [OF assms(1)]
    by (simp add: wf_structure_def settling_def settles_def)
qed

lemma wf_projection_settled_by:
  assumes "settling h g" and "wf_projection g"
  shows "wf_projection (settled_by h g)"
proof -
  have "length (filter (\<lambda>b. \<exists>n \<in> set (wg_nodes (settled_by h g)). wn_id n = tb_node b \<and> wn_state n = NS_Active)
        (cs_todos (wg_compat g))) \<le>
      length (filter (\<lambda>b. \<exists>n \<in> set (wg_nodes g). wn_id n = tb_node b \<and> wn_state n = NS_Active) (cs_todos (wg_compat g)))"
    unfolding settled_by_member [OF assms(1)]
    using assms(1) by (intro filter_length_mono) (auto simp: settling_def settles_def)
  moreover have "wg_compat (settled_by h g) = wg_compat g" by (simp add: settled_by_def)
  ultimately show ?thesis
    using assms(2) unfolding wf_projection_def settled_by_ids(3) [OF assms(1)] by auto
qed

lemma activity_ok_settled_by:
  assumes "settling h g" and "activity_ok g a"
  shows "activity_ok (settled_by h g) a"
proof -
  have "(\<exists>n \<in> set (wg_nodes g). wn_id (h n) = i \<and> wn_kind (h n) = NK_Operation) \<longleftrightarrow>
      (\<exists>n \<in> set (wg_nodes g). wn_id n = i \<and> wn_kind n = NK_Operation)" for i
    using assms(1) by (auto simp: settling_def settles_def)
  with assms(2) show ?thesis unfolding activity_ok_def settled_by_member [OF assms(1)] by blast
qed

lemma has_cause_settled_by:
  assumes "settling h g" and "has_cause g n" and "wn_id n' = wn_id n"
  shows "has_cause (settled_by h g) n'"
  using assms unfolding has_cause_def settled_by_member [OF assms(1)] edge_rel_settled_by
  by (auto simp: settling_def settles_def)

lemma wf_node_settled_by:
  assumes "settling h g" and "n \<in> set (wg_nodes g)" and "wf_node g n"
  shows "wf_node (settled_by h g) (h n)"
proof -
  from assms(1,2) have settled: "settles n (h n)" by (simp add: settling_def)
  then have same: "wn_id (h n) = wn_id n" "wn_kind (h n) = wn_kind n" "wn_acceptance (h n) = wn_acceptance n"
    "map_option ob_external (wn_binding (h n)) = map_option ob_external (wn_binding n)"
    and state: "is_live (wn_state (h n)) \<Longrightarrow> is_live (wn_state n)"
      "wn_state (h n) = NS_Verified \<Longrightarrow> wn_state n = NS_Verified" "wn_state (h n) = NS_Blocked \<Longrightarrow> wn_state n = NS_Blocked"
      "wn_kind n \<in> {NK_RuntimeRef, NK_LaneRef} \<longrightarrow> wn_state (h n) = wn_state n"
    unfolding settles_def by argo+
  have kept: "(\<exists>m \<in> set (wg_nodes g). P (wn_id (h m)) (wn_kind (h m)) (wn_evidence (h m))) \<longleftrightarrow>
      (\<exists>m \<in> set (wg_nodes g). P (wn_id m) (wn_kind m) (wn_evidence m))" for P
    using assms(1) by (intro bex_cong refl) (simp add: settling_def settles_def)
  have roots: "(\<exists>r \<in> set (wg_nodes g). is_root_kind (h r) \<and> (wn_id (h r), j) \<in> R) \<longleftrightarrow>
      (\<exists>r \<in> set (wg_nodes g). is_root_kind r \<and> (wn_id r, j) \<in> R)" for j R
    using kept [of "\<lambda>i k e. (k = NK_Objective \<or> k = NK_PlanStep) \<and> (i, j) \<in> R"] by (simp add: is_root_kind_def)
  have evidence: "(\<exists>m \<in> set (wg_nodes g). \<exists>p. wn_kind (h m) = NK_Evidence \<and> wn_evidence (h m) = Some p \<and>
        is_satisfied_by r p \<and> (wn_id (h m), j) \<in> R) \<longleftrightarrow>
      (\<exists>m \<in> set (wg_nodes g). \<exists>p. wn_kind m = NK_Evidence \<and> wn_evidence m = Some p \<and>
        is_satisfied_by r p \<and> (wn_id m, j) \<in> R)" for j r R
    using kept [of "\<lambda>i k e. \<exists>p. k = NK_Evidence \<and> e = Some p \<and> is_satisfied_by r p \<and> (i, j) \<in> R"] by simp
  have cause: "has_cause g n \<Longrightarrow> has_cause (settled_by h g) (h n)"
    by (rule has_cause_settled_by [OF assms(1) _ same(1)])
  have binding: "wn_binding (h n) \<noteq> None \<longleftrightarrow> wn_binding n \<noteq> None"
    "\<And>b. wn_binding (h n) = Some b \<Longrightarrow> \<exists>b'. wn_binding n = Some b' \<and> ob_external b' = ob_external b"
    using same(4) by (cases "wn_binding n"; cases "wn_binding (h n)"; simp)+
  show ?thesis
    unfolding wf_node_def settled_by_member [OF assms(1)] edge_rel_settled_by same(1-3) roots evidence
  proof (intro conjI)
    note old = assms(3) [unfolded wf_node_def]
    show "wn_kind n = NK_Operation \<and> is_live (wn_state (h n)) \<longrightarrow>
        (\<exists>r \<in> set (wg_nodes g). is_root_kind r \<and> (wn_id r, wn_id n) \<in> (edge_rel g EK_Contains)\<^sup>+)"
      using old state(1) by argo
    show "wn_binding (h n) \<noteq> None \<longrightarrow> wn_kind n = NK_Operation" using old binding(1) by argo
    show "wn_state (h n) = NS_Blocked \<longrightarrow> has_cause (settled_by h g) (h n)" using old state(3) cause by argo
    show "\<forall>b. wn_binding (h n) = Some b \<longrightarrow> external_identity_is_well_formed (ob_external b)"
      using conjunct1 [OF conjunct2 [OF conjunct2 [OF conjunct2 [OF conjunct2 [OF old]]]]] binding(2) by metis
    show "wn_kind n \<in> {NK_RuntimeRef, NK_LaneRef} \<longrightarrow> wn_state (h n) = NS_Ready"
      using old state(4) by argo
  qed (use assms(3) [unfolded wf_node_def] state(2) in argo)
qed

lemma externals_settled_by:
  assumes "settling h g"
  shows "externals (wg_nodes (settled_by h g)) = externals (wg_nodes g)"
proof -
  have "\<forall>n \<in> set ns. map_option ob_external (wn_binding (h n)) = map_option ob_external (wn_binding n) \<Longrightarrow>
      externals (map h ns) = externals ns" for ns
    by (induction ns) (auto simp: externals_def split: option.splits)
  with assms show ?thesis by (simp add: settling_def settles_def settled_by_def)
qed

lemma well_formed_settled_by:
  assumes "settling h g" and "well_formed g"
  shows "well_formed (settled_by h g)"
proof -
  have same: "wg_activities (settled_by h g) = wg_activities g" "wg_history (settled_by h g) = wg_history g"
    "wg_revision (settled_by h g) = wg_revision g" "set (wg_nodes (settled_by h g)) = h ` set (wg_nodes g)"
    by (simp_all add: settled_by_def)
  show ?thesis
    using assms unfolding well_formed_def wf_history_def same edge_rel_settled_by externals_settled_by [OF assms(1)]
    by (auto intro: wf_structure_settled_by wf_projection_settled_by activity_ok_settled_by wf_node_settled_by)
qed

text \<open>What ends an operation, or says nothing about its state, settles it.\<close>

definition ends_operation :: "operation_observation \<Rightarrow> work_node \<Rightarrow> bool" where
  "ends_operation obs n \<longleftrightarrow>
     observed_state obs \<in> {None, Some NS_Stale, Some NS_Failed, Some NS_Cancelled} \<or>
     observed_state obs = Some NS_Completed \<and> wn_acceptance n \<noteq> []"

lemma reconciled_settles:
  assumes "ends_operation obs n" and "wn_kind n = NK_Operation"
  shows "settles n (reconciled obs now n)"
proof -
  have "ob_external (observed_binding obs b) = ob_external b" for b by (cases obs) simp_all
  then have "map_option ob_external (map_option (observed_binding obs) b) = map_option ob_external b" for b
    by (cases b) simp_all
  then show ?thesis
    using assms by (auto simp: settles_def reconciled_def ends_operation_def is_live_def is_terminal_def node_is_done_def split: if_splits)
qed

lemma ending_report_accepted:
  assumes "well_formed g" and "wg_node g i = Some n" and "wn_binding n \<noteq> None"
    and "ends_operation obs n" and "\<not> is_duplicate g ctx"
  shows "\<exists>g' r n'. apply_change sha g (ReconcileOperation i obs) ctx = Inr (g', r) \<and> wg_node g' i = Some n' \<and>
    (observed_state obs \<noteq> None \<longrightarrow> \<not> is_live (wn_state n'))"
proof -
  let ?h = "\<lambda>m. if wn_id m = i then reconciled obs (cc_now ctx) m else m"
  let ?c = "node_mut i (reconciled obs (cc_now ctx)) g"
  have ids: "distinct (map wn_id (wg_nodes g))" using assms(1) by (simp add: well_formed_def wf_structure_def)
  have n: "n \<in> set (wg_nodes g)" "wn_id n = i" using wg_node_Some [OF assms(2)] by simp_all
  have kind: "wn_kind n = NK_Operation" using assms(1,3) n(1) by (simp add: well_formed_def wf_node_def)
  have "m = n" if "m \<in> set (wg_nodes g)" "wn_id m = i" for m
    using wg_node_unique [OF ids that(1)] that(2) assms(2) by simp
  then have "settling ?h g"
    using reconciled_settles [OF assms(4) kind] settles_refl by (auto simp: settling_def)
  then have "well_formed ?c"
    using well_formed_settled_by assms(1) unfolding node_mut_settled_by [OF ids] by blast
  moreover have "apply_pure sha g ctx (ReconcileOperation i obs) = Inr ?c" using assms(2,3) by (simp add: reconcile_Inr)
  ultimately have "apply_change sha g (ReconcileOperation i obs) ctx = Inr (commit sha g (ReconcileOperation i obs) ctx ?c)"
    using assms(5) by (simp add: apply_change_def validate_def all_violations_Nil_iff)
  moreover have "wg_node (fst (commit sha g (ReconcileOperation i obs) ctx ?c)) i = Some (reconciled obs (cc_now ctx) n)"
    using assms(2) by (simp add: wg_node_node_mut)
  moreover have "observed_state obs \<noteq> None \<longrightarrow> \<not> is_live (wn_state (reconciled obs (cc_now ctx) n))"
    using assms(4) by (auto simp: reconciled_def ends_operation_def is_live_def is_terminal_def split: if_splits)
  ultimately show ?thesis by (metis prod.collapse)
qed

text \<open>
  C11. An owner that ends is always heard: in every well-formed graph, whatever its other nodes are
  doing, the report that the owner of a bound operation failed, was cancelled, is missing or - where
  evidence is still asked for - completed is accepted, and afterwards the operation is not live unless
  the report only acknowledged a cancellation in flight.
\<close>

theorem owner_end_is_recorded:
  assumes "well_formed g" and "wg_node g i = Some n" and "wn_binding n \<noteq> None"
    and "ends_operation obs n" and "\<not> is_duplicate g ctx"
  shows "\<exists>g' r n'. apply_change sha g (ReconcileOperation i obs) ctx = Inr (g', r) \<and> wg_node g' i = Some n' \<and>
    (observed_state obs \<noteq> None \<longrightarrow> \<not> is_live (wn_state n'))"
  by (rule ending_report_accepted [OF assms])

theorem owner_end_is_recorded_witness:
  "\<exists>g' r n'. apply_change (\<lambda>s. s) sample_graph (ReconcileOperation ''o'' (OwnerMissing 9)) sample_ctx = Inr (g', r) \<and>
     wg_node g' ''o'' = Some n' \<and> \<not> is_live (wn_state n')"
proof -
  have "validate sample_graph = Inr ()" by code_simp
  then have wf: "well_formed sample_graph" by (simp add: validate_Inr_iff)
  obtain n where node: "wg_node sample_graph ''o'' = Some n" and "wn_binding n \<noteq> None"
    by (simp add: wg_node_def sample_graph_def sample_node_def)
  moreover have "ends_operation (OwnerMissing 9) n" by (simp add: ends_operation_def)
  ultimately show ?thesis
    using owner_end_is_recorded [OF wf node _ _ sample_not_duplicate, of "OwnerMissing 9" "\<lambda>s. s"] by simp
qed




end
