(* ===== verification/Todo_Plan.thy ===== *)
theory Todo_Plan
  imports Rust_Prelude
begin

text \<open>
  The legacy To-do list and plan: the types and state of \<open>tui/src/tools/todo.rs\<close> and
  \<open>tui/src/tools/plan.rs\<close>, without the tool front ends around them. Identifiers are 32-bit words whose
  increment wraps, as in a release build; the clock of the plan is an argument. The status readers
  fold case with \<open>to_lowercase\<close>; among the characters of the model none outside ASCII folds into
  ASCII, so folding ASCII alone decides the same comparisons.

  The lemmas: the list keeps its identifiers distinct and at most one item in progress, a saved list
  is restored, the percentage is the rounded share, and updating a plan normalises it once and for all.
\<close>

section \<open>To-do items\<close>

datatype todo_status = TS_Pending | TS_InProgress | TS_Completed | TS_Cancelled

primrec todo_as_str :: "todo_status \<Rightarrow> string" where
  "todo_as_str TS_Pending = ''pending''"
| "todo_as_str TS_InProgress = ''in_progress''"
| "todo_as_str TS_Completed = ''completed''"
| "todo_as_str TS_Cancelled = ''cancelled''"

definition todo_from_str :: "string \<Rightarrow> todo_status option" where
  "todo_from_str v =
     (let s = to_ascii_lowercase (trim v)
      in if s = ''pending'' then Some TS_Pending
         else if s \<in> set [''in_progress'', ''inprogress'', ''in-progress'', ''in progress''] then Some TS_InProgress
         else if s \<in> set [''completed'', ''complete'', ''done''] then Some TS_Completed
         else if s \<in> set [''cancelled'', ''canceled''] then Some TS_Cancelled
         else None)"

definition is_settled :: "todo_status \<Rightarrow> bool" where
  "is_settled s \<longleftrightarrow> s = TS_Completed \<or> s = TS_Cancelled"

record todo_item =
  ti_id :: u32
  ti_content :: string
  ti_status :: todo_status

record todo_list_snapshot =
  ls_items :: "todo_item list"
  ls_completion_pct :: u8
  ls_in_progress_id :: "u32 option"

definition todo_snapshot_is_empty :: "todo_list_snapshot \<Rightarrow> bool" where
  "todo_snapshot_is_empty s \<longleftrightarrow> ls_items s = []"

record todo_list =
  tl_items :: "todo_item list"
  tl_next_id :: u32

definition todo_new :: todo_list where
  "todo_new = \<lparr> tl_items = [], tl_next_id = 1 \<rparr>"

text \<open>\<open>u8::try_from(\<dots>).unwrap_or(u8::MAX)\<close> and the saturating product on a 64-bit \<open>usize\<close>.\<close>

definition u8_or_max :: "usize \<Rightarrow> u8" where
  "u8_or_max n = (if n < 256 then of_nat n else 255)"

definition saturating_mul :: "usize \<Rightarrow> usize \<Rightarrow> usize" where
  "saturating_mul a b = min (a * b) (2 ^ 64 - 1)"

definition rounded_percentage :: "usize \<Rightarrow> usize \<Rightarrow> u8" where
  "rounded_percentage settled all_items =
     (if all_items = 0 then 0 else u8_or_max ((saturating_mul settled 100 + all_items div 2) div all_items))"

definition completion_percentage :: "todo_list \<Rightarrow> u8" where
  "completion_percentage l =
     rounded_percentage (length (filter (\<lambda>i. is_settled (ti_status i)) (tl_items l))) (length (tl_items l))"

definition in_progress_id :: "todo_list \<Rightarrow> u32 option" where
  "in_progress_id l = map_option ti_id (find (\<lambda>i. ti_status i = TS_InProgress) (tl_items l))"

definition todo_snapshot :: "todo_list \<Rightarrow> todo_list_snapshot" where
  "todo_snapshot l =
     \<lparr> ls_items = tl_items l, ls_completion_pct = completion_percentage l, ls_in_progress_id = in_progress_id l \<rparr>"

text \<open>
  The loop of \<open>from_snapshot\<close>: the identifiers seen, the number of items in progress, the greatest
  identifier, and the items still to read; the items read are copied as they are.
\<close>

fun restore_loop :: "u32 set \<Rightarrow> usize \<Rightarrow> u32 \<Rightarrow> todo_item list \<Rightarrow> string + u32" where
  "restore_loop ids in_progress max_id [] = Inr max_id"
| "restore_loop ids in_progress max_id (i # is) =
     (if ti_id i = 0 then Inl ''To-do item IDs must be greater than zero''
      else if ti_id i \<in> ids then Inl (''Duplicate To-do item ID '' @ show_nat (unat (ti_id i)))
      else let in_progress' = (if ti_status i = TS_InProgress then in_progress + 1 else in_progress)
           in if ti_status i = TS_InProgress \<and> in_progress' > 1 then Inl ''Only one To-do item may be in progress''
              else restore_loop (insert (ti_id i) ids) in_progress' (max max_id (ti_id i)) is)"

definition todo_from_snapshot :: "todo_list_snapshot \<Rightarrow> string + todo_list" where
  "todo_from_snapshot s =
     (case restore_loop {} 0 0 (ls_items s) of
        Inl e \<Rightarrow> Inl e
      | Inr max_id \<Rightarrow>
          if ls_items s = [] then Inr \<lparr> tl_items = [], tl_next_id = 1 \<rparr>
          else if max_id = - 1 then Inl ''To-do item IDs are exhausted''
          else Inr \<lparr> tl_items = ls_items s, tl_next_id = max_id + 1 \<rparr>)"

definition set_single_in_progress :: "u32 option \<Rightarrow> todo_list \<Rightarrow> todo_list" where
  "set_single_in_progress allow_id l =
     l \<lparr> tl_items := map (\<lambda>i. if Some (ti_id i) \<noteq> allow_id \<and> ti_status i = TS_InProgress
                              then i \<lparr> ti_status := TS_Pending \<rparr> else i) (tl_items l) \<rparr>"

definition todo_add :: "string \<Rightarrow> todo_status \<Rightarrow> todo_list \<Rightarrow> todo_list \<times> todo_item" where
  "todo_add content status l =
     (let l' = (if status = TS_InProgress then set_single_in_progress None l else l);
          item = \<lparr> ti_id = tl_next_id l', ti_content = content, ti_status = status \<rparr>
      in (l' \<lparr> tl_next_id := tl_next_id l' + 1, tl_items := tl_items l' @ [item] \<rparr>, item))"

definition todo_clear :: "todo_list \<Rightarrow> todo_list" where
  "todo_clear l = l \<lparr> tl_items := [], tl_next_id := 1 \<rparr>"

section \<open>Plans\<close>

datatype step_status = SS_Pending | SS_InProgress | SS_Completed

definition step_from_str :: "string \<Rightarrow> step_status option" where
  "step_from_str v =
     (let s = to_ascii_lowercase (trim v)
      in if s = ''pending'' then Some SS_Pending
         else if s \<in> set [''in_progress'', ''inprogress''] then Some SS_InProgress
         else if s \<in> set [''completed'', ''done''] then Some SS_Completed
         else None)"

record plan_item_arg =
  pi_step :: string
  pi_status :: step_status

type_synonym instant = int

record plan_step =
  st_text :: string
  st_status :: step_status
  st_started_at :: "instant option"
  st_completed_at :: "instant option"

definition plan_step_new :: "string \<Rightarrow> step_status \<Rightarrow> plan_step" where
  "plan_step_new text status = \<lparr> st_text = text, st_status = status, st_started_at = None, st_completed_at = None \<rparr>"

text \<open>
  \<open>PlanSnapshot\<close>; \<open>UpdatePlanArgs\<close> has the same fields, its \<open>plan\<close> in the place of \<open>items\<close>.
\<close>

record plan_snapshot =
  pl_title :: "string option"
  pl_objective :: "string option"
  pl_context_summary :: "string option"
  pl_explanation :: "string option"
  pl_sources_used :: "string list"
  pl_critical_files :: "string list"
  pl_constraints :: "string list"
  pl_recommended_approach :: "string option"
  pl_verification_plan :: "string option"
  pl_risks_and_unknowns :: "string option"
  pl_handoff_packet :: "string option"
  pl_items :: "plan_item_arg list"

type_synonym update_plan_args = plan_snapshot

definition plan_snapshot_is_empty :: "plan_snapshot \<Rightarrow> bool" where
  "plan_snapshot_is_empty p \<longleftrightarrow>
     pl_title p = None \<and> pl_objective p = None \<and> pl_context_summary p = None \<and> pl_explanation p = None \<and>
     pl_sources_used p = [] \<and> pl_critical_files p = [] \<and> pl_constraints p = [] \<and>
     pl_recommended_approach p = None \<and> pl_verification_plan p = None \<and> pl_risks_and_unknowns p = None \<and>
     pl_handoff_packet p = None \<and> pl_items p = []"

record plan_state =
  pt_title :: "string option"
  pt_objective :: "string option"
  pt_context_summary :: "string option"
  pt_explanation :: "string option"
  pt_sources_used :: "string list"
  pt_critical_files :: "string list"
  pt_constraints :: "string list"
  pt_recommended_approach :: "string option"
  pt_verification_plan :: "string option"
  pt_risks_and_unknowns :: "string option"
  pt_handoff_packet :: "string option"
  pt_steps :: "plan_step list"

definition plan_state_default :: plan_state where
  "plan_state_default =
     \<lparr> pt_title = None, pt_objective = None, pt_context_summary = None, pt_explanation = None,
       pt_sources_used = [], pt_critical_files = [], pt_constraints = [], pt_recommended_approach = None,
       pt_verification_plan = None, pt_risks_and_unknowns = None, pt_handoff_packet = None, pt_steps = [] \<rparr>"

definition clean_optional :: "string option \<Rightarrow> string option" where
  "clean_optional v = (case map_option trim v of Some s \<Rightarrow> if s = [] then None else Some s | None \<Rightarrow> None)"

definition clean_list :: "string list \<Rightarrow> string list" where
  "clean_list vs = filter (\<lambda>v. v \<noteq> []) (map trim vs)"

definition next_step :: "instant \<Rightarrow> plan_step option \<Rightarrow> string \<Rightarrow> step_status \<Rightarrow> plan_step" where
  "next_step now existing text status =
     (case existing of
        Some old \<Rightarrow>
          old \<lparr> st_status := status,
                st_started_at := (if st_status old = SS_Pending \<and> status = SS_InProgress
                                  then Some now else st_started_at old),
                st_completed_at := (if st_status old = SS_InProgress \<and> status = SS_Completed
                                    then Some now else st_completed_at old) \<rparr>
      | None \<Rightarrow>
          (plan_step_new text status)
            \<lparr> st_started_at := (if status = SS_InProgress then Some now else None) \<rparr>)"

fun update_steps :: "instant \<Rightarrow> plan_step list \<Rightarrow> bool \<Rightarrow> plan_item_arg list \<Rightarrow> plan_step list" where
  "update_steps now olds seen [] = []"
| "update_steps now olds seen (a # as) =
     (let text = trim (pi_step a)
      in if text = [] then update_steps now olds seen as
         else let existing = find (\<lambda>s. st_text s = text) olds;
                  status = (if pi_status a = SS_InProgress \<and> seen then SS_Pending else pi_status a)
              in next_step now existing text status #
                 update_steps now olds (seen \<or> pi_status a = SS_InProgress) as)"

definition plan_update :: "instant \<Rightarrow> update_plan_args \<Rightarrow> plan_state \<Rightarrow> plan_state" where
  "plan_update now a st =
     \<lparr> pt_title = clean_optional (pl_title a), pt_objective = clean_optional (pl_objective a),
       pt_context_summary = clean_optional (pl_context_summary a),
       pt_explanation = clean_optional (pl_explanation a),
       pt_sources_used = clean_list (pl_sources_used a), pt_critical_files = clean_list (pl_critical_files a),
       pt_constraints = clean_list (pl_constraints a),
       pt_recommended_approach = clean_optional (pl_recommended_approach a),
       pt_verification_plan = clean_optional (pl_verification_plan a),
       pt_risks_and_unknowns = clean_optional (pl_risks_and_unknowns a),
       pt_handoff_packet = clean_optional (pl_handoff_packet a),
       pt_steps = update_steps now (pt_steps st) False (pl_items a) \<rparr>"

definition plan_snapshot_of :: "plan_state \<Rightarrow> plan_snapshot" where
  "plan_snapshot_of st =
     \<lparr> pl_title = pt_title st, pl_objective = pt_objective st, pl_context_summary = pt_context_summary st,
       pl_explanation = pt_explanation st, pl_sources_used = pt_sources_used st,
       pl_critical_files = pt_critical_files st, pl_constraints = pt_constraints st,
       pl_recommended_approach = pt_recommended_approach st, pl_verification_plan = pt_verification_plan st,
       pl_risks_and_unknowns = pt_risks_and_unknowns st, pl_handoff_packet = pt_handoff_packet st,
       pl_items = map (\<lambda>s. \<lparr> pi_step = st_text s, pi_status = st_status s \<rparr>) (pt_steps st) \<rparr>"

definition plan_from_snapshot :: "instant \<Rightarrow> plan_snapshot \<Rightarrow> plan_state" where
  "plan_from_snapshot now s = plan_update now s plan_state_default"

definition plan_counts :: "plan_state \<Rightarrow> usize \<times> usize \<times> usize" where
  "plan_counts st =
     (let count = (\<lambda>status. length (filter (\<lambda>s. st_status s = status) (pt_steps st)))
      in (count SS_Pending, count SS_InProgress, count SS_Completed))"

definition progress_percent :: "plan_state \<Rightarrow> u8" where
  "progress_percent st =
     (if pt_steps st = [] then 0
      else u8_or_max (saturating_mul (length (filter (\<lambda>s. st_status s = SS_Completed) (pt_steps st))) 100 div
             length (pt_steps st)))"

section \<open>The list keeps its identifiers and its single item in progress\<close>

definition todo_inv :: "todo_list \<Rightarrow> bool" where
  "todo_inv l \<longleftrightarrow>
     distinct (map ti_id (tl_items l)) \<and> (\<forall>i \<in> set (tl_items l). 0 < ti_id i \<and> ti_id i < tl_next_id l) \<and>
     0 < tl_next_id l \<and> length (filter (\<lambda>i. ti_status i = TS_InProgress) (tl_items l)) \<le> 1"

text \<open>For evaluation the saturating product is computed on integers, in binary.\<close>

lemma saturating_mul_code [code]: "saturating_mul a b = nat (min (int a * int b) 18446744073709551615)"
  by (simp add: saturating_mul_def min_def nat_mult_distrib flip: of_nat_mult)

lemma u32_less_inc: "(a :: u32) \<noteq> - 1 \<Longrightarrow> a < a + 1"
  by (metis add.commute lessI unatSuc word_less_nat_alt add_eq_0_iff)

lemma todo_new_inv: "todo_inv todo_new"
  by (simp add: todo_inv_def todo_new_def)

lemma set_single_in_progress_None:
  "filter (\<lambda>i. ti_status i = TS_InProgress) (tl_items (set_single_in_progress None l)) = []"
  "map ti_id (tl_items (set_single_in_progress None l)) = map ti_id (tl_items l)"
  "tl_next_id (set_single_in_progress None l) = tl_next_id l"
  by (auto simp: set_single_in_progress_def filter_empty_conv)

lemma todo_add_inv:
  assumes "todo_inv l" and "tl_next_id l \<noteq> - 1"
  shows "todo_inv (fst (todo_add content status l))"
proof -
  define l' where "l' = (if status = TS_InProgress then set_single_in_progress None l else l)"
  have ids: "map ti_id (tl_items l') = map ti_id (tl_items l)" "tl_next_id l' = tl_next_id l"
    by (simp_all add: l'_def set_single_in_progress_None)
  have range: "\<forall>x \<in> set (map ti_id (tl_items l')). 0 < x \<and> x < tl_next_id l"
    unfolding ids using assms(1) by (simp add: todo_inv_def)
  have single: "length (filter (\<lambda>i. ti_status i = TS_InProgress) (tl_items l')) + (if status = TS_InProgress then 1 else 0) \<le> 1"
    using assms(1) by (simp add: l'_def set_single_in_progress_None todo_inv_def)
  have "distinct (map ti_id (tl_items l'))" unfolding ids using assms(1) by (simp add: todo_inv_def)
  moreover have "tl_next_id l < tl_next_id l + 1" by (rule u32_less_inc [OF assms(2)])
  moreover have "0 < tl_next_id l" using assms(1) by (simp add: todo_inv_def)
  ultimately show ?thesis
    using range single unfolding todo_add_def Let_def l'_def [symmetric] todo_inv_def
    by (auto simp: ids(2) intro: less_trans)
qed

lemma restore_loop_Inr:
  assumes "n \<le> 1"
  shows "restore_loop ids n m is = Inr m' \<longleftrightarrow>
    (\<forall>i \<in> set is. ti_id i \<noteq> 0) \<and> distinct (map ti_id is) \<and> ti_id ` set is \<inter> ids = {} \<and>
    n + length (filter (\<lambda>i. ti_status i = TS_InProgress) is) \<le> 1 \<and> m' = fold (\<lambda>i. max (ti_id i)) is m"
  using assms
proof (induction "is" arbitrary: ids n m)
  case (Cons i "is")
  show ?case
  proof (cases "ti_status i = TS_InProgress \<and> n = 1")
    case True
    then show ?thesis by (simp add: Let_def)
  next
    case False
    then have "(if ti_status i = TS_InProgress then n + 1 else n) \<le> 1" using Cons.prems by auto
    from Cons.IH [OF this] False Cons.prems show ?thesis by (auto simp: Let_def max.commute)
  qed
qed auto

lemma fold_max_bounds:
  "(\<forall>i \<in> set is. ti_id i < b) \<Longrightarrow> m < b \<Longrightarrow> fold (\<lambda>i. max (ti_id i)) is m < b"
  "i \<in> set is \<Longrightarrow> ti_id i \<le> fold (\<lambda>i. max (ti_id i)) is m"
  "m \<le> fold (\<lambda>i. max (ti_id i)) is m"
proof (induction "is" arbitrary: m)
  case (Cons j js)
  { case 1 then show ?case using Cons by auto }
  { case 2 then show ?case using Cons(2) [of "max (ti_id j) m"] Cons(3) [of "max (ti_id j) m"] by auto }
  { case 3 then show ?case using Cons(3) [of "max (ti_id j) m"] by auto }
qed simp_all

lemma u32_top: "x = - 1 \<longleftrightarrow> \<not> x < (- 1 :: u32)"
  by (simp add: not_less word_order.extremum_unique)

lemma fold_max_top:
  "fold (\<lambda>i. max (ti_id i)) is 0 = - 1 \<longleftrightarrow> (\<exists>i \<in> set is. ti_id i = - 1)"
proof
  have zero: "(0 :: u32) < - 1" by (simp add: word_gt_0)
  show "\<exists>i \<in> set is. ti_id i = - 1" if "fold (\<lambda>i. max (ti_id i)) is 0 = - 1"
    using fold_max_bounds(1) [OF _ zero, of "is"] that unfolding u32_top by blast
  show "fold (\<lambda>i. max (ti_id i)) is 0 = - 1" if "\<exists>i \<in> set is. ti_id i = - 1"
    using fold_max_bounds(2) [of _ "is" 0] that unfolding u32_top by (meson le_less_trans)
qed

lemma todo_from_snapshot_Inr:
  "todo_from_snapshot s = Inr l \<longleftrightarrow>
     (\<forall>i \<in> set (ls_items s). ti_id i \<noteq> 0 \<and> ti_id i \<noteq> - 1) \<and> distinct (map ti_id (ls_items s)) \<and>
     length (filter (\<lambda>i. ti_status i = TS_InProgress) (ls_items s)) \<le> 1 \<and>
     l = \<lparr> tl_items = ls_items s, tl_next_id = fold (\<lambda>i. max (ti_id i)) (ls_items s) 0 + 1 \<rparr>"
proof (cases "restore_loop {} 0 0 (ls_items s)")
  case (Inl e)
  then have "\<not> ((\<forall>i \<in> set (ls_items s). ti_id i \<noteq> 0) \<and> distinct (map ti_id (ls_items s)) \<and>
      length (filter (\<lambda>i. ti_status i = TS_InProgress) (ls_items s)) \<le> 1)"
    using restore_loop_Inr [of 0 "{}" 0 "ls_items s" "fold (\<lambda>i. max (ti_id i)) (ls_items s) 0"] by auto
  with Inl show ?thesis unfolding todo_from_snapshot_def by (simp only: sum.case sum.simps) blast
next
  case (Inr m)
  then have ok: "\<forall>i \<in> set (ls_items s). ti_id i \<noteq> 0" "distinct (map ti_id (ls_items s))"
    "length (filter (\<lambda>i. ti_status i = TS_InProgress) (ls_items s)) \<le> 1"
    and m: "m = fold (\<lambda>i. max (ti_id i)) (ls_items s) 0"
    using restore_loop_Inr [of 0 "{}" 0 "ls_items s" m] by simp_all
  show ?thesis
  proof (cases "ls_items s = []")
    case True
    with Inr show ?thesis by (auto simp: todo_from_snapshot_def)
  next
    case False
    then have "todo_from_snapshot s =
        (if m = - 1 then Inl ''To-do item IDs are exhausted'' else Inr \<lparr> tl_items = ls_items s, tl_next_id = m + 1 \<rparr>)"
      using Inr by (simp add: todo_from_snapshot_def)
    moreover have "m = - 1 \<longleftrightarrow> (\<exists>i \<in> set (ls_items s). ti_id i = - 1)" unfolding m by (rule fold_max_top)
    ultimately show ?thesis using ok unfolding m [symmetric] by (cases "m = - 1") auto
  qed
qed

lemma todo_from_snapshot_inv:
  assumes "todo_from_snapshot s = Inr l"
  shows "todo_inv l \<and> tl_items l = ls_items s"
proof -
  let ?m = "fold (\<lambda>i. max (ti_id i)) (ls_items s) 0"
  from assms have ok: "\<forall>i \<in> set (ls_items s). ti_id i \<noteq> 0 \<and> ti_id i \<noteq> - 1" "distinct (map ti_id (ls_items s))"
    "length (filter (\<lambda>i. ti_status i = TS_InProgress) (ls_items s)) \<le> 1"
    and l: "l = \<lparr> tl_items = ls_items s, tl_next_id = ?m + 1 \<rparr>"
    unfolding todo_from_snapshot_Inr by blast+
  have "?m < - 1"
    using ok(1) by (intro fold_max_bounds(1)) (auto simp: word_order.not_eq_extremum word_gt_0)
  then have inc: "?m < ?m + 1" by (intro u32_less_inc) auto
  then have "ti_id i < ?m + 1" if "i \<in> set (ls_items s)" for i
    using fold_max_bounds(2) [OF that] by (rule le_less_trans [rotated])
  moreover have "0 < ?m + 1" using inc by (metis word_gt_0 word_not_simps(1))
  ultimately show ?thesis using ok by (auto simp: l todo_inv_def word_neq_0_conv)
qed

lemma todo_snapshot_restored:
  assumes "todo_inv l"
  shows "\<exists>l'. todo_from_snapshot (todo_snapshot l) = Inr l' \<and> todo_inv l' \<and> todo_snapshot l' = todo_snapshot l"
proof -
  have "\<forall>i \<in> set (tl_items l). ti_id i \<noteq> 0 \<and> ti_id i \<noteq> - 1"
    using assms by (auto simp: todo_inv_def word_order.not_eq_extremum intro: less_le_trans)
  with assms obtain l' where l': "todo_from_snapshot (todo_snapshot l) = Inr l'"
    unfolding todo_from_snapshot_Inr by (simp add: todo_snapshot_def todo_inv_def)
  moreover have "tl_items l' = tl_items l" "todo_inv l'"
    using todo_from_snapshot_inv [OF l'] by (simp_all add: todo_snapshot_def)
  ultimately show ?thesis
    by (simp add: todo_snapshot_def completion_percentage_def in_progress_id_def)
qed

lemma todo_add_in_progress:
  "in_progress_id (fst (todo_add content TS_InProgress l)) = Some (tl_next_id l)"
proof -
  have "find P (xs @ [x]) = Some x" if "filter P xs = []" and "P x" for P xs and x :: todo_item
    using that by (induction xs) (auto split: if_splits)
  from this [OF set_single_in_progress_None(1)] show ?thesis
    by (simp add: in_progress_id_def todo_add_def Let_def set_single_in_progress_None(3))
qed

text \<open>
  C20. The To-do list keeps its promises: adding an item, while identifiers are left, keeps the
  identifiers distinct and positive and at most one item in progress, the new one when it is; and the
  snapshot of the list is restored to a list with the same snapshot.
\<close>

theorem todo_list_restored:
  assumes "todo_inv l" and "tl_next_id l \<noteq> - 1"
  shows "todo_inv (fst (todo_add content status l)) \<and>
    (status = TS_InProgress \<longrightarrow> in_progress_id (fst (todo_add content status l)) = Some (tl_next_id l)) \<and>
    (\<exists>l'. todo_from_snapshot (todo_snapshot (fst (todo_add content status l))) = Inr l' \<and> todo_inv l' \<and>
       todo_snapshot l' = todo_snapshot (fst (todo_add content status l)))"
  using todo_add_inv [OF assms] todo_snapshot_restored todo_add_in_progress by blast

theorem todo_list_restored_witness:
  "\<exists>l'. todo_from_snapshot (todo_snapshot (fst (todo_add ''write'' TS_InProgress todo_new))) = Inr l' \<and> todo_inv l'"
proof -
  have "tl_next_id todo_new \<noteq> - 1" by (simp add: todo_new_def)
  from todo_list_restored [OF todo_new_inv this] show ?thesis by blast
qed

section \<open>Percentages\<close>

lemma rounded_quotient:
  assumes "0 < (n :: nat)"
  shows "2 * a < (2 * ((a + n div 2) div n) + 1) * n" and "2 * ((a + n div 2) div n) * n \<le> 2 * a + n"
proof -
  define q where "q = (a + n div 2) div n"
  define x where "x = q * n"
  have "x + (a + n div 2) mod n = a + n div 2" by (simp add: x_def q_def)
  moreover have "(a + n div 2) mod n < n" using assms by simp
  ultimately have "2 * a < 2 * x + n" "2 * x \<le> 2 * a + n" by linarith+
  then show "2 * a < (2 * ((a + n div 2) div n) + 1) * n" "2 * ((a + n div 2) div n) * n \<le> 2 * a + n"
    by (simp_all add: x_def q_def algebra_simps)
qed

text \<open>
  C21. The completion percentage is the share of settled items rounded to the nearest whole number,
  halves up, and never more than 100.
\<close>

theorem completion_percentage_rounds:
  assumes "tl_items l \<noteq> []" and "length (tl_items l) * 100 < 2 ^ 64"
  shows "let settled = length (filter (\<lambda>i. is_settled (ti_status i)) (tl_items l)); n = length (tl_items l);
      pct = unat (completion_percentage l)
    in pct \<le> 100 \<and> 2 * (100 * settled) < (2 * pct + 1) * n \<and> (2 * pct) * n \<le> 2 * (100 * settled) + n"
proof -
  let ?k = "length (filter (\<lambda>i. is_settled (ti_status i)) (tl_items l))" and ?n = "length (tl_items l)"
  let ?q = "(?k * 100 + ?n div 2) div ?n"
  have n: "?n > 0" "?k \<le> ?n" using assms(1) by simp_all
  have "?q \<le> (?n * 100 + ?n div 2) div ?n" using n by (intro div_le_mono) simp
  also have "\<dots> = 100" using n by (simp add: div_mult_self3)
  finally have q: "?q \<le> 100" .
  then have "unat (u8_or_max ?q) = ?q" by (simp add: u8_or_max_def unat_of_nat)
  moreover have "?k * 100 \<le> 2 ^ 64 - 1" using assms(2) n(2) by linarith
  then have "saturating_mul ?k 100 = ?k * 100" by (simp add: saturating_mul_def)
  ultimately have pct: "unat (completion_percentage l) = ?q"
    using n by (simp add: completion_percentage_def rounded_percentage_def)
  then show ?thesis using q rounded_quotient [OF n(1), of "?k * 100"] unfolding Let_def pct by (simp add: mult.commute)
qed

theorem completion_percentage_rounds_witness:
  "unat (completion_percentage (fst (todo_add ''write'' TS_Completed todo_new))) \<le> 100"
proof -
  let ?l = "fst (todo_add ''write'' TS_Completed todo_new)"
  have "tl_items ?l \<noteq> []" "length (tl_items ?l) * 100 < 2 ^ 64"
    by (simp_all add: todo_add_def todo_new_def Let_def)
  from completion_percentage_rounds [OF this] show ?thesis by (simp only: Let_def)
qed

section \<open>Updating a plan normalises it\<close>

lemma clean_optional_idem [simp]: "clean_optional (clean_optional v) = clean_optional v"
  by (auto simp: clean_optional_def trim_trim split: option.splits)

lemma clean_list_idem [simp]: "clean_list (clean_list vs) = clean_list vs"
  by (induction vs) (auto simp: clean_list_def trim_trim)

lemma next_step_view:
  "st_status (next_step now existing text status) = status"
  "st_text (next_step now (find (\<lambda>s. st_text s = text) olds) text status) = text"
proof -
  show "st_status (next_step now existing text status) = status"
    by (cases existing) (simp_all add: next_step_def plan_step_new_def)
  show "st_text (next_step now (find (\<lambda>s. st_text s = text) olds) text status) = text"
  proof (cases "find (\<lambda>s. st_text s = text) olds")
    case None
    then show ?thesis by (simp add: next_step_def plan_step_new_def)
  next
    case (Some old)
    then have "st_text old = text" by (simp add: find_Some_iff) blast
    with Some show ?thesis by (simp add: next_step_def)
  qed
qed

text \<open>The list of items an update leaves, with its timing forgotten, does not depend on the plan it found.\<close>

fun normal_items :: "bool \<Rightarrow> plan_item_arg list \<Rightarrow> plan_item_arg list" where
  "normal_items seen [] = []"
| "normal_items seen (a # as) =
     (if trim (pi_step a) = [] then normal_items seen as
      else \<lparr> pi_step = trim (pi_step a),
             pi_status = (if pi_status a = SS_InProgress \<and> seen then SS_Pending else pi_status a) \<rparr> #
           normal_items (seen \<or> pi_status a = SS_InProgress) as)"

lemma update_steps_view:
  "map (\<lambda>s. \<lparr> pi_step = st_text s, pi_status = st_status s \<rparr>) (update_steps now olds seen as) = normal_items seen as"
  by (induction as arbitrary: seen) (simp_all add: Let_def next_step_view)

lemma normal_items_idem: "normal_items seen (normal_items seen as) = normal_items seen as"
  by (induction as arbitrary: seen) (auto simp: trim_trim)

lemma normal_items_single: "length (filter (\<lambda>a. pi_status a = SS_InProgress) (normal_items seen as)) \<le> (if seen then 0 else 1)"
proof (induction as arbitrary: seen)
  case (Cons a as)
  show ?case using Cons [of True] Cons [of seen] by (cases seen) auto
qed simp

text \<open>
  C22. Updating a plan normalises it once and for all: its items have trimmed, non-empty texts and at
  most one of them is in progress, whatever plan was there before and whatever the clock says; and
  restoring the snapshot taken afterwards, at any later time, gives a plan with that very snapshot.
\<close>

theorem plan_update_normalises:
  "(\<forall>a \<in> set (pl_items (plan_snapshot_of (plan_update now args st))). trim (pi_step a) = pi_step a \<and> pi_step a \<noteq> []) \<and>
   length (filter (\<lambda>a. pi_status a = SS_InProgress) (pl_items (plan_snapshot_of (plan_update now args st)))) \<le> 1 \<and>
   plan_snapshot_of (plan_update now args st) = plan_snapshot_of (plan_update now' args st') \<and>
   plan_snapshot_of (plan_from_snapshot later (plan_snapshot_of (plan_update now args st))) =
     plan_snapshot_of (plan_update now args st)"
proof -
  have items: "pl_items (plan_snapshot_of (plan_update now args st)) = normal_items False (pl_items args)" for now st
    by (simp add: plan_snapshot_of_def plan_update_def update_steps_view)
  have "\<forall>a \<in> set (normal_items seen as). trim (pi_step a) = pi_step a \<and> pi_step a \<noteq> []" for seen as
    by (induction as arbitrary: seen) (auto simp: trim_trim)
  moreover have "plan_snapshot_of (plan_update now args st) = plan_snapshot_of (plan_update now' args st')"
    by (simp add: plan_snapshot_of_def plan_update_def update_steps_view)
  moreover have "plan_snapshot_of (plan_from_snapshot later (plan_snapshot_of (plan_update now args st))) =
     plan_snapshot_of (plan_update now args st)"
    by (simp add: plan_from_snapshot_def plan_snapshot_of_def plan_update_def update_steps_view normal_items_idem)
  ultimately show ?thesis using normal_items_single [of False "pl_items args"] by (simp add: items)
qed

theorem plan_update_normalises_witness:
  "trim ''ship'' = ''ship'' \<and>
   \<lparr> pi_step = ''ship'', pi_status = SS_InProgress \<rparr> \<in>
     set (pl_items (plan_snapshot_of (plan_update 5
       \<lparr> pl_title = None, pl_objective = None, pl_context_summary = None, pl_explanation = None, pl_sources_used = [],
         pl_critical_files = [], pl_constraints = [], pl_recommended_approach = None, pl_verification_plan = None,
         pl_risks_and_unknowns = None, pl_handoff_packet = None,
         pl_items = [\<lparr> pi_step = '' ship '', pi_status = SS_InProgress \<rparr>] \<rparr> plan_state_default)))"
  (is "_ \<and> ?a \<in> set (pl_items (plan_snapshot_of (plan_update 5 ?args plan_state_default)))")
proof -
  have mem: "?a \<in> set (pl_items (plan_snapshot_of (plan_update 5 ?args plan_state_default)))" by code_simp
  moreover have "trim (pi_step ?a) = pi_step ?a"
    using plan_update_normalises [of 5 ?args plan_state_default 5 plan_state_default 5] mem by blast
  ultimately show ?thesis by (simp only: plan_item_arg.select_convs simp_thms)
qed

end
