(* ===== verification/Work_Graph_Views.thy ===== *)
theory Work_Graph_Views
  imports Work_Graph_Reducer Todo_Plan "HOL-Library.Product_Lexorder"
begin

text \<open>
  What the rest of the program reads of a work graph: the legacy plan and To-do views derived from it
  (\<open>tui/src/work_graph/compat.rs\<close>), the plain-text digest (\<open>digest.rs\<close>) and the vocabulary in which the
  owners of operations report to it (\<open>liveness.rs\<close>).

  The lemmas: the views are a function of the plan steps alone, so that nothing an owner reports moves
  them; which well-formed graphs have a To-do view that the list accepts; the digest has one line per
  row whatever the titles contain.
\<close>

section \<open>Legacy views\<close>

definition from_plan_snapshot :: "plan_snapshot \<Rightarrow> compat_plan_metadata" where
  "from_plan_snapshot s =
     \<lparr> cp_title = pl_title s, cp_objective = pl_objective s, cp_context_summary = pl_context_summary s,
       cp_explanation = pl_explanation s, cp_sources_used = pl_sources_used s,
       cp_critical_files = pl_critical_files s, cp_constraints = pl_constraints s,
       cp_recommended_approach = pl_recommended_approach s, cp_verification_plan = pl_verification_plan s,
       cp_risks_and_unknowns = pl_risks_and_unknowns s, cp_handoff_packet = pl_handoff_packet s \<rparr>"

definition to_plan_snapshot :: "compat_plan_metadata \<Rightarrow> plan_snapshot" where
  "to_plan_snapshot m =
     \<lparr> pl_title = cp_title m, pl_objective = cp_objective m, pl_context_summary = cp_context_summary m,
       pl_explanation = cp_explanation m, pl_sources_used = cp_sources_used m,
       pl_critical_files = cp_critical_files m, pl_constraints = cp_constraints m,
       pl_recommended_approach = cp_recommended_approach m, pl_verification_plan = cp_verification_plan m,
       pl_risks_and_unknowns = cp_risks_and_unknowns m, pl_handoff_packet = cp_handoff_packet m,
       pl_items = [] \<rparr>"

definition plan_status :: "work_node \<Rightarrow> step_status" where
  "plan_status n =
     (case wn_state n of
        NS_Initializing \<Rightarrow> SS_InProgress | NS_Active \<Rightarrow> SS_InProgress
      | NS_Completed \<Rightarrow> SS_Completed | NS_Verified \<Rightarrow> SS_Completed
      | _ \<Rightarrow> SS_Pending)"

definition todo_status_of :: "work_node \<Rightarrow> todo_status" where
  "todo_status_of n =
     (case wn_state n of
        NS_Initializing \<Rightarrow> TS_InProgress | NS_Active \<Rightarrow> TS_InProgress
      | NS_Completed \<Rightarrow> TS_Completed | NS_Verified \<Rightarrow> TS_Completed
      | NS_Cancelled \<Rightarrow> TS_Cancelled | NS_Superseded \<Rightarrow> TS_Cancelled
      | _ \<Rightarrow> TS_Pending)"

definition project_plan :: "work_graph_snapshot \<Rightarrow> plan_snapshot" where
  "project_plan g =
     (to_plan_snapshot (cs_plan (wg_compat g)))
       \<lparr> pl_items := map (\<lambda>n. \<lparr> pi_step = wn_title n, pi_status = plan_status n \<rparr>)
           (List.map_filter (wg_node g) (cs_plan_order (wg_compat g))) \<rparr>"

definition project_todos :: "work_graph_snapshot \<Rightarrow> todo_list_snapshot" where
  "project_todos g =
     (let items = List.map_filter
            (\<lambda>b. map_option (\<lambda>n. \<lparr> ti_id = tb_legacy_id b, ti_content = wn_title n, ti_status = todo_status_of n \<rparr>)
                   (wg_node g (tb_node b))) (cs_todos (wg_compat g));
          settled = length (filter (\<lambda>i. is_settled (ti_status i)) items);
          completion_pct = (if items = [] then 0
            else u8_or_max ((saturating_mul settled 100 + length items div 2) div length items));
          in_progress_id = map_option ti_id (find (\<lambda>i. ti_status i = TS_InProgress) items)
      in \<lparr> ls_items = items, ls_completion_pct = completion_pct, ls_in_progress_id = in_progress_id \<rparr>)"

text \<open>What the runtime hands out for saving: a graph with the views derived from it.\<close>

record work_runtime_snapshot =
  rs_graph :: work_graph_snapshot
  rs_todos :: todo_list_snapshot
  rs_plan :: plan_snapshot

section \<open>The digest\<close>

primrec state_rank :: "node_state \<Rightarrow> nat" where
  "state_rank NS_Active = 0"
| "state_rank NS_Initializing = 0"
| "state_rank NS_Waiting = 1"
| "state_rank NS_Blocked = 2"
| "state_rank NS_Stale = 2"
| "state_rank NS_Ready = 3"
| "state_rank NS_Failed = 4"
| "state_rank NS_Completed = 5"
| "state_rank NS_Verified = 6"
| "state_rank NS_Cancelled = 7"
| "state_rank NS_Superseded = 7"

primrec state_label :: "node_state \<Rightarrow> string" where
  "state_label NS_Ready = ''ready''"
| "state_label NS_Initializing = ''starting''"
| "state_label NS_Active = ''running''"
| "state_label NS_Waiting = ''waiting''"
| "state_label NS_Blocked = ''blocked''"
| "state_label NS_Completed = ''ended''"
| "state_label NS_Verified = ''verified''"
| "state_label NS_Stale = ''stale''"
| "state_label NS_Superseded = ''superseded''"
| "state_label NS_Cancelled = ''cancelled''"
| "state_label NS_Failed = ''failed''"

primrec todo_rank :: "todo_status \<Rightarrow> nat" where
  "todo_rank TS_InProgress = 0"
| "todo_rank TS_Pending = 1"
| "todo_rank TS_Completed = 2"
| "todo_rank TS_Cancelled = 3"

primrec todo_label :: "todo_status \<Rightarrow> string" where
  "todo_label TS_Pending = ''pending''"
| "todo_label TS_InProgress = ''running''"
| "todo_label TS_Completed = ''completed''"
| "todo_label TS_Cancelled = ''cancelled''"

definition one_line :: "string \<Rightarrow> string" where
  "one_line v = join '' '' (split_whitespace v)"

text \<open>The format \<open>{:<10}\<close> pads with spaces on the right; the separator is a middle dot, U+00B7.\<close>

definition pad_right :: "nat \<Rightarrow> string \<Rightarrow> string" where
  "pad_right width s = s @ replicate (width - length s) CHR '' ''"

definition ch_middle_dot :: char where
  "ch_middle_dot = char_of (183 :: nat)"

definition digest_row :: "string \<Rightarrow> string \<Rightarrow> string \<Rightarrow> string" where
  "digest_row label name text =
     ''  '' @ pad_right 10 label @ '' '' @ name @ '' '' @ [ch_middle_dot] @ '' '' @ one_line text @ [CHR 0x0A]"

definition digest_operations :: "work_graph_snapshot \<Rightarrow> work_node list" where
  "digest_operations g =
     sort_key (\<lambda>n. (state_rank (wn_state n), wn_updated_at n)) (filter (\<lambda>n. wn_kind n = NK_Operation) (wg_nodes g))"

definition digest_todos :: "todo_list_snapshot \<Rightarrow> todo_item list" where
  "digest_todos s = sort_key (\<lambda>i. (todo_rank (ti_status i), ti_id i)) (ls_items s)"

definition operation_row :: "work_node \<Rightarrow> string" where
  "operation_row n =
     digest_row (state_label (wn_state n))
       (case wn_binding n of Some b \<Rightarrow> ob_external b | None \<Rightarrow> ''unbound'') (wn_title n)"

definition todo_row :: "todo_item \<Rightarrow> string" where
  "todo_row i = digest_row (todo_label (ti_status i)) (''#'' @ show_nat (unat (ti_id i))) (ti_content i)"

definition format_operation_digest_parts :: "work_graph_snapshot \<Rightarrow> todo_list_snapshot \<Rightarrow> string" where
  "format_operation_digest_parts g todos =
     (let operations = digest_operations g;
          todo_items = digest_todos todos
      in if operations = [] \<and> todo_items = [] then ''No active operations or to-do items.''
         else trim_end
           (''Operation digest'' @ [CHR 0x0A] @
            (if operations = [] then [] else [CHR 0x0A] @ ''Operations'' @ [CHR 0x0A] @ concat (map operation_row operations)) @
            (if todo_items = [] then [] else [CHR 0x0A] @ ''To-do'' @ [CHR 0x0A] @ concat (map todo_row todo_items))))"

definition format_operation_digest :: "work_runtime_snapshot option \<Rightarrow> string" where
  "format_operation_digest s =
     (case s of
        None \<Rightarrow> ''No active operations or to-do items.''
      | Some s \<Rightarrow> format_operation_digest_parts (rs_graph s) (rs_todos s))"

section \<open>What owners report\<close>

record operation_intent =
  oi_external :: string
  oi_title :: string
  oi_durable :: bool
  oi_source :: string
  oi_call_id :: string
  oi_acceptance :: "acceptance_requirement list"

definition operation_intent_new :: "string \<Rightarrow> string \<Rightarrow> bool \<Rightarrow> string \<Rightarrow> string \<Rightarrow> operation_intent" where
  "operation_intent_new ext title durable source call_id =
     \<lparr> oi_external = ext, oi_title = title, oi_durable = durable, oi_source = source, oi_call_id = call_id,
       oi_acceptance = [] \<rparr>"

definition with_acceptance :: "acceptance_requirement list \<Rightarrow> operation_intent \<Rightarrow> operation_intent" where
  "with_acceptance acceptance i = i \<lparr> oi_acceptance := acceptance \<rparr>"

record operation_owner_snapshot =
  oo_external :: string
  oo_state :: owner_state
  oo_seq :: u64
  oo_observed_at :: ts
  oo_output :: "evidence_ref option"

definition owner_snapshot_new :: "string \<Rightarrow> owner_state \<Rightarrow> u64 \<Rightarrow> ts \<Rightarrow> operation_owner_snapshot" where
  "owner_snapshot_new ext state seq observed_at =
     \<lparr> oo_external = ext, oo_state = state, oo_seq = seq, oo_observed_at = observed_at, oo_output = None \<rparr>"

definition with_output :: "evidence_ref \<Rightarrow> operation_owner_snapshot \<Rightarrow> operation_owner_snapshot" where
  "with_output output s = s \<lparr> oo_output := Some output \<rparr>"

definition into_observation :: "operation_owner_snapshot \<Rightarrow> operation_observation" where
  "into_observation s = OwnerReported (oo_state s) (oo_seq s) (oo_observed_at s) (oo_output s)"

datatype task_status = TK_Queued | TK_Running | TK_Completed | TK_Failed | TK_Canceled

datatype fleet_task_ledger_status = FT_Enqueued | FT_Leased | FT_Completed | FT_Failed | FT_Cancelled

datatype lane_status = LS_Pending | LS_Running | LS_Stopped | LS_Failed | LS_Completed

primrec task_owner_state :: "task_status \<Rightarrow> owner_state" where
  "task_owner_state TK_Queued = OS_Initializing"
| "task_owner_state TK_Running = OS_Running"
| "task_owner_state TK_Completed = OS_Completed"
| "task_owner_state TK_Failed = OS_Failed"
| "task_owner_state TK_Canceled = OS_Cancelled"

primrec fleet_owner_state :: "fleet_task_ledger_status \<Rightarrow> owner_state" where
  "fleet_owner_state FT_Enqueued = OS_Initializing"
| "fleet_owner_state FT_Leased = OS_Running"
| "fleet_owner_state FT_Completed = OS_Completed"
| "fleet_owner_state FT_Failed = OS_Failed"
| "fleet_owner_state FT_Cancelled = OS_Cancelled"

primrec lane_owner_state :: "lane_status \<Rightarrow> owner_state" where
  "lane_owner_state LS_Pending = OS_Initializing"
| "lane_owner_state LS_Running = OS_Running"
| "lane_owner_state LS_Stopped = OS_Cancelled"
| "lane_owner_state LS_Failed = OS_Failed"
| "lane_owner_state LS_Completed = OS_Completed"

text \<open>Of the owners' own records, the fields that reach a report.\<close>

record fleet_task_state =
  ft_run_id :: string
  ft_task_id :: string
  ft_status :: fleet_task_ledger_status
  ft_lifecycle_seq :: u64

record lane_record =
  lr_id :: string
  lr_status :: lane_status
  lr_lifecycle_seq :: u64

text \<open>Times are milliseconds, the values \<open>timestamp_millis\<close> gives.\<close>

definition task_owner_snapshot ::
  "string \<Rightarrow> task_status \<Rightarrow> u64 \<Rightarrow> ts \<Rightarrow> ts option \<Rightarrow> ts option \<Rightarrow> operation_owner_snapshot" where
  "task_owner_snapshot i status lifecycle_seq created_at started_at ended_at =
     (let observed_at = (case ended_at of
            Some t \<Rightarrow> t
          | None \<Rightarrow> (case started_at of Some t \<Rightarrow> t | None \<Rightarrow> created_at))
      in owner_snapshot_new (''task:'' @ i) (task_owner_state status) lifecycle_seq observed_at)"

definition fleet_task_owner_snapshot :: "fleet_task_state \<Rightarrow> ts \<Rightarrow> operation_owner_snapshot" where
  "fleet_task_owner_snapshot task observed_at =
     owner_snapshot_new (''fleet:'' @ ft_run_id task @ ''/'' @ ft_task_id task)
       (fleet_owner_state (ft_status task)) (max (ft_lifecycle_seq task) 1) observed_at"

definition lane_owner_snapshot :: "lane_record \<Rightarrow> ts \<Rightarrow> operation_owner_snapshot" where
  "lane_owner_snapshot rec observed_at =
     owner_snapshot_new (''lane:'' @ lr_id rec)
       (lane_owner_state (lr_status rec)) (max (lr_lifecycle_seq rec) 1) observed_at"

section \<open>The views depend on the plan steps alone\<close>

lemma metadata_roundtrip [simp]:
  "from_plan_snapshot (to_plan_snapshot m) = m"
  "to_plan_snapshot (from_plan_snapshot p) = p \<lparr> pl_items := [] \<rparr>"
  by (simp_all add: from_plan_snapshot_def to_plan_snapshot_def)

text \<open>A To-do view is the snapshot of a list: its percentage and current item are those of its items.\<close>

lemma project_todos_snapshot:
  "project_todos g = todo_snapshot \<lparr> tl_items = ls_items (project_todos g), tl_next_id = x \<rparr>"
  by (simp add: project_todos_def todo_snapshot_def completion_percentage_def rounded_percentage_def
      in_progress_id_def Let_def)

definition view_of :: "work_graph_snapshot \<Rightarrow> work_node_id \<Rightarrow> (string \<times> node_state) option" where
  "view_of g i = map_option (\<lambda>n. (wn_title n, wn_state n)) (wg_node g i)"

definition bound_ids :: "work_graph_snapshot \<Rightarrow> work_node_id set" where
  "bound_ids g = set (cs_plan_order (wg_compat g)) \<union> tb_node ` set (cs_todos (wg_compat g))"

lemma map_filter_cong: "(\<And>x. x \<in> set xs \<Longrightarrow> f x = g x) \<Longrightarrow> List.map_filter f xs = List.map_filter g xs"
  by (induction xs) (simp_all add: List.map_filter_simps split: option.split)

lemma map_map_filter: "map f (List.map_filter g xs) = List.map_filter (\<lambda>x. map_option f (g x)) xs"
  by (induction xs) (simp_all add: List.map_filter_simps split: option.split)

lemma views_cong:
  assumes "wg_compat g' = wg_compat g" and "\<And>i. i \<in> bound_ids g \<Longrightarrow> view_of g' i = view_of g i"
  shows "project_plan g' = project_plan g" and "project_todos g' = project_todos g"
proof -
  let ?F = "\<lambda>f. map_option (case_prod f)"
  have plan_item: "map_option (\<lambda>n. \<lparr> pi_step = wn_title n, pi_status = plan_status n \<rparr>) (wg_node h i) =
      ?F (\<lambda>t s. \<lparr> pi_step = t, pi_status = plan_status (undefined \<lparr> wn_state := s \<rparr>) \<rparr>) (view_of h i)" for h i
    by (cases "wg_node h i") (simp_all add: view_of_def plan_status_def)
  have todo_item: "map_option (\<lambda>n. \<lparr> ti_id = j, ti_content = wn_title n, ti_status = todo_status_of n \<rparr>) (wg_node h i) =
      ?F (\<lambda>t s. \<lparr> ti_id = j, ti_content = t, ti_status = todo_status_of (undefined \<lparr> wn_state := s \<rparr>) \<rparr>) (view_of h i)" for h i j
    by (cases "wg_node h i") (simp_all add: view_of_def todo_status_of_def)
  show "project_plan g' = project_plan g"
    unfolding project_plan_def map_map_filter plan_item assms(1)
    by (intro arg_cong [where f = "\<lambda>is. _ \<lparr> pl_items := is \<rparr>"] map_filter_cong) (simp add: assms(2) bound_ids_def)
  have "List.map_filter (\<lambda>b. map_option (\<lambda>n. \<lparr> ti_id = tb_legacy_id b, ti_content = wn_title n, ti_status = todo_status_of n \<rparr>)
        (wg_node g' (tb_node b))) (cs_todos (wg_compat g)) =
      List.map_filter (\<lambda>b. map_option (\<lambda>n. \<lparr> ti_id = tb_legacy_id b, ti_content = wn_title n, ti_status = todo_status_of n \<rparr>)
        (wg_node g (tb_node b))) (cs_todos (wg_compat g))"
    unfolding todo_item by (intro map_filter_cong) (simp add: assms(2) bound_ids_def)
  then show "project_todos g' = project_todos g" unfolding project_todos_def assms(1) by simp
qed

text \<open>In a well-formed graph every identifier a view uses is that of a plan step.\<close>

lemma bound_plan_step:
  assumes "well_formed g" and "i \<in> bound_ids g"
  obtains n where "wg_node g i = Some n" and "wn_kind n = NK_PlanStep"
proof -
  have ids: "distinct (map wn_id (wg_nodes g))" using assms(1) by (simp add: well_formed_def wf_structure_def)
  have "i \<in> plan_steps g" using assms by (auto simp: well_formed_def wf_projection_def bound_ids_def)
  then show ?thesis using that wg_node_unique [OF ids] by (auto simp: plan_steps_def)
qed

text \<open>The changes that may rewrite a view.\<close>

fun rewrites_views :: "work_graph_change \<Rightarrow> bool" where
  "rewrites_views (UpdateNode i p) = True"
| "rewrites_views (Supersede old replacement) = True"
| "rewrites_views (ReplaceCompatProjection c) = True"
| "rewrites_views (AcceptPlanDiff pid a) = True"
| "rewrites_views _ = False"

lemma apply_pure_compat:
  "apply_pure sha g ctx c = Inr g' \<Longrightarrow> \<not> rewrites_views c \<Longrightarrow> wg_compat g' = wg_compat g"
  by (cases c)
    (auto simp: step_outcomes bind_operation_def attach_evidence_def propose_plan_diff_def withdraw_plan_diff_def
      record_activity_def Let_def dest!: remove_edge_Inr split: if_splits option.splits)

lemma apply_pure_view:
  assumes "apply_pure sha g ctx c = Inr g'" and "\<not> rewrites_views c"
    and "wg_node g i = Some n" and "wn_binding n = None"
  shows "view_of g' i = view_of g i"
proof -
  have append: "view_of (g \<lparr> wg_nodes := wg_nodes g @ [m] \<rparr>) i = view_of g i" for m
    using assms(3) by (simp add: view_of_def wg_node_append)
  show ?thesis
  proof (cases c)
    case (ReconcileOperation j obs)
    with assms(1,3,4) have "i \<noteq> j" by (auto simp: reconcile_Inr)
    with ReconcileOperation assms(1) show ?thesis
      by (auto simp: reconcile_Inr view_of_def wg_node_node_mut reconciled_def)
  next
    case (BindOperation j b)
    with assms(1) show ?thesis
      by (auto simp: bind_operation_def view_of_def wg_node_node_mut option.map_comp comp_def split: if_splits)
  next
    case (AttachEvidence j e)
    with assms(1) obtain m where "view_of g' i = view_of (g \<lparr> wg_nodes := wg_nodes g @ [m] \<rparr>) i"
      by (auto simp: attach_evidence_def add_node_Inr add_edge_Inr view_of_def split: if_splits)
    with append show ?thesis by simp
  qed (use assms(1,2) append in \<open>auto simp: add_node_Inr add_edge_Inr propose_plan_diff_def withdraw_plan_diff_def
      record_activity_def Let_def view_of_def dest!: remove_edge_Inr split: if_splits option.splits\<close>)
qed

text \<open>What the views rely on of the nodes they show; every well-formed graph has it.\<close>

definition rows_bound :: "work_graph_snapshot \<Rightarrow> bool" where
  "rows_bound g \<longleftrightarrow> (\<forall>i \<in> bound_ids g. \<exists>n. wg_node g i = Some n \<and> wn_binding n = None)"

lemma well_formed_rows_bound:
  assumes "well_formed g"
  shows "rows_bound g"
  unfolding rows_bound_def
proof
  fix i assume "i \<in> bound_ids g"
  with assms obtain n where n: "wg_node g i = Some n" "wn_kind n = NK_PlanStep" by (rule bound_plan_step)
  then have "wn_binding n = None" using assms wg_node_Some [OF n(1)] by (auto simp: well_formed_def wf_node_def)
  with n show "\<exists>n. wg_node g i = Some n \<and> wn_binding n = None" by blast
qed

lemma change_keeps_views:
  assumes "rows_bound g" and "apply_change sha g c ctx = Inr (g', r)" and "\<not> rewrites_views c"
  shows "project_plan g' = project_plan g \<and> project_todos g' = project_todos g \<and> rows_bound g'"
proof (cases "is_duplicate g ctx")
  case True
  with assms(1,2) show ?thesis by (simp add: apply_change_def)
next
  case False
  with assms(2) obtain candidate where candidate: "apply_pure sha g ctx c = Inr candidate" and "well_formed candidate"
    and "(g', r) = commit sha g c ctx candidate" by (rule apply_change_Inr)
  then have same: "wg_compat g' = wg_compat candidate" "wg_node g' = wg_node candidate"
    using commit_nodes by (metis fst_conv)+
  then have "rows_bound g'"
    using well_formed_rows_bound [OF \<open>well_formed candidate\<close>] by (simp add: rows_bound_def bound_ids_def)
  moreover have "wg_compat candidate = wg_compat g" by (rule apply_pure_compat [OF candidate assms(3)])
  moreover have "view_of candidate i = view_of g i" if "i \<in> bound_ids g" for i
  proof -
    from assms(1) that obtain n where "wg_node g i = Some n" "wn_binding n = None" by (auto simp: rows_bound_def)
    then show ?thesis by (rule apply_pure_view [OF candidate assms(3)])
  qed
  ultimately show ?thesis using same by (intro conjI views_cong) (simp_all add: view_of_def)
qed

text \<open>
  C12. Operations never move the plan or the To-do list: whatever an owner reports, whatever node, edge,
  binding, evidence, proposal or activity is added, as long as the change neither edits a node nor
  replaces the projections, both legacy views of a well-formed graph are afterwards what they were.
\<close>

theorem operations_keep_views:
  assumes "well_formed g" and "apply_change sha g c ctx = Inr (g', r)" and "\<not> rewrites_views c"
  shows "project_plan g' = project_plan g \<and> project_todos g' = project_todos g"
  using change_keeps_views [OF well_formed_rows_bound [OF assms(1)] assms(2,3)] by simp

definition sample_views_graph :: work_graph_snapshot where
  "sample_views_graph = sample_graph \<lparr> wg_compat := compat_default \<lparr> cs_plan_order := [''p''],
     cs_todos := [\<lparr> tb_legacy_id = 1, tb_node = ''p'', tb_plan_index = Some 0 \<rparr>] \<rparr> \<rparr>"

theorem operations_keep_views_witness:
  "project_todos (after (apply_change (\<lambda>s. s) sample_views_graph (ReconcileOperation ''o'' (OwnerMissing 9)) sample_ctx)) =
     todo_snapshot \<lparr> tl_items = [\<lparr> ti_id = 1, ti_content = ''t'', ti_status = TS_Cancelled \<rparr>], tl_next_id = 2 \<rparr>"
proof -
  let ?c = "ReconcileOperation ''o'' (OwnerMissing 9)"
  have "validate sample_views_graph = Inr ()" by code_simp
  then have wf: "well_formed sample_views_graph" by (simp add: validate_Inr_iff)
  have "is_accepted (apply_change (\<lambda>s. s) sample_views_graph ?c sample_ctx)" by code_simp
  from is_accepted_after [OF this] obtain r where
    "apply_change (\<lambda>s. s) sample_views_graph ?c sample_ctx = Inr (after (apply_change (\<lambda>s. s) sample_views_graph ?c sample_ctx), r)" ..
  from operations_keep_views [OF wf this] have
    "project_todos (after (apply_change (\<lambda>s. s) sample_views_graph ?c sample_ctx)) = project_todos sample_views_graph" by simp
  also have "\<dots> = todo_snapshot \<lparr> tl_items = [\<lparr> ti_id = 1, ti_content = ''t'', ti_status = TS_Cancelled \<rparr>], tl_next_id = 2 \<rparr>"
    by code_simp
  finally show ?thesis .
qed

section \<open>Which To-do views the list accepts\<close>

definition in_progress_node :: "work_graph_snapshot \<Rightarrow> work_node_id \<Rightarrow> bool" where
  "in_progress_node g i \<longleftrightarrow> (case wg_node g i of Some n \<Rightarrow> wn_state n \<in> {NS_Initializing, NS_Active} | None \<Rightarrow> False)"

lemma todo_status_in_progress: "todo_status_of n = TS_InProgress \<longleftrightarrow> wn_state n \<in> {NS_Initializing, NS_Active}"
  by (cases "wn_state n") (simp_all add: todo_status_of_def)

text \<open>With every bound node present, the rows are the bindings, one by one.\<close>

definition todo_row_of :: "work_graph_snapshot \<Rightarrow> compat_todo_binding \<Rightarrow> todo_item option" where
  "todo_row_of g b =
     map_option (\<lambda>n. \<lparr> ti_id = tb_legacy_id b, ti_content = wn_title n, ti_status = todo_status_of n \<rparr>) (wg_node g (tb_node b))"

lemma project_todos_items: "ls_items (project_todos g) = List.map_filter (todo_row_of g) (cs_todos (wg_compat g))"
  by (simp add: project_todos_def Let_def todo_row_of_def [abs_def])

lemma todo_rows:
  assumes "\<forall>b \<in> set bs. wg_node g (tb_node b) \<noteq> None"
  shows "map ti_id (List.map_filter (todo_row_of g) bs) = map tb_legacy_id bs \<and>
    length (filter (\<lambda>i. ti_status i = TS_InProgress) (List.map_filter (todo_row_of g) bs)) =
      length (filter (\<lambda>b. in_progress_node g (tb_node b)) bs)"
  using assms
proof (induction bs)
  case (Cons b bs)
  then obtain n where n: "wg_node g (tb_node b) = Some n" by auto
  with Cons have "todo_row_of g b = Some \<lparr> ti_id = tb_legacy_id b, ti_content = wn_title n, ti_status = todo_status_of n \<rparr>"
    and "in_progress_node g (tb_node b) \<longleftrightarrow> todo_status_of n = TS_InProgress"
    by (simp_all add: todo_row_of_def in_progress_node_def todo_status_in_progress)
  with Cons show ?case by (simp add: List.map_filter_simps)
qed (simp add: List.map_filter_simps)

text \<open>
  C14. Which To-do views can be published: of a well-formed graph, the To-do view is accepted by the
  list, and read back unchanged, just if no row has the largest identifier and at most one row is in
  progress - starting or running.
\<close>

theorem todo_view_restorable:
  assumes "well_formed g"
  shows "(\<exists>l. todo_from_snapshot (project_todos g) = Inr l \<and> todo_snapshot l = project_todos g) \<longleftrightarrow>
    - 1 \<notin> tb_legacy_id ` set (cs_todos (wg_compat g)) \<and>
    length (filter (\<lambda>b. in_progress_node g (tb_node b)) (cs_todos (wg_compat g))) \<le> 1"
proof -
  let ?bs = "cs_todos (wg_compat g)" and ?is = "ls_items (project_todos g)"
  have "wg_node g (tb_node b) \<noteq> None" if "b \<in> set ?bs" for b
  proof -
    from that have "tb_node b \<in> bound_ids g" by (simp add: bound_ids_def)
    from bound_plan_step [OF assms this] show ?thesis by blast
  qed
  then have rows: "map ti_id ?is = map tb_legacy_id ?bs \<and>
      length (filter (\<lambda>i. ti_status i = TS_InProgress) ?is) = length (filter (\<lambda>b. in_progress_node g (tb_node b)) ?bs)"
    unfolding project_todos_items by (intro todo_rows) blast
  have ids: "map ti_id ?is = map tb_legacy_id ?bs" by (rule conjunct1 [OF rows])
  then have idset: "ti_id ` set ?is = tb_legacy_id ` set ?bs" by (metis set_map)
  have count: "length (filter (\<lambda>i. ti_status i = TS_InProgress) ?is) = length (filter (\<lambda>b. in_progress_node g (tb_node b)) ?bs)"
    by (rule conjunct2 [OF rows])
  have "distinct (map tb_legacy_id ?bs)" "0 \<notin> tb_legacy_id ` set ?bs"
    using assms by (auto simp: well_formed_def wf_projection_def)
  then have ok: "distinct (map ti_id ?is)" "\<forall>i \<in> set ?is. ti_id i \<noteq> 0" unfolding ids idset [symmetric] by force+
  have snapshot: "todo_snapshot \<lparr> tl_items = ?is, tl_next_id = x \<rparr> = project_todos g" for x
    by (simp add: project_todos_snapshot [symmetric])
  have "(\<exists>l. todo_from_snapshot (project_todos g) = Inr l \<and> todo_snapshot l = project_todos g) \<longleftrightarrow>
      (\<forall>i \<in> set ?is. ti_id i \<noteq> - 1) \<and> length (filter (\<lambda>i. ti_status i = TS_InProgress) ?is) \<le> 1"
    unfolding todo_from_snapshot_Inr using ok snapshot by auto
  also have "(\<forall>i \<in> set ?is. ti_id i \<noteq> - 1) \<longleftrightarrow> - 1 \<notin> ti_id ` set ?is" by force
  finally show ?thesis unfolding count idset .
qed

theorem todo_view_restorable_witness:
  "\<exists>l. todo_from_snapshot (project_todos sample_views_graph) = Inr l \<and> todo_snapshot l = project_todos sample_views_graph"
proof -
  have "validate sample_views_graph = Inr ()" by code_simp
  then have wf: "well_formed sample_views_graph" by (simp add: validate_Inr_iff)
  have "- 1 \<notin> tb_legacy_id ` set (cs_todos (wg_compat sample_views_graph))" by (simp add: sample_views_graph_def)
  moreover have "length (filter (\<lambda>b. in_progress_node sample_views_graph (tb_node b))
      (cs_todos (wg_compat sample_views_graph))) \<le> 1" by (simp add: sample_views_graph_def)
  ultimately show ?thesis using todo_view_restorable [OF wf] by blast
qed



section \<open>The digest has one line per row\<close>

lemma one_line_no_break: "CHR 0x0A \<notin> set (one_line v)"
proof -
  have "is_whitespace CHR 0x0A" by (simp add: is_whitespace_def)
  then have "CHR 0x0A \<notin> set t" if "t \<in> set (split_whitespace v)" for t
    using split_whitespace_tokens [OF that] by (auto simp: is_token_def list_all_iff)
  then show ?thesis using set_join [of "'' ''" "split_whitespace v"] by (auto simp: one_line_def)
qed

lemma show_nat_no_break: "CHR 0x0A \<notin> set (show_nat n)"
proof (induction n rule: show_nat.induct)
  case (1 n)
  have "digit k \<noteq> CHR 0x0A" if "k < 10" for k
  proof
    assume "digit k = CHR 0x0A"
    then have "(of_char (digit k) :: nat) = of_char CHR 0x0A" by simp
    with that show False by (simp add: digit_def)
  qed
  from this [of n] this [of "n mod 10"] 1 show ?case by (subst show_nat.simps) (auto simp: eq_commute)
qed

lemma plain_identity_no_break: "plain_identity s \<Longrightarrow> CHR 0x0A \<notin> set s"
  by (auto simp: plain_identity_def list_ex_iff is_whitespace_def)

lemma split_once_set: "split_once c s = Some (a, b) \<Longrightarrow> set s = set a \<union> {c} \<union> set b"
proof -
  assume "split_once c s = Some (a, b)"
  then have c: "c \<in> set s" and ab: "a = takeWhile (\<lambda>x. x \<noteq> c) s" "b = tl (dropWhile (\<lambda>x. x \<noteq> c) s)"
    by (simp_all add: split_once_def split: if_splits)
  have "dropWhile (\<lambda>x. x \<noteq> c) s \<noteq> []" using c by (auto simp: dropWhile_eq_Nil_conv)
  then have "dropWhile (\<lambda>x. x \<noteq> c) s = c # b"
    using hd_dropWhile [of "\<lambda>x. x \<noteq> c" s] unfolding ab by (metis list.collapse)
  then have "s = a @ c # b" unfolding ab(1) by (metis takeWhile_dropWhile_id)
  then show ?thesis by simp
qed

lemma strip_prefix_set: "strip_prefix p s = Some r \<Longrightarrow> set s = set p \<union> set r"
  by (auto simp: strip_prefix_def prefix_def split: if_splits)

lemma external_no_break:
  assumes "external_identity_is_well_formed ext"
  shows "CHR 0x0A \<notin> set ext"
proof (cases "strip_prefix ''fleet:'' ext")
  case None
  with assms obtain p rest where p: "p \<in> set [''task:'', ''shell:'', ''worker:'', ''workflow:'', ''lane:'']"
    and "strip_prefix p ext = Some rest" and "plain_identity rest"
    unfolding external_identity_is_well_formed_def list_ex_iff by (auto split: option.splits)
  moreover have "CHR 0x0A \<notin> set p" using p by auto
  ultimately show ?thesis using strip_prefix_set plain_identity_no_break by blast
next
  case (Some rest)
  with assms obtain run task where "split_once CHR ''/'' rest = Some (run, task)" "plain_identity run" "plain_identity task"
    by (auto simp: external_identity_is_well_formed_def split: option.splits)
  then have "CHR 0x0A \<notin> set rest" using split_once_set plain_identity_no_break by fastforce
  moreover have "set ext = set ''fleet:'' \<union> set rest" by (rule strip_prefix_set [OF Some])
  ultimately show ?thesis by simp
qed

lemma concat_lines: "ls \<noteq> [] \<Longrightarrow> concat (map (\<lambda>l. l @ [c]) ls) = join [c] ls @ [c]"
  by (induction ls rule: induct_list012) simp_all

lemma trim_end_append: "\<exists>c \<in> set l. \<not> is_whitespace c \<Longrightarrow> trim_end (p @ l) = p @ trim_end l"
  by (auto simp: trim_end_def dropWhile_append)

lemma join_snoc: "join sep (ls @ [l]) = concat (map (\<lambda>l. l @ sep) ls) @ l"
  by (induction ls rule: induct_list012) simp_all

lemma trim_end_lines:
  assumes "ls \<noteq> []" and "\<exists>c \<in> set (last ls). \<not> is_whitespace c" and "\<forall>l \<in> set ls. CHR 0x0A \<notin> set l"
  shows "split_on CHR 0x0A (trim_end (concat (map (\<lambda>l. l @ [CHR 0x0A]) ls))) = butlast ls @ [trim_end (last ls)]"
proof -
  have ls: "butlast ls @ [last ls] = ls" using assms(1) by simp
  have "trim_end (s @ [CHR 0x0A]) = trim_end s" for s by (simp add: trim_end_def is_whitespace_def)
  then have "trim_end (concat (map (\<lambda>l. l @ [CHR 0x0A]) ls)) = trim_end (join [CHR 0x0A] (butlast ls @ [last ls]))"
    unfolding ls using concat_lines [OF assms(1)] by simp
  also have "\<dots> = join [CHR 0x0A] (butlast ls @ [trim_end (last ls)])"
    unfolding join_snoc by (rule trim_end_append [OF assms(2)])
  finally have "trim_end (concat (map (\<lambda>l. l @ [CHR 0x0A]) ls)) = join [CHR 0x0A] (butlast ls @ [trim_end (last ls)])" .
  moreover have "set (trim_end (last ls)) \<subseteq> set (last ls)" by (auto simp: trim_end_def dest: set_dropWhileD)
  then have "\<forall>l \<in> set (butlast ls @ [trim_end (last ls)]). CHR 0x0A \<notin> set l"
    using assms(1,3) by (auto dest: in_set_butlastD)
  ultimately show ?thesis using split_on_join [of "butlast ls @ [trim_end (last ls)]"] by simp
qed

definition digest_line :: "string \<Rightarrow> string \<Rightarrow> string \<Rightarrow> string" where
  "digest_line label name text = ''  '' @ pad_right 10 label @ '' '' @ name @ '' '' @ [ch_middle_dot] @ '' '' @ one_line text"

definition operation_line :: "work_node \<Rightarrow> string" where
  "operation_line n =
     digest_line (state_label (wn_state n)) (case wn_binding n of Some b \<Rightarrow> ob_external b | None \<Rightarrow> ''unbound'') (wn_title n)"

definition todo_line :: "todo_item \<Rightarrow> string" where
  "todo_line i = digest_line (todo_label (ti_status i)) (''#'' @ show_nat (unat (ti_id i))) (ti_content i)"

definition digest_lines :: "work_graph_snapshot \<Rightarrow> todo_list_snapshot \<Rightarrow> string list" where
  "digest_lines g todos =
     ''Operation digest'' #
     (if digest_operations g = [] then [] else [] # ''Operations'' # map operation_line (digest_operations g)) @
     (if digest_todos todos = [] then [] else [] # ''To-do'' # map todo_line (digest_todos todos))"

lemma rows_are_lines:
  "operation_row n = operation_line n @ [CHR 0x0A]" "todo_row i = todo_line i @ [CHR 0x0A]"
  by (simp_all add: operation_row_def operation_line_def todo_row_def todo_line_def digest_row_def digest_line_def)

lemma digest_line_no_break:
  assumes "CHR 0x0A \<notin> set label" and "CHR 0x0A \<notin> set name"
  shows "CHR 0x0A \<notin> set (digest_line label name text)"
proof -
  have "ch_middle_dot \<noteq> CHR 0x0A" by code_simp
  then show ?thesis using assms one_line_no_break by (auto simp: digest_line_def pad_right_def)
qed

lemma digest_line_visible: "\<exists>c \<in> set (digest_line label name text). \<not> is_whitespace c"
proof (intro bexI)
  show "\<not> is_whitespace ch_middle_dot" by code_simp
  show "ch_middle_dot \<in> set (digest_line label name text)" by (simp add: digest_line_def)
qed

lemma labels_no_break: "CHR 0x0A \<notin> set (state_label s)" "CHR 0x0A \<notin> set (todo_label t)"
  by (cases s; simp) (cases t; simp)

lemma operation_line_no_break:
  assumes "well_formed g" and "n \<in> set (wg_nodes g)"
  shows "CHR 0x0A \<notin> set (operation_line n)"
proof -
  have "wn_binding n = Some b \<Longrightarrow> external_identity_is_well_formed (ob_external b)" for b
    using assms by (simp add: well_formed_def wf_node_def)
  then have "CHR 0x0A \<notin> set (case wn_binding n of Some b \<Rightarrow> ob_external b | None \<Rightarrow> ''unbound'')"
    using external_no_break by (cases "wn_binding n") auto
  then show ?thesis unfolding operation_line_def by (rule digest_line_no_break [OF labels_no_break(1)])
qed

lemma todo_line_no_break: "CHR 0x0A \<notin> set (todo_line i)"
  unfolding todo_line_def by (intro digest_line_no_break labels_no_break) (simp add: show_nat_no_break)

lemma digest_lines_concat:
  assumes "digest_operations g \<noteq> [] \<or> digest_todos todos \<noteq> []"
  shows "format_operation_digest_parts g todos = trim_end (concat (map (\<lambda>l. l @ [CHR 0x0A]) (digest_lines g todos)))"
proof -
  have "concat (map operation_row ns) = concat (map (\<lambda>l. l @ [CHR 0x0A]) (map operation_line ns))"
    "concat (map todo_row is) = concat (map (\<lambda>l. l @ [CHR 0x0A]) (map todo_line is))" for ns "is"
    by (induction ns) (simp_all add: rows_are_lines, induction "is", simp_all add: rows_are_lines)
  then show ?thesis using assms by (simp add: format_operation_digest_parts_def digest_lines_def)
qed

text \<open>
  C15. A title cannot forge a line of the digest: whatever the titles contain, the digest of a
  well-formed graph has exactly its heading lines and one line per operation and To-do item, in the
  digest's order; only blanks at the very end are cut.
\<close>

theorem digest_has_one_line_per_row:
  assumes "well_formed g" and "digest_operations g \<noteq> [] \<or> digest_todos todos \<noteq> []"
  shows "split_on CHR 0x0A (format_operation_digest_parts g todos) =
    butlast (digest_lines g todos) @ [trim_end (last (digest_lines g todos))]"
proof -
  have operations: "\<forall>n \<in> set (digest_operations g). CHR 0x0A \<notin> set (operation_line n)"
    using operation_line_no_break [OF assms(1)] by (simp add: digest_operations_def)
  have "\<exists>c \<in> set (last (digest_lines g todos)). \<not> is_whitespace c"
  proof (cases "digest_todos todos = []")
    case True
    with assms(2) have "last (digest_lines g todos) = operation_line (last (digest_operations g))"
      by (simp add: digest_lines_def last_map)
    then show ?thesis by (simp add: operation_line_def digest_line_visible)
  next
    case False
    then have "last (digest_lines g todos) = todo_line (last (digest_todos todos))"
      by (simp add: digest_lines_def last_map)
    then show ?thesis by (simp add: todo_line_def digest_line_visible)
  qed
  moreover have "\<forall>l \<in> set (digest_lines g todos). CHR 0x0A \<notin> set l"
    using operations by (auto simp: digest_lines_def todo_line_no_break)
  moreover have "digest_lines g todos \<noteq> []" by (simp add: digest_lines_def)
  ultimately show ?thesis unfolding digest_lines_concat [OF assms(2)] by (intro trim_end_lines)
qed

theorem digest_has_one_line_per_row_witness:
  "length (split_on CHR 0x0A (format_operation_digest_parts sample_graph \<lparr> ls_items = [], ls_completion_pct = 0, ls_in_progress_id = None \<rparr>)) = 4"
  (is "length (split_on _ (format_operation_digest_parts _ ?todos)) = 4")
proof -
  have "validate sample_graph = Inr ()" by code_simp
  then have wf: "well_formed sample_graph" by (simp add: validate_Inr_iff)
  have "length (digest_operations sample_graph) = 1"
    by (simp add: digest_operations_def sample_graph_def sample_node_def)
  moreover from this have "digest_operations sample_graph \<noteq> [] \<or> digest_todos ?todos \<noteq> []" by auto
  moreover have "digest_todos ?todos = []" by (simp add: digest_todos_def)
  ultimately show ?thesis using digest_has_one_line_per_row [OF wf] by (simp add: digest_lines_def)
qed

end
