(* ===== verification/Work_Graph_Import.thy ===== *)
theory Work_Graph_Import
  imports Work_Graph_Views
begin

text \<open>
  The import of a session saved before the work graph: \<open>tui/src/work_graph/migration.rs\<close>, statement by
  statement over the reducer.

  Three things the code gets from elsewhere are parameters: \<open>sha\<close>, the hexadecimal SHA-256 digest;
  \<open>canon\<close>, the JSON text of the two views or the serialiser's error; and \<open>mk\<close>, the character U+2063
  that delimits a retired marker, which is outside the characters of the model. \<open>mk\<close> is invisible text
  and no white space.

  The lemmas: what an import yields is reachable by the reducer and so valid, and an import of views
  without markers loses nothing - it succeeds whenever no two derived identifiers collide, and the
  views of the graph are the views it was given, normalised.
\<close>

section \<open>Reading a retired marker\<close>

definition plan_provenance_prefix :: "char \<Rightarrow> string" where
  "plan_provenance_prefix mk = mk # ''cw-plan-step:''"

text \<open>\<open>str::parse::<u32>\<close>: an optional plus sign, then at least one digit and no overflow.\<close>

definition digit_value :: "char \<Rightarrow> nat" where
  "digit_value c = of_char c - 48"

definition parse_u32 :: "string \<Rightarrow> u32 option" where
  "parse_u32 s =
     (let digits = (case s of c # rest \<Rightarrow> if c = CHR ''+'' then rest else s | [] \<Rightarrow> []);
          v = foldl (\<lambda>n c. 10 * n + int (digit_value c)) 0 digits
      in if digits \<noteq> [] \<and> list_all is_ascii_digit digits \<and> v < 4294967296 then Some (of_int v) else None)"

definition strip_plan_provenance :: "char \<Rightarrow> string \<Rightarrow> string \<times> u32 option" where
  "strip_plan_provenance mk content =
     (case split_once_str (plan_provenance_prefix mk) content of
        None \<Rightarrow> (trim (filter (\<lambda>c. c \<noteq> mk) content), None)
      | Some (before, rest) \<Rightarrow>
          (let (marker_rest, index) =
             (case split_once mk rest of
                Some (v, tail) \<Rightarrow> (tail, parse_u32 v)
              | None \<Rightarrow> ([], None))
           in (trim (filter (\<lambda>c. c \<noteq> mk) (before @ marker_rest)), index)))"

section \<open>States\<close>

primrec node_state_from_plan :: "step_status \<Rightarrow> node_state" where
  "node_state_from_plan SS_Pending = NS_Ready"
| "node_state_from_plan SS_InProgress = NS_Active"
| "node_state_from_plan SS_Completed = NS_Completed"

primrec node_state_from_todo :: "todo_status \<Rightarrow> node_state" where
  "node_state_from_todo TS_Pending = NS_Ready"
| "node_state_from_todo TS_InProgress = NS_Active"
| "node_state_from_todo TS_Completed = NS_Completed"
| "node_state_from_todo TS_Cancelled = NS_Cancelled"

definition advance_rank :: "node_state \<Rightarrow> nat" where
  "advance_rank s =
     (if s = NS_Completed \<or> s = NS_Verified then 2 else if s = NS_Initializing \<or> s = NS_Active then 1 else 0)"

definition more_advanced_state :: "node_state \<Rightarrow> node_state \<Rightarrow> node_state" where
  "more_advanced_state left right = (if advance_rank right > advance_rank left then right else left)"

section \<open>The import\<close>

definition import_apply ::
  "(string \<Rightarrow> string) \<Rightarrow> work_graph_change \<Rightarrow> change_ctx \<Rightarrow> work_graph_snapshot \<Rightarrow> string + work_graph_snapshot" where
  "import_apply sha change ctx g =
     (case apply_change sha g change ctx of
        Inl report \<Rightarrow> Inl (report_display report)
      | Inr (g', receipt) \<Rightarrow> Inr g')"

definition contains_edge :: "(string \<Rightarrow> string) \<Rightarrow> string \<Rightarrow> work_node_id \<Rightarrow> work_node_id \<Rightarrow> work_edge" where
  "contains_edge sha session_id parent child =
     \<lparr> we_id = derive_edge_id sha session_id (''contains:'' @ parent @ '':'' @ child),
       we_kind = EK_Contains, we_from = parent, we_to = child \<rparr>"

definition add_contains_edge ::
  "(string \<Rightarrow> string) \<Rightarrow> string \<Rightarrow> work_node_id \<Rightarrow> work_node_id \<Rightarrow> change_ctx \<Rightarrow> work_graph_snapshot \<Rightarrow>
   string + work_graph_snapshot" where
  "add_contains_edge sha session_id objective child ctx =
     import_apply sha (AddEdge (contains_edge sha session_id objective child)) ctx"

definition import_ctx :: "string \<Rightarrow> change_ctx" where
  "import_ctx session_id = \<lparr> cc_session_id = session_id, cc_now = 0, cc_idempotency_key = None \<rparr>"

definition import_node :: "work_node_id \<Rightarrow> node_kind \<Rightarrow> string \<Rightarrow> node_state \<Rightarrow> string \<Rightarrow> u32 option \<Rightarrow> work_node" where
  "import_node i kind title state digest ordinal =
     \<lparr> wn_id = i, wn_kind = kind, wn_title = title, wn_state = state, wn_acceptance = [], wn_binding = None,
       wn_evidence = None, wn_provenance = Import digest ordinal, wn_created_at = 0, wn_updated_at = 0 \<rparr>"

definition set_state :: "node_state \<Rightarrow> work_node_patch" where
  "set_state s = patch_default \<lparr> np_state := Some s \<rparr>"

definition plan_node_id :: "(string \<Rightarrow> string) \<Rightarrow> string \<Rightarrow> usize \<Rightarrow> work_node_id" where
  "plan_node_id sha session_id index = derive_node_id sha session_id (''plan:'' @ show_nat index)"

definition todo_node_id :: "(string \<Rightarrow> string) \<Rightarrow> string \<Rightarrow> u32 \<Rightarrow> work_node_id" where
  "todo_node_id sha session_id i = derive_node_id sha session_id (''todo:'' @ show_nat (unat i))"

definition plan_step_node :: "(string \<Rightarrow> string) \<Rightarrow> string \<Rightarrow> string \<Rightarrow> usize \<Rightarrow> plan_item_arg \<Rightarrow> work_node" where
  "plan_step_node sha session_id digest index item =
     import_node (plan_node_id sha session_id index) NK_PlanStep (trim (pi_step item))
       (node_state_from_plan (pi_status item)) digest (Some (of_nat index))"

fun import_steps ::
  "(string \<Rightarrow> string) \<Rightarrow> string \<Rightarrow> string \<Rightarrow> work_node_id \<Rightarrow> usize \<Rightarrow> plan_item_arg list \<Rightarrow>
   work_graph_snapshot \<times> work_node_id list \<Rightarrow> string + work_graph_snapshot \<times> work_node_id list" where
  "import_steps sha session_id digest objective index [] (g, order) = Inr (g, order)"
| "import_steps sha session_id digest objective index (item # items) (g, order) =
     (if int index \<ge> 4294967296 then Inl ''too many legacy plan steps''
      else let i = plan_node_id sha session_id index; ctx = import_ctx session_id
           in and_then (import_apply sha (AddNode (plan_step_node sha session_id digest index item)) ctx g) (\<lambda>g1.
              and_then (add_contains_edge sha session_id objective i ctx g1) (\<lambda>g2.
              import_steps sha session_id digest objective (Suc index) items (g2, order @ [i]))))"

definition plan_alias_of :: "work_node_id list \<Rightarrow> u32 option \<Rightarrow> (u32 \<times> work_node_id) option" where
  "plan_alias_of order marker_index =
     (case marker_index of
        Some index \<Rightarrow> if unat index < length order then Some (index, order ! unat index) else None
      | None \<Rightarrow> None)"

definition import_aliased_todo ::
  "(string \<Rightarrow> string) \<Rightarrow> string \<Rightarrow> work_node_id \<Rightarrow> todo_status \<Rightarrow> work_graph_snapshot \<Rightarrow> string + work_graph_snapshot" where
  "import_aliased_todo sha session_id i status g =
     (case wg_node g i of
        None \<Rightarrow> Inl ''legacy plan alias references a missing node''
      | Some n \<Rightarrow>
          let desired = more_advanced_state (wn_state n) (node_state_from_todo status)
          in if desired \<noteq> wn_state n then import_apply sha (UpdateNode i (set_state desired)) (import_ctx session_id) g
             else Inr g)"

definition import_new_todo ::
  "(string \<Rightarrow> string) \<Rightarrow> string \<Rightarrow> string \<Rightarrow> work_node_id \<Rightarrow> string \<Rightarrow> todo_item \<Rightarrow> work_graph_snapshot \<Rightarrow>
   string + work_graph_snapshot" where
  "import_new_todo sha session_id digest objective clean_title item g =
     (let i = todo_node_id sha session_id (ti_id item);
          ctx = import_ctx session_id;
          desired = node_state_from_todo (ti_status item)
      in and_then (import_apply sha (AddNode (import_node i NK_PlanStep clean_title NS_Ready digest (Some (ti_id item)))) ctx g) (\<lambda>g1.
         and_then (add_contains_edge sha session_id objective i ctx g1) (\<lambda>g2.
         if desired \<noteq> NS_Ready then import_apply sha (UpdateNode i (set_state desired)) ctx g2 else Inr g2)))"

definition import_todo ::
  "(string \<Rightarrow> string) \<Rightarrow> char \<Rightarrow> string \<Rightarrow> string \<Rightarrow> work_node_id \<Rightarrow> work_node_id list \<Rightarrow> todo_item \<Rightarrow>
   work_graph_snapshot \<times> compat_todo_binding list \<Rightarrow> string + work_graph_snapshot \<times> compat_todo_binding list" where
  "import_todo sha mk session_id digest objective order item = (\<lambda>(g, bindings).
     (let (clean_title, marker_index) = strip_plan_provenance mk (ti_content item)
      in case plan_alias_of order marker_index of
           Some (index, i) \<Rightarrow>
             and_then (import_aliased_todo sha session_id i (ti_status item) g) (\<lambda>g'.
             Inr (g', bindings @ [\<lparr> tb_legacy_id = ti_id item, tb_node = i, tb_plan_index = Some index \<rparr>]))
         | None \<Rightarrow>
             and_then (import_new_todo sha session_id digest objective clean_title item g) (\<lambda>g'.
             Inr (g', bindings @ [\<lparr> tb_legacy_id = ti_id item,
                    tb_node = todo_node_id sha session_id (ti_id item), tb_plan_index = None \<rparr>]))))"

definition objective_title :: "string \<Rightarrow> plan_snapshot \<Rightarrow> string" where
  "objective_title default_title plan =
     (case pl_objective plan of
        Some t \<Rightarrow> t
      | None \<Rightarrow> (case pl_title plan of Some t \<Rightarrow> t | None \<Rightarrow> default_title))"

definition import_graph ::
  "(string \<Rightarrow> string) \<Rightarrow> char \<Rightarrow> string \<Rightarrow> string \<Rightarrow> plan_snapshot \<Rightarrow> todo_item list \<Rightarrow> string + work_graph_snapshot" where
  "import_graph sha mk session_id digest plan items =
     (let ctx = import_ctx session_id;
          objective_id = derive_node_id sha session_id ''objective''
      in and_then (import_apply sha (AddNode (import_node objective_id NK_Objective
             (objective_title ''Imported session work'' plan) NS_Ready digest None)) ctx snapshot_new) (\<lambda>g0.
         and_then (import_steps sha session_id digest objective_id 0 (pl_items plan) (g0, [])) (\<lambda>(g1, order).
         and_then (for_each (import_todo sha mk session_id digest objective_id order) items (g1, [])) (\<lambda>(g2, bindings).
         and_then (import_apply sha (ReplaceCompatProjection
             \<lparr> cs_plan = from_plan_snapshot plan, cs_plan_order = order, cs_todos = bindings \<rparr>) ctx g2) (\<lambda>g3.
         import_apply sha (SetImportDigest digest) ctx g3)))))"

definition import_legacy ::
  "(string \<Rightarrow> string) \<Rightarrow> (plan_snapshot \<Rightarrow> todo_list_snapshot \<Rightarrow> string + string) \<Rightarrow> char \<Rightarrow> string \<Rightarrow>
   plan_snapshot \<Rightarrow> todo_list_snapshot \<Rightarrow> string + work_graph_snapshot" where
  "import_legacy sha canon mk session_id legacy_plan legacy_todos =
     (let plan = plan_snapshot_of (plan_from_snapshot 0 legacy_plan)
      in and_then (todo_from_snapshot legacy_todos) (\<lambda>l.
         let todos = todo_snapshot l
         in case canon plan todos of
              Inl err \<Rightarrow> Inl (''could not canonicalize legacy Work state: '' @ err)
            | Inr canonical \<Rightarrow> import_graph sha mk session_id (sha canonical) plan (ls_items todos)))"

section \<open>An import is a run of the reducer\<close>

lemma import_ctx_no_duplicate [simp]: "\<not> is_duplicate g (import_ctx session_id)"
  by (simp add: is_duplicate_def import_ctx_def)

lemma import_apply_reach:
  assumes "import_apply sha c ctx g = Inr g'" and "graph_reachable sha k g"
  shows "graph_reachable sha (Suc k) g'"
proof -
  have "g' = fst (work_graph_apply sha c ctx g)"
    using assms(1) by (auto simp: import_apply_def work_graph_apply_def split: sum.splits prod.splits)
  then show ?thesis using reach_change [OF assms(2)] by simp
qed

lemma import_steps_Cons_Inr:
  "import_steps sha session_id digest objective index (item # items) (g, order) = Inr r \<longleftrightarrow>
     index < 4294967296 \<and>
     (\<exists>g1 g2. import_apply sha (AddNode (plan_step_node sha session_id digest index item)) (import_ctx session_id) g = Inr g1 \<and>
        import_apply sha (AddEdge (contains_edge sha session_id objective (plan_node_id sha session_id index)))
          (import_ctx session_id) g1 = Inr g2 \<and>
        import_steps sha session_id digest objective (Suc index) items (g2, order @ [plan_node_id sha session_id index]) = Inr r)"
  by (auto simp: Let_def add_contains_edge_def)

lemma import_new_todo_Inr:
  "import_new_todo sha session_id digest objective title item g = Inr g' \<longleftrightarrow>
     (\<exists>g1 g2. import_apply sha (AddNode (import_node (todo_node_id sha session_id (ti_id item)) NK_PlanStep title NS_Ready
          digest (Some (ti_id item)))) (import_ctx session_id) g = Inr g1 \<and>
        import_apply sha (AddEdge (contains_edge sha session_id objective (todo_node_id sha session_id (ti_id item))))
          (import_ctx session_id) g1 = Inr g2 \<and>
        (if node_state_from_todo (ti_status item) \<noteq> NS_Ready
         then import_apply sha (UpdateNode (todo_node_id sha session_id (ti_id item))
                (set_state (node_state_from_todo (ti_status item)))) (import_ctx session_id) g2 = Inr g'
         else g' = g2))"
  by (auto simp: import_new_todo_def Let_def add_contains_edge_def)

lemma import_steps_reach:
  assumes "import_steps sha session_id digest objective index items (g, order) = Inr (g', order')"
    and "graph_reachable sha k g"
  shows "graph_reachable sha (k + 2 * length items) g' \<and> (items = [] \<or> index + length items \<le> 4294967296)"
  using assms
proof (induction items arbitrary: g order index k)
  case (Cons item items)
  from Cons.prems(1) obtain g1 g2 where "index < 4294967296"
    and steps: "import_apply sha (AddNode (plan_step_node sha session_id digest index item)) (import_ctx session_id) g = Inr g1"
      "import_apply sha (AddEdge (contains_edge sha session_id objective (plan_node_id sha session_id index)))
        (import_ctx session_id) g1 = Inr g2"
    and rest: "import_steps sha session_id digest objective (Suc index) items (g2, order @ [plan_node_id sha session_id index]) = Inr (g', order')"
    unfolding import_steps_Cons_Inr by blast
  have "graph_reachable sha (Suc (Suc k)) g2"
    using import_apply_reach [OF steps(2) import_apply_reach [OF steps(1) Cons.prems(2)]] .
  from Cons.IH [OF rest this] \<open>index < 4294967296\<close> show ?case by (auto simp: algebra_simps)
qed simp

lemma import_todo_reach:
  assumes "import_todo sha mk session_id digest objective order item (g, bs) = Inr (g', bs')"
    and "graph_reachable sha k g"
  shows "\<exists>k' \<le> k + 3. graph_reachable sha k' g'"
proof (cases "plan_alias_of order (snd (strip_plan_provenance mk (ti_content item)))")
  case None
  with assms(1) obtain title where "import_new_todo sha session_id digest objective title item g = Inr g'"
    by (auto simp: import_todo_def Let_def split: prod.splits)
  then obtain g1 g2 n e c where "import_apply sha (AddNode n) (import_ctx session_id) g = Inr g1"
    "import_apply sha (AddEdge e) (import_ctx session_id) g1 = Inr g2"
    "import_apply sha c (import_ctx session_id) g2 = Inr g' \<or> g' = g2"
    unfolding import_new_todo_Inr by metis
  then have "graph_reachable sha (Suc (Suc k)) g2" and "g' = g2 \<or> graph_reachable sha (Suc (Suc (Suc k))) g'"
    using assms(2) by (blast intro: import_apply_reach)+
  then have "graph_reachable sha (k + 2) g' \<or> graph_reachable sha (k + 3) g'" by (auto simp: numeral_2_eq_2 numeral_3_eq_3)
  then show ?thesis by (meson add_le_cancel_left numeral_le_iff order_refl semiring_norm(69) semiring_norm(72))
next
  case (Some a)
  with assms(1) obtain i where "import_aliased_todo sha session_id i (ti_status item) g = Inr g'"
    by (auto simp: import_todo_def Let_def split: prod.splits)
  then have "g' = g \<or> (\<exists>c. import_apply sha c (import_ctx session_id) g = Inr g')"
    by (auto simp: import_aliased_todo_def Let_def split: option.splits if_splits)
  then have "graph_reachable sha (k + 0) g' \<or> graph_reachable sha (k + 1) g'"
    using assms(2) import_apply_reach by fastforce
  then show ?thesis by (meson add_le_cancel_left zero_le one_le_numeral)
qed

lemma import_todos_reach:
  assumes "for_each (import_todo sha mk session_id digest objective order) items (g, bs) = Inr (g', bs')"
    and "graph_reachable sha k g"
  shows "\<exists>k' \<le> k + 3 * length items. graph_reachable sha k' g'"
  using assms
proof (induction items arbitrary: g bs k)
  case (Cons item items)
  then obtain g1 bs1 where step: "import_todo sha mk session_id digest objective order item (g, bs) = Inr (g1, bs1)"
    and rest: "for_each (import_todo sha mk session_id digest objective order) items (g1, bs1) = Inr (g', bs')"
    by auto
  from import_todo_reach [OF step Cons.prems(2)] obtain k1 where "k1 \<le> k + 3" "graph_reachable sha k1 g1" by blast
  with Cons.IH [OF rest] obtain k' where "k' \<le> k1 + 3 * length items" "graph_reachable sha k' g'" by blast
  with \<open>k1 \<le> k + 3\<close> show ?case by (intro exI [of _ k']) auto
qed auto

lemma import_graph_Inr:
  assumes "import_graph sha mk session_id digest plan items = Inr g"
  obtains g0 g1 g2 g3 order bs where
    "import_apply sha (AddNode (import_node (derive_node_id sha session_id ''objective'') NK_Objective
       (objective_title ''Imported session work'' plan) NS_Ready digest None)) (import_ctx session_id) snapshot_new = Inr g0"
    "import_steps sha session_id digest (derive_node_id sha session_id ''objective'') 0 (pl_items plan) (g0, []) = Inr (g1, order)"
    "for_each (import_todo sha mk session_id digest (derive_node_id sha session_id ''objective'') order) items (g1, []) = Inr (g2, bs)"
    "import_apply sha (ReplaceCompatProjection
       \<lparr> cs_plan = from_plan_snapshot plan, cs_plan_order = order, cs_todos = bs \<rparr>) (import_ctx session_id) g2 = Inr g3"
    "import_apply sha (SetImportDigest digest) (import_ctx session_id) g3 = Inr g"
  using assms by (auto simp: import_graph_def Let_def split: prod.splits)

lemma distinct_u32_length:
  fixes f :: "'a \<Rightarrow> u32"
  assumes "distinct (map f xs)"
  shows "length xs \<le> 4294967296"
proof -
  have "length (map f xs) = card (set (map f xs))" using assms by (simp only: distinct_card)
  also have "\<dots> \<le> card (UNIV :: u32 set)" by (intro card_mono) simp_all
  also have "\<dots> = 4294967296" by (simp add: card_word)
  finally show ?thesis by simp
qed

lemma import_graph_reach:
  assumes "import_graph sha mk session_id digest plan items = Inr g" and "distinct (map ti_id items)"
  shows "\<exists>k < 2 ^ 64. graph_reachable sha k g"
proof -
  from assms(1) obtain g0 g1 g2 g3 order bs where steps:
    "import_apply sha (AddNode (import_node (derive_node_id sha session_id ''objective'') NK_Objective
       (objective_title ''Imported session work'' plan) NS_Ready digest None)) (import_ctx session_id) snapshot_new = Inr g0"
    "import_steps sha session_id digest (derive_node_id sha session_id ''objective'') 0 (pl_items plan) (g0, []) = Inr (g1, order)"
    "for_each (import_todo sha mk session_id digest (derive_node_id sha session_id ''objective'') order) items (g1, []) = Inr (g2, bs)"
    "import_apply sha (ReplaceCompatProjection
       \<lparr> cs_plan = from_plan_snapshot plan, cs_plan_order = order, cs_todos = bs \<rparr>) (import_ctx session_id) g2 = Inr g3"
    "import_apply sha (SetImportDigest digest) (import_ctx session_id) g3 = Inr g" by (rule import_graph_Inr)
  have "graph_reachable sha (Suc 0) g0" by (rule import_apply_reach [OF steps(1) reach_new])
  from import_steps_reach [OF steps(2) this] have g1: "graph_reachable sha (Suc 0 + 2 * length (pl_items plan)) g1"
    and "length (pl_items plan) \<le> 4294967296" by auto
  from import_todos_reach [OF steps(3) g1] obtain k where
    "k \<le> Suc 0 + 2 * length (pl_items plan) + 3 * length items" and "graph_reachable sha k g2" by blast
  with import_apply_reach [OF steps(4)] import_apply_reach [OF steps(5)] have "graph_reachable sha (Suc (Suc k)) g" by blast
  moreover have "Suc (Suc k) < 2 ^ 64"
    using \<open>k \<le> _\<close> \<open>length (pl_items plan) \<le> _\<close> distinct_u32_length [OF assms(2)] by simp
  ultimately show ?thesis by blast
qed

lemma import_legacy_Inr:
  assumes "import_legacy sha canon mk session_id plan todos = Inr g"
  obtains l canonical where "todo_from_snapshot todos = Inr l"
    "canon (plan_snapshot_of (plan_from_snapshot 0 plan)) (todo_snapshot l) = Inr canonical"
    "import_graph sha mk session_id (sha canonical) (plan_snapshot_of (plan_from_snapshot 0 plan)) (ls_items (todo_snapshot l)) = Inr g"
proof -
  let ?plan = "plan_snapshot_of (plan_from_snapshot 0 plan)"
  from assms obtain l where l: "todo_from_snapshot todos = Inr l"
    and run: "(case canon ?plan (todo_snapshot l) of
        Inl err \<Rightarrow> Inl (''could not canonicalize legacy Work state: '' @ err)
      | Inr canonical \<Rightarrow> import_graph sha mk session_id (sha canonical) ?plan (ls_items (todo_snapshot l))) = Inr g"
    by (auto simp: import_legacy_def Let_def)
  from run that [OF l] show thesis by (cases "canon ?plan (todo_snapshot l)") simp_all
qed

text \<open>
  C13. An imported graph is a valid graph: whatever was saved, when the import succeeds the graph is the
  result of a run of the reducer from the empty graph, short enough for its revision never to wrap, and
  so validates.
\<close>

theorem import_is_valid:
  assumes "import_legacy sha canon mk session_id plan todos = Inr g"
  shows "(\<exists>k < 2 ^ 64. graph_reachable sha k g) \<and> validate g = Inr ()"
proof -
  from assms obtain l canonical where l: "todo_from_snapshot todos = Inr l"
    and g: "import_graph sha mk session_id (sha canonical) (plan_snapshot_of (plan_from_snapshot 0 plan)) (ls_items (todo_snapshot l)) = Inr g"
    by (rule import_legacy_Inr)
  have "todo_inv l" using todo_from_snapshot_inv [OF l] by simp
  then have "distinct (map ti_id (ls_items (todo_snapshot l)))" by (simp add: todo_inv_def todo_snapshot_def)
  from import_graph_reach [OF g this] obtain k where "k < 2 ^ 64" "graph_reachable sha k g" by blast
  moreover from this have "validate g = Inr ()"
    using graph_reachable_inv by (auto simp: graph_inv_def validate_Inr_iff)
  ultimately show ?thesis by blast
qed

section \<open>What an import shows\<close>

text \<open>The effect of one accepted step on what the views can see.\<close>

lemma import_apply_Inr:
  assumes "import_apply sha c (import_ctx session_id) g = Inr g'"
  obtains candidate where "apply_pure sha g (import_ctx session_id) c = Inr candidate"
    "wg_compat g' = wg_compat candidate" "view_of g' = view_of candidate"
proof -
  from assms obtain r where "apply_change sha g c (import_ctx session_id) = Inr (g', r)"
    by (auto simp: import_apply_def split: sum.splits)
  then obtain candidate where "apply_pure sha g (import_ctx session_id) c = Inr candidate"
    and "(g', r) = commit sha g c (import_ctx session_id) candidate" by (rule apply_change_Inr) simp_all
  moreover from this have "wg_compat g' = wg_compat candidate" "wg_node g' = wg_node candidate"
    using commit_nodes by (metis fst_conv)+
  ultimately show thesis using that by (simp add: view_of_def fun_eq_iff)
qed

lemma import_add_node:
  assumes "import_apply sha (AddNode n) (import_ctx session_id) g = Inr g'"
  shows "wg_compat g' = wg_compat g \<and> view_of g (wn_id n) = None \<and> view_of g' = (view_of g)(wn_id n \<mapsto> (wn_title n, wn_state n))"
proof -
  from assms obtain c where "add_node n g = Inr c" "wg_compat g' = wg_compat c" "view_of g' = view_of c"
    by (rule import_apply_Inr) simp
  moreover from this have "wg_node g (wn_id n) = None" by (simp add: add_node_Inr)
  ultimately show ?thesis
    by (auto simp: add_node_Inr view_of_def wg_node_append fun_eq_iff split: option.split)
qed

lemma import_add_edge:
  assumes "import_apply sha (AddEdge e) (import_ctx session_id) g = Inr g'"
  shows "wg_compat g' = wg_compat g \<and> view_of g' = view_of g"
proof -
  from assms obtain c where "add_edge e g = Inr c" "wg_compat g' = wg_compat c" "view_of g' = view_of c"
    by (rule import_apply_Inr) simp
  then show ?thesis by (auto simp: add_edge_Inr view_of_def fun_eq_iff)
qed

lemma import_set_state:
  assumes "import_apply sha (UpdateNode i (set_state s)) (import_ctx session_id) g = Inr g'" and "view_of g i = Some (t, s0)"
  shows "wg_compat g' = wg_compat g \<and> view_of g' = (view_of g)(i \<mapsto> (t, s))"
proof -
  from assms(1) obtain c where "patch_node i (set_state s) 0 g = Inr c" "wg_compat g' = wg_compat c" "view_of g' = view_of c"
    by (rule import_apply_Inr) (simp add: import_ctx_def)
  then show ?thesis using assms(2)
    by (auto simp: patch_node_Inr view_of_def wg_node_node_mut patched_def set_state_def patch_default_def fun_eq_iff)
qed

lemma import_steps_views:
  assumes "import_steps sha session_id digest objective index items (g, order) = Inr (g', order')"
  shows "wg_compat g' = wg_compat g \<and> view_of g \<subseteq>\<^sub>m view_of g' \<and>
    (\<exists>ids. order' = order @ ids \<and>
       list_all2 (\<lambda>i a. view_of g' i = Some (trim (pi_step a), node_state_from_plan (pi_status a))) ids items)"
  using assms
proof (induction items arbitrary: g order index)
  case (Cons item items)
  let ?i = "plan_node_id sha session_id index"
  let ?v = "(trim (pi_step item), node_state_from_plan (pi_status item))"
  from Cons.prems obtain g1 g2 where
    steps: "import_apply sha (AddNode (plan_step_node sha session_id digest index item)) (import_ctx session_id) g = Inr g1"
      "import_apply sha (AddEdge (contains_edge sha session_id objective ?i)) (import_ctx session_id) g1 = Inr g2"
    and rest: "import_steps sha session_id digest objective (Suc index) items (g2, order @ [?i]) = Inr (g', order')"
    unfolding import_steps_Cons_Inr by blast
  have "view_of g ?i = None" "view_of g2 = (view_of g)(?i \<mapsto> ?v)" and compat: "wg_compat g2 = wg_compat g"
    using import_add_node [OF steps(1)] import_add_edge [OF steps(2)] by (simp_all add: plan_step_node_def import_node_def)
  then have sub: "view_of g \<subseteq>\<^sub>m view_of g2" and "view_of g2 ?i = Some ?v" by (auto simp: map_le_def)
  from Cons.IH [OF rest] obtain ids where "wg_compat g' = wg_compat g2" and sub': "view_of g2 \<subseteq>\<^sub>m view_of g'"
    and "order' = (order @ [?i]) @ ids"
    and "list_all2 (\<lambda>i a. view_of g' i = Some (trim (pi_step a), node_state_from_plan (pi_status a))) ids items" by blast
  moreover from sub' \<open>view_of g2 ?i = Some ?v\<close> have "view_of g' ?i = Some ?v" by (auto simp: map_le_def dom_def)
  ultimately show ?case using compat map_le_trans [OF sub sub'] by (intro conjI exI [of _ "?i # ids"]) simp_all
qed simp

lemma import_new_todo_views:
  assumes "import_new_todo sha session_id digest objective title item g = Inr g'"
  shows "wg_compat g' = wg_compat g \<and> view_of g \<subseteq>\<^sub>m view_of g' \<and>
    view_of g' (todo_node_id sha session_id (ti_id item)) = Some (title, node_state_from_todo (ti_status item))"
proof -
  let ?i = "todo_node_id sha session_id (ti_id item)" and ?s = "node_state_from_todo (ti_status item)"
  from assms obtain g1 g2 where steps:
    "import_apply sha (AddNode (import_node ?i NK_PlanStep title NS_Ready digest (Some (ti_id item)))) (import_ctx session_id) g = Inr g1"
    "import_apply sha (AddEdge (contains_edge sha session_id objective ?i)) (import_ctx session_id) g1 = Inr g2"
    and last_step: "if ?s \<noteq> NS_Ready then import_apply sha (UpdateNode ?i (set_state ?s)) (import_ctx session_id) g2 = Inr g' else g' = g2"
    unfolding import_new_todo_Inr by blast
  have old: "view_of g ?i = None" and view: "view_of g2 = (view_of g)(?i \<mapsto> (title, NS_Ready))" and compat: "wg_compat g2 = wg_compat g"
    using import_add_node [OF steps(1)] import_add_edge [OF steps(2)] by (simp_all add: import_node_def)
  have "wg_compat g' = wg_compat g2 \<and> view_of g' = (view_of g2)(?i \<mapsto> (title, ?s))"
  proof (cases "?s = NS_Ready")
    case True
    with last_step view show ?thesis by auto
  next
    case False
    with last_step have "import_apply sha (UpdateNode ?i (set_state ?s)) (import_ctx session_id) g2 = Inr g'" by simp
    from import_set_state [OF this] view show ?thesis by simp
  qed
  with old view compat show ?thesis by (auto simp: map_le_def)
qed

text \<open>Without the delimiter a row is no marker.\<close>

lemma split_once_str_None: "x \<notin> set s \<Longrightarrow> split_once_str (x # p) s = None"
  by (induction s) auto

lemma strip_plan_provenance_plain: "mk \<notin> set content \<Longrightarrow> strip_plan_provenance mk content = (trim content, None)"
proof -
  assume "mk \<notin> set content"
  moreover from this have "filter (\<lambda>c. c \<noteq> mk) content = content" by (auto simp: filter_id_conv)
  ultimately show ?thesis by (simp add: strip_plan_provenance_def plan_provenance_prefix_def split_once_str_None)
qed

lemma import_todo_plain:
  assumes "mk \<notin> set (ti_content item)"
  shows "import_todo sha mk session_id digest objective order item (g, bs) =
    and_then (import_new_todo sha session_id digest objective (trim (ti_content item)) item g) (\<lambda>g'.
    Inr (g', bs @ [\<lparr> tb_legacy_id = ti_id item, tb_node = todo_node_id sha session_id (ti_id item), tb_plan_index = None \<rparr>]))"
  by (simp add: import_todo_def strip_plan_provenance_plain [OF assms] plan_alias_of_def)

definition row_shown :: "work_graph_snapshot \<Rightarrow> compat_todo_binding \<Rightarrow> todo_item \<Rightarrow> bool" where
  "row_shown g b item \<longleftrightarrow> tb_legacy_id b = ti_id item \<and> tb_plan_index b = None \<and>
     view_of g (tb_node b) = Some (trim (ti_content item), node_state_from_todo (ti_status item))"

lemma import_todos_views:
  assumes "for_each (import_todo sha mk session_id digest objective order) items (g, bs) = Inr (g', bs')"
    and "\<forall>item \<in> set items. mk \<notin> set (ti_content item)"
  shows "wg_compat g' = wg_compat g \<and> view_of g \<subseteq>\<^sub>m view_of g' \<and>
    (\<exists>new. bs' = bs @ new \<and> list_all2 (row_shown g') new items)"
  using assms
proof (induction items arbitrary: g bs)
  case (Cons item items)
  let ?b = "\<lparr> tb_legacy_id = ti_id item, tb_node = todo_node_id sha session_id (ti_id item), tb_plan_index = None \<rparr>"
  from Cons.prems obtain g1 where step: "import_new_todo sha session_id digest objective (trim (ti_content item)) item g = Inr g1"
    and rest: "for_each (import_todo sha mk session_id digest objective order) items (g1, bs @ [?b]) = Inr (g', bs')"
    by (auto simp: import_todo_plain)
  note one = import_new_todo_views [OF step]
  from Cons.IH [OF rest] Cons.prems(2) obtain new where more: "wg_compat g' = wg_compat g1" "view_of g1 \<subseteq>\<^sub>m view_of g'"
    "bs' = (bs @ [?b]) @ new" "list_all2 (row_shown g') new items" by auto
  then have "view_of g' (tb_node ?b) = Some (trim (ti_content item), node_state_from_todo (ti_status item))"
    using one by (auto simp: map_le_def dom_def)
  then have "row_shown g' ?b item" by (simp add: row_shown_def)
  with one more show ?case by (intro conjI exI [of _ "?b # new"]) (auto intro: map_le_trans)
qed simp

text \<open>The views as functions of what they see.\<close>

definition step_of_view :: "string \<times> node_state \<Rightarrow> plan_item_arg" where
  "step_of_view v = \<lparr> pi_step = fst v, pi_status = plan_status (undefined \<lparr> wn_state := snd v \<rparr>) \<rparr>"

definition item_of_view :: "u32 \<Rightarrow> string \<times> node_state \<Rightarrow> todo_item" where
  "item_of_view i v = \<lparr> ti_id = i, ti_content = fst v, ti_status = todo_status_of (undefined \<lparr> wn_state := snd v \<rparr>) \<rparr>"

lemma project_plan_view:
  "project_plan g = (to_plan_snapshot (cs_plan (wg_compat g)))
     \<lparr> pl_items := List.map_filter (\<lambda>i. map_option step_of_view (view_of g i)) (cs_plan_order (wg_compat g)) \<rparr>"
proof -
  have "map_option (\<lambda>n. \<lparr> pi_step = wn_title n, pi_status = plan_status n \<rparr>) (wg_node g i) = map_option step_of_view (view_of g i)" for i
    by (cases "wg_node g i") (simp_all add: view_of_def step_of_view_def plan_status_def)
  then show ?thesis by (simp add: project_plan_def map_map_filter)
qed

lemma project_todos_view:
  "ls_items (project_todos g) = List.map_filter (\<lambda>b. map_option (item_of_view (tb_legacy_id b)) (view_of g (tb_node b))) (cs_todos (wg_compat g))"
proof -
  have "todo_row_of g b = map_option (item_of_view (tb_legacy_id b)) (view_of g (tb_node b))" for b
    by (cases "wg_node g (tb_node b)") (simp_all add: todo_row_of_def view_of_def item_of_view_def todo_status_of_def)
  then show ?thesis unfolding project_todos_items by (intro map_filter_cong) simp
qed

lemma state_roundtrip [simp]:
  "plan_status (undefined \<lparr> wn_state := node_state_from_plan s \<rparr>) = s"
  "todo_status_of (undefined \<lparr> wn_state := node_state_from_todo t \<rparr>) = t"
  by (cases s; simp add: plan_status_def) (cases t; simp add: todo_status_of_def)

lemma map_filter_list_all2:
  "list_all2 (\<lambda>x y. f x = Some (h y)) xs ys \<Longrightarrow> List.map_filter f xs = map h ys"
  by (induction xs ys rule: list_all2_induct) (simp_all add: List.map_filter_simps)

lemma normal_items_trimmed: "a \<in> set (normal_items seen as) \<Longrightarrow> trim (pi_step a) = pi_step a"
  by (induction as arbitrary: seen) (auto split: if_splits)

definition normal_plan :: "plan_snapshot \<Rightarrow> plan_snapshot" where
  "normal_plan p = plan_snapshot_of (plan_from_snapshot 0 p)"

definition trimmed_todos :: "todo_list_snapshot \<Rightarrow> todo_list_snapshot" where
  "trimmed_todos s = todo_snapshot \<lparr> tl_items = map (\<lambda>i. i \<lparr> ti_content := trim (ti_content i) \<rparr>) (ls_items s), tl_next_id = 1 \<rparr>"

lemma import_graph_views:
  assumes "import_graph sha mk session_id digest plan items = Inr g"
    and "\<forall>item \<in> set items. mk \<notin> set (ti_content item)" and "\<forall>a \<in> set (pl_items plan). trim (pi_step a) = pi_step a"
  shows "project_plan g = plan \<and> ls_items (project_todos g) = map (\<lambda>i. i \<lparr> ti_content := trim (ti_content i) \<rparr>) items"
proof -
  from assms(1) obtain g0 g1 g2 g3 order bs where steps:
    "import_steps sha session_id digest (derive_node_id sha session_id ''objective'') 0 (pl_items plan) (g0, []) = Inr (g1, order)"
    "for_each (import_todo sha mk session_id digest (derive_node_id sha session_id ''objective'') order) items (g1, []) = Inr (g2, bs)"
    "import_apply sha (ReplaceCompatProjection
       \<lparr> cs_plan = from_plan_snapshot plan, cs_plan_order = order, cs_todos = bs \<rparr>) (import_ctx session_id) g2 = Inr g3"
    "import_apply sha (SetImportDigest digest) (import_ctx session_id) g3 = Inr g" by (rule import_graph_Inr)
  have order: "list_all2 (\<lambda>i a. view_of g1 i = Some (trim (pi_step a), node_state_from_plan (pi_status a))) order (pl_items plan)"
    using import_steps_views [OF steps(1)] by simp
  have rows: "list_all2 (row_shown g2) bs items" and sub: "view_of g1 \<subseteq>\<^sub>m view_of g2"
    using import_todos_views [OF steps(2) assms(2)] by simp_all
  have compat: "wg_compat g3 = \<lparr> cs_plan = from_plan_snapshot plan, cs_plan_order = order, cs_todos = bs \<rparr>" "view_of g3 = view_of g2"
    by (rule import_apply_Inr [OF steps(3)]; auto simp: view_of_def fun_eq_iff)+
  have "wg_compat g = wg_compat g3" "view_of g = view_of g3"
    by (rule import_apply_Inr [OF steps(4)]; auto simp: view_of_def wg_node_def fun_eq_iff split: if_splits)+
  then have last_views: "wg_compat g = \<lparr> cs_plan = from_plan_snapshot plan, cs_plan_order = order, cs_todos = bs \<rparr>" "view_of g = view_of g2"
    using compat by simp_all
  have "list_all2 (\<lambda>i a. map_option step_of_view (view_of g i) = Some (id a)) order (pl_items plan)"
    using order unfolding last_views(2)
    by (rule list.rel_mono_strong) (use sub assms(3) in \<open>auto simp: map_le_def dom_def step_of_view_def\<close>)
  from map_filter_list_all2 [OF this] have "project_plan g = plan" by (simp add: project_plan_view last_views(1))
  moreover have "list_all2 (\<lambda>b item. map_option (item_of_view (tb_legacy_id b)) (view_of g (tb_node b)) =
      Some (item \<lparr> ti_content := trim (ti_content item) \<rparr>)) bs items"
    using rows unfolding last_views(2)
    by (rule list.rel_mono_strong) (auto simp: row_shown_def item_of_view_def)
  from map_filter_list_all2 [OF this]
  have "ls_items (project_todos g) = map (\<lambda>i. i \<lparr> ti_content := trim (ti_content i) \<rparr>) items"
    by (simp add: project_todos_view last_views(1))
  ultimately show ?thesis by simp
qed

lemma normal_plan_trimmed: "\<forall>a \<in> set (pl_items (normal_plan p)). trim (pi_step a) = pi_step a"
  using normal_items_trimmed
  by (auto simp: normal_plan_def plan_snapshot_of_def plan_from_snapshot_def plan_update_def update_steps_view)

lemma project_todos_eqI: "ls_items (project_todos g) = tl_items l \<Longrightarrow> project_todos g = todo_snapshot l"
  by (subst project_todos_snapshot [of g "tl_next_id l"]) (cases l; simp)

lemma import_legacy_views:
  assumes "import_legacy sha canon mk session_id plan todos = Inr g"
    and "\<forall>item \<in> set (ls_items todos). mk \<notin> set (ti_content item)"
  shows "project_plan g = normal_plan plan \<and> project_todos g = trimmed_todos todos"
proof -
  from assms(1) obtain l canonical where l: "todo_from_snapshot todos = Inr l"
    and g: "import_graph sha mk session_id (sha canonical) (normal_plan plan) (ls_items (todo_snapshot l)) = Inr g"
    unfolding normal_plan_def by (rule import_legacy_Inr)
  have items: "ls_items (todo_snapshot l) = ls_items todos"
    using todo_from_snapshot_inv [OF l] by (simp add: todo_snapshot_def)
  from import_graph_views [OF g _ normal_plan_trimmed] assms(2) show ?thesis
    by (auto simp: items trimmed_todos_def intro!: project_todos_eqI)
qed

section \<open>When an import succeeds\<close>

text \<open>The graphs an import builds: an objective and steps in plain states, held together by containment.\<close>

definition simple_node :: "work_node \<Rightarrow> bool" where
  "simple_node n \<longleftrightarrow> wn_kind n \<in> {NK_Objective, NK_PlanStep} \<and> wn_binding n = None \<and> wn_evidence n = None \<and>
     wn_state n \<in> {NS_Ready, NS_Active, NS_Completed, NS_Cancelled}"

definition node_kinds :: "work_graph_snapshot \<Rightarrow> (work_node_id \<times> node_kind) list" where
  "node_kinds g = map (\<lambda>n. (wn_id n, wn_kind n)) (wg_nodes g)"

definition simple_graph :: "work_graph_snapshot \<Rightarrow> bool" where
  "simple_graph g \<longleftrightarrow>
     wg_schema g = SCHEMA_VERSION \<and> wg_activities g = [] \<and>
     distinct (map fst (node_kinds g)) \<and> distinct (map we_id (wg_edges g)) \<and>
     (\<forall>n \<in> set (wg_nodes g). simple_node n) \<and>
     (\<forall>e \<in> set (wg_edges g). we_kind e = EK_Contains \<and> {we_from e, we_to e} \<subseteq> fst ` set (node_kinds g))"

lemma node_kinds_ids: "map fst (node_kinds g) = map wn_id (wg_nodes g)" "fst ` set (node_kinds g) = node_ids g"
  by (force simp: node_kinds_def node_ids_def)+

lemma simple_graph_well_formed:
  assumes "simple_graph g" and "wf_projection g" and "wf_history g"
  shows "well_formed g"
proof -
  have no_edges: "edge_rel g EK_DependsOn = {}"
    using assms(1) by (auto simp: simple_graph_def edge_rel_def)
  have "edge_rel g k \<subseteq> node_ids g \<times> node_ids g" for k
    using assms(1) by (auto simp: simple_graph_def edge_rel_def node_kinds_ids)
  moreover have "distinct (map wn_id (wg_nodes g))" using assms(1) by (simp add: simple_graph_def node_kinds_ids)
  moreover have "\<forall>n \<in> set (wg_nodes g). wn_evidence n = None" using assms(1) by (simp add: simple_graph_def simple_node_def)
  ultimately have "wf_structure g" using assms(1) by (simp add: wf_structure_def simple_graph_def)
  moreover have "wf_node g n" if "n \<in> set (wg_nodes g)" for n
  proof -
    have "simple_node n" using assms(1) that by (simp add: simple_graph_def)
    then show ?thesis unfolding wf_node_def simple_node_def by auto
  qed
  moreover have "externals (wg_nodes g) = []"
  proof -
    have "\<forall>n \<in> set ns. wn_binding n = None \<Longrightarrow> externals ns = []" for ns
      by (induction ns) (simp_all add: externals_def List.map_filter_simps)
    then show ?thesis using assms(1) by (simp add: simple_graph_def simple_node_def)
  qed
  ultimately show ?thesis
    using assms no_edges by (simp add: well_formed_def simple_graph_def acyclic_def)
qed

text \<open>A candidate with the log of a reachable graph and an import's shape is committed.\<close>

lemma import_accepts:
  assumes "apply_pure sha g (import_ctx session_id) c = Inr candidate"
    and "simple_graph candidate" and "wf_projection candidate" and "graph_reachable sha k g" and "k < 2 ^ 64"
  shows "import_apply sha c (import_ctx session_id) g = Inr (fst (commit sha g c (import_ctx session_id) candidate))"
    and "graph_reachable sha (Suc k) (fst (commit sha g c (import_ctx session_id) candidate))"
proof -
  have "graph_log candidate = graph_log g" by (rule apply_pure_log [OF assms(1)])
  moreover have "wf_history g" using graph_reachable_inv [OF assms(4,5)] by (simp add: graph_inv_def well_formed_def)
  ultimately have "wf_history candidate" by (simp add: wf_history_def graph_log_def)
  then have "validate candidate = Inr ()"
    using simple_graph_well_formed assms(2,3) by (simp add: validate_Inr_iff)
  then have "apply_change sha g c (import_ctx session_id) = Inr (commit sha g c (import_ctx session_id) candidate)"
    using assms(1) by (simp add: apply_change_def)
  then show run: "import_apply sha c (import_ctx session_id) g = Inr (fst (commit sha g c (import_ctx session_id) candidate))"
    by (simp add: import_apply_def split: prod.split)
  show "graph_reachable sha (Suc k) (fst (commit sha g c (import_ctx session_id) candidate))"
    by (rule import_apply_reach [OF run assms(4)])
qed

lemma simple_graph_commit [simp]:
  "simple_graph (fst (commit sha g c ctx candidate)) = simple_graph candidate"
  "node_kinds (fst (commit sha g c ctx candidate)) = node_kinds candidate"
  by (simp_all add: simple_graph_def node_kinds_def commit_def Let_def)

text \<open>
  The state of a running import: its shape, how it was reached, and which identifiers it has used. The
  projection stays empty until the end.
\<close>

definition importing ::
  "(string \<Rightarrow> string) \<Rightarrow> nat \<Rightarrow> (work_node_id \<times> node_kind) list \<Rightarrow> work_edge_id list \<Rightarrow> work_graph_snapshot \<Rightarrow> bool" where
  "importing sha k nodes edges g \<longleftrightarrow>
     simple_graph g \<and> wg_compat g = compat_default \<and> graph_reachable sha k g \<and>
     node_kinds g = nodes \<and> map we_id (wg_edges g) = edges"

lemma empty_projection: "wg_compat g = compat_default \<Longrightarrow> wf_projection g"
  by (simp add: wf_projection_def compat_default_def)

lemma importing_add_node:
  assumes "importing sha k nodes edges g" and "k < 2 ^ 64" and "wn_id n \<notin> fst ` set nodes" and "simple_node n"
  shows "\<exists>g'. import_apply sha (AddNode n) (import_ctx session_id) g = Inr g' \<and>
    importing sha (Suc k) (nodes @ [(wn_id n, wn_kind n)]) edges g'"
proof -
  let ?c = "g \<lparr> wg_nodes := wg_nodes g @ [n] \<rparr>"
  have fresh: "wn_id n \<notin> node_ids g" using assms(1,3) by (simp add: importing_def node_kinds_ids [symmetric])
  then have run: "apply_pure sha g (import_ctx session_id) (AddNode n) = Inr ?c"
    by (simp add: add_node_Inr wg_node_None node_ids_def)
  have kinds: "node_kinds ?c = node_kinds g @ [(wn_id n, wn_kind n)]" by (simp add: node_kinds_def)
  have "simple_graph ?c"
    using assms(1,3,4) unfolding simple_graph_def kinds by (auto simp: importing_def simple_graph_def rev_image_eqI)
  moreover have "wg_compat ?c = compat_default" using assms(1) by (simp add: importing_def)
  moreover have "graph_reachable sha k g" using assms(1) by (simp add: importing_def)
  ultimately show ?thesis
    using import_accepts [OF run _ empty_projection _ assms(2)] assms(1) kinds by (simp add: importing_def)
qed

lemma importing_add_edge:
  assumes "importing sha k nodes edges g" and "k < 2 ^ 64" and "we_id e \<notin> set edges"
    and "we_kind e = EK_Contains" and "{we_from e, we_to e} \<subseteq> fst ` set nodes"
  shows "\<exists>g'. import_apply sha (AddEdge e) (import_ctx session_id) g = Inr g' \<and>
    importing sha (Suc k) nodes (edges @ [we_id e]) g'"
proof -
  let ?c = "g \<lparr> wg_edges := wg_edges g @ [e] \<rparr>"
  have "we_id e \<notin> we_id ` set (wg_edges g)" using assms(1,3) by (auto simp: importing_def)
  then have "wg_edge g (we_id e) = None" unfolding wg_edge_def find_None_iff by (metis imageI)
  moreover have "wg_node g (we_from e) \<noteq> None" "wg_node g (we_to e) \<noteq> None"
    using assms(1,5) by (auto simp: importing_def wg_node_None node_kinds_def)
  ultimately have run: "apply_pure sha g (import_ctx session_id) (AddEdge e) = Inr ?c" by (simp add: add_edge_Inr)
  have kinds: "node_kinds ?c = node_kinds g" by (simp add: node_kinds_def)
  have "simple_graph ?c"
    using assms(1,3,4,5) unfolding simple_graph_def kinds by (auto simp: importing_def simple_graph_def)
  moreover have "wg_compat ?c = compat_default" using assms(1) by (simp add: importing_def)
  moreover have "graph_reachable sha k g" using assms(1) by (simp add: importing_def)
  ultimately show ?thesis
    using import_accepts [OF run _ empty_projection _ assms(2)] assms(1) kinds by (simp add: importing_def)
qed

lemma importing_set_state:
  assumes "importing sha k nodes edges g" and "k < 2 ^ 64" and "view_of g i = Some (t, NS_Ready)"
    and "s \<in> {NS_Ready, NS_Active, NS_Completed, NS_Cancelled}"
  shows "\<exists>g'. import_apply sha (UpdateNode i (set_state s)) (import_ctx session_id) g = Inr g' \<and>
    importing sha (Suc k) nodes edges g'"
proof -
  let ?f = "patched (set_state s) 0" and ?c = "node_mut i (patched (set_state s) 0) g"
  from assms(3) obtain n where "wg_node g i = Some n" "wn_state n = NS_Ready" by (auto simp: view_of_def)
  then have run: "apply_pure sha g (import_ctx session_id) (UpdateNode i (set_state s)) = Inr ?c"
    by (simp add: patch_node_Inr is_terminal_def import_ctx_def)
  have "map (\<lambda>n. (wn_id n, wn_kind n)) (update_first (\<lambda>n. wn_id n = i) ?f ns) = map (\<lambda>n. (wn_id n, wn_kind n)) ns" for ns
    by (rule map_update_first) (simp add: patched_def)
  then have kinds: "node_kinds ?c = node_kinds g" by (simp add: node_kinds_def node_mut_def)
  have "simple_node (?f n)" if "simple_node n" for n
    using that assms(4) by (auto simp: simple_node_def patched_def set_state_def patch_default_def)
  then have "\<forall>n \<in> set (wg_nodes ?c). simple_node n"
    using assms(1) set_update_first [of "\<lambda>n. wn_id n = i" ?f "wg_nodes g"]
    by (auto simp: importing_def simple_graph_def node_mut_def)
  then have "simple_graph ?c"
    using assms(1) unfolding simple_graph_def kinds by (auto simp: importing_def simple_graph_def)
  moreover have "wg_compat ?c = compat_default" using assms(1) by (simp add: importing_def)
  moreover have "graph_reachable sha k g" using assms(1) by (simp add: importing_def)
  ultimately show ?thesis
    using import_accepts [OF run _ empty_projection _ assms(2)] assms(1) kinds by (simp add: importing_def)
qed

definition step_edge_id :: "(string \<Rightarrow> string) \<Rightarrow> string \<Rightarrow> work_node_id \<Rightarrow> work_node_id \<Rightarrow> work_edge_id" where
  "step_edge_id sha session_id objective i = we_id (contains_edge sha session_id objective i)"

lemma node_state_from_simple:
  "node_state_from_plan s \<in> {NS_Ready, NS_Active, NS_Completed, NS_Cancelled}"
  "node_state_from_todo t \<in> {NS_Ready, NS_Active, NS_Completed, NS_Cancelled}"
  by (cases s; simp) (cases t; simp)

text \<open>One step under the objective: its node, then the edge that contains it.\<close>

lemma importing_child:
  assumes "importing sha k nodes edges g" and "Suc k < 2 ^ 64" and "simple_node n" and "wn_kind n = NK_PlanStep"
    and "wn_id n \<notin> fst ` set nodes" and "step_edge_id sha session_id objective (wn_id n) \<notin> set edges"
    and "objective \<in> fst ` set nodes"
  shows "\<exists>g1 g2. import_apply sha (AddNode n) (import_ctx session_id) g = Inr g1 \<and>
    import_apply sha (AddEdge (contains_edge sha session_id objective (wn_id n))) (import_ctx session_id) g1 = Inr g2 \<and>
    importing sha (Suc (Suc k)) (nodes @ [(wn_id n, NK_PlanStep)]) (edges @ [step_edge_id sha session_id objective (wn_id n)]) g2"
proof -
  let ?e = "contains_edge sha session_id objective (wn_id n)"
  from importing_add_node [OF assms(1) _ assms(5,3)] assms(2,4) obtain g1 where
    g1: "import_apply sha (AddNode n) (import_ctx session_id) g = Inr g1"
    and inv: "importing sha (Suc k) (nodes @ [(wn_id n, NK_PlanStep)]) edges g1" by auto
  have "we_id ?e \<notin> set edges" using assms(6) by (simp add: step_edge_id_def)
  moreover have "we_kind ?e = EK_Contains" "{we_from ?e, we_to ?e} \<subseteq> fst ` set (nodes @ [(wn_id n, NK_PlanStep)])"
    using assms(7) by (auto simp: contains_edge_def)
  ultimately show ?thesis
    using importing_add_edge [OF inv assms(2), of ?e session_id] g1 by (auto simp: step_edge_id_def)
qed

lemma importing_steps:
  assumes "importing sha k nodes edges g" and "k + 2 * length items < 2 ^ 64" and "index + length items \<le> 4294967296"
    and "objective \<in> fst ` set nodes"
    and "distinct (map fst nodes @ map (plan_node_id sha session_id) [index..<index + length items])"
    and "distinct (edges @ map (\<lambda>i. step_edge_id sha session_id objective (plan_node_id sha session_id i)) [index..<index + length items])"
  shows "\<exists>g'. import_steps sha session_id digest objective index items (g, order) =
      Inr (g', order @ map (plan_node_id sha session_id) [index..<index + length items]) \<and>
    importing sha (k + 2 * length items)
      (nodes @ map (\<lambda>i. (plan_node_id sha session_id i, NK_PlanStep)) [index..<index + length items])
      (edges @ map (\<lambda>i. step_edge_id sha session_id objective (plan_node_id sha session_id i)) [index..<index + length items]) g'"
  using assms
proof (induction items arbitrary: g k nodes edges index order)
  case (Cons item items)
  let ?n = "plan_step_node sha session_id digest index item" and ?i = "plan_node_id sha session_id index"
  have n: "simple_node ?n" "wn_kind ?n = NK_PlanStep" "wn_id ?n = ?i"
    using node_state_from_simple(1) by (simp_all add: plan_step_node_def import_node_def simple_node_def)
  have upt: "[index..<index + length (item # items)] = index # [Suc index..<Suc index + length items]"
    by (simp add: upt_conv_Cons del: upt_Suc)
  have fresh: "wn_id ?n \<notin> fst ` set nodes" "step_edge_id sha session_id objective (wn_id ?n) \<notin> set edges"
    using Cons.prems(5,6) unfolding upt n(3) by auto
  from Cons.prems(2) have "Suc k < 2 ^ 64" by simp
  from importing_child [OF Cons.prems(1) this n(1,2) fresh Cons.prems(4)] obtain g1 g2 where
    steps: "import_apply sha (AddNode ?n) (import_ctx session_id) g = Inr g1"
      "import_apply sha (AddEdge (contains_edge sha session_id objective ?i)) (import_ctx session_id) g1 = Inr g2"
    and inv: "importing sha (Suc (Suc k)) (nodes @ [(?i, NK_PlanStep)]) (edges @ [step_edge_id sha session_id objective ?i]) g2"
    unfolding n(3) by blast
  have "Suc (Suc k) + 2 * length items < 2 ^ 64" "Suc index + length items \<le> 4294967296"
    "objective \<in> fst ` set (nodes @ [(?i, NK_PlanStep)])"
    "distinct (map fst (nodes @ [(?i, NK_PlanStep)]) @ map (plan_node_id sha session_id) [Suc index..<Suc index + length items])"
    "distinct ((edges @ [step_edge_id sha session_id objective ?i]) @
      map (\<lambda>i. step_edge_id sha session_id objective (plan_node_id sha session_id i)) [Suc index..<Suc index + length items])"
    using Cons.prems(2-6) unfolding upt by simp_all
  from Cons.IH [OF inv this, of "order @ [?i]"] obtain g' where
    rest: "import_steps sha session_id digest objective (Suc index) items (g2, order @ [?i]) =
      Inr (g', (order @ [?i]) @ map (plan_node_id sha session_id) [Suc index..<Suc index + length items])"
    and inv': "importing sha (Suc (Suc k) + 2 * length items)
      ((nodes @ [(?i, NK_PlanStep)]) @ map (\<lambda>i. (plan_node_id sha session_id i, NK_PlanStep)) [Suc index..<Suc index + length items])
      ((edges @ [step_edge_id sha session_id objective ?i]) @
        map (\<lambda>i. step_edge_id sha session_id objective (plan_node_id sha session_id i)) [Suc index..<Suc index + length items]) g'"
    by blast
  from Cons.prems(3) have "index < 4294967296" by simp
  with steps rest have "import_steps sha session_id digest objective index (item # items) (g, order) =
      Inr (g', (order @ [?i]) @ map (plan_node_id sha session_id) [Suc index..<Suc index + length items])"
    unfolding import_steps_Cons_Inr by blast
  with inv' show ?case unfolding upt by (intro exI [of _ g']) simp
qed simp

abbreviation todo_ids :: "(string \<Rightarrow> string) \<Rightarrow> string \<Rightarrow> todo_item list \<Rightarrow> work_node_id list" where
  "todo_ids sha session_id items \<equiv> map (\<lambda>item. todo_node_id sha session_id (ti_id item)) items"

lemma importing_new_todo:
  assumes "importing sha k nodes edges g" and "k + 3 < 2 ^ 64"
    and "todo_node_id sha session_id (ti_id item) \<notin> fst ` set nodes"
    and "step_edge_id sha session_id objective (todo_node_id sha session_id (ti_id item)) \<notin> set edges"
    and "objective \<in> fst ` set nodes"
  shows "\<exists>g' k'. k' \<le> k + 3 \<and> import_new_todo sha session_id digest objective title item g = Inr g' \<and>
    importing sha k' (nodes @ [(todo_node_id sha session_id (ti_id item), NK_PlanStep)])
      (edges @ [step_edge_id sha session_id objective (todo_node_id sha session_id (ti_id item))]) g'"
proof -
  let ?i = "todo_node_id sha session_id (ti_id item)" and ?s = "node_state_from_todo (ti_status item)"
  let ?n = "import_node ?i NK_PlanStep title NS_Ready digest (Some (ti_id item))"
  let ?nodes = "nodes @ [(?i, NK_PlanStep)]" and ?edges = "edges @ [step_edge_id sha session_id objective ?i]"
  have n: "simple_node ?n" "wn_kind ?n = NK_PlanStep" "wn_id ?n = ?i" by (simp_all add: import_node_def simple_node_def)
  have "Suc k < 2 ^ 64" using assms(2) by simp
  from importing_child [OF assms(1) this n(1,2), unfolded n(3), OF assms(3,4,5)] obtain g1 g2 where
    steps: "import_apply sha (AddNode ?n) (import_ctx session_id) g = Inr g1"
      "import_apply sha (AddEdge (contains_edge sha session_id objective ?i)) (import_ctx session_id) g1 = Inr g2"
    and inv: "importing sha (Suc (Suc k)) ?nodes ?edges g2" by blast
  show ?thesis
  proof (cases "?s = NS_Ready")
    case True
    with steps have "import_new_todo sha session_id digest objective title item g = Inr g2" unfolding import_new_todo_Inr by auto
    with inv show ?thesis by (intro exI [of _ g2] exI [of _ "Suc (Suc k)"]) simp
  next
    case False
    have "view_of g2 ?i = Some (title, NS_Ready)"
      using import_add_node [OF steps(1)] import_add_edge [OF steps(2)] by (simp add: import_node_def)
    moreover have "Suc (Suc k) < 2 ^ 64" using assms(2) by simp
    ultimately obtain g3 where step: "import_apply sha (UpdateNode ?i (set_state ?s)) (import_ctx session_id) g2 = Inr g3"
      and "importing sha (Suc (Suc (Suc k))) ?nodes ?edges g3"
      using importing_set_state [OF inv _ _ node_state_from_simple(2)] by blast
    moreover from False steps step have "import_new_todo sha session_id digest objective title item g = Inr g3"
      unfolding import_new_todo_Inr by auto
    ultimately show ?thesis by (intro exI [of _ g3] exI [of _ "Suc (Suc (Suc k))"]) simp
  qed
qed

lemma importing_todos:
  assumes "importing sha k nodes edges g" and "k + 3 * length items < 2 ^ 64"
    and "\<forall>item \<in> set items. mk \<notin> set (ti_content item)" and "objective \<in> fst ` set nodes"
    and "distinct (map fst nodes @ todo_ids sha session_id items)"
    and "distinct (edges @ map (step_edge_id sha session_id objective) (todo_ids sha session_id items))"
  shows "\<exists>g' k'. k' \<le> k + 3 * length items \<and>
    for_each (import_todo sha mk session_id digest objective order) items (g, bs) =
      Inr (g', bs @ map (\<lambda>item. \<lparr> tb_legacy_id = ti_id item, tb_node = todo_node_id sha session_id (ti_id item), tb_plan_index = None \<rparr>) items) \<and>
    importing sha k' (nodes @ map (\<lambda>i. (i, NK_PlanStep)) (todo_ids sha session_id items))
      (edges @ map (step_edge_id sha session_id objective) (todo_ids sha session_id items)) g'"
  using assms
proof (induction items arbitrary: g k nodes edges bs)
  case (Cons item items)
  let ?i = "todo_node_id sha session_id (ti_id item)"
  let ?b = "\<lparr> tb_legacy_id = ti_id item, tb_node = ?i, tb_plan_index = None \<rparr>"
  have "k + 3 < 2 ^ 64" "?i \<notin> fst ` set nodes" "step_edge_id sha session_id objective ?i \<notin> set edges"
    using Cons.prems(2,5,6) by auto
  from importing_new_todo [OF Cons.prems(1) this Cons.prems(4), of digest "trim (ti_content item)"] obtain g1 k1 where
    k1: "k1 \<le> k + 3" and step: "import_new_todo sha session_id digest objective (trim (ti_content item)) item g = Inr g1"
    and inv: "importing sha k1 (nodes @ [(?i, NK_PlanStep)]) (edges @ [step_edge_id sha session_id objective ?i]) g1" by blast
  have "k1 + 3 * length items < 2 ^ 64" "\<forall>item \<in> set items. mk \<notin> set (ti_content item)"
    "objective \<in> fst ` set (nodes @ [(?i, NK_PlanStep)])"
    "distinct (map fst (nodes @ [(?i, NK_PlanStep)]) @ todo_ids sha session_id items)"
    "distinct ((edges @ [step_edge_id sha session_id objective ?i]) @ map (step_edge_id sha session_id objective) (todo_ids sha session_id items))"
    using k1 Cons.prems(2-6) by simp_all
  from Cons.IH [OF inv this, of "bs @ [?b]"] obtain g' k' where "k' \<le> k1 + 3 * length items"
    and rest: "for_each (import_todo sha mk session_id digest objective order) items (g1, bs @ [?b]) =
      Inr (g', (bs @ [?b]) @ map (\<lambda>item. \<lparr> tb_legacy_id = ti_id item, tb_node = todo_node_id sha session_id (ti_id item), tb_plan_index = None \<rparr>) items)"
    and inv': "importing sha k' ((nodes @ [(?i, NK_PlanStep)]) @ map (\<lambda>i. (i, NK_PlanStep)) (todo_ids sha session_id items))
      ((edges @ [step_edge_id sha session_id objective ?i]) @ map (step_edge_id sha session_id objective) (todo_ids sha session_id items)) g'"
    by blast
  moreover have "k' \<le> k + 3 * length (item # items)" using k1 \<open>k' \<le> _\<close> by simp
  moreover have "import_todo sha mk session_id digest objective order item (g, bs) = Inr (g1, bs @ [?b])"
    using step Cons.prems(3) by (simp add: import_todo_plain)
  ultimately show ?case by (intro exI [of _ g'] exI [of _ k']) simp
qed auto

lemma running_rows:
  assumes "list_all2 (row_shown g) bs items" and "distinct (map wn_id (wg_nodes g))"
  shows "length (filter (\<lambda>b. \<exists>n \<in> set (wg_nodes g). wn_id n = tb_node b \<and> wn_state n = NS_Active) bs) =
    length (filter (\<lambda>i. ti_status i = TS_InProgress) items)"
  using assms(1)
proof (induction bs items rule: list_all2_induct)
  case (Cons b bs item items)
  have "(\<exists>n \<in> set (wg_nodes g). wn_id n = tb_node b \<and> wn_state n = NS_Active) \<longleftrightarrow>
      (case wg_node g (tb_node b) of Some n \<Rightarrow> wn_state n = NS_Active | None \<Rightarrow> False)"
    by (rule wg_node_kind_iff [OF assms(2), symmetric])
  also have "\<dots> \<longleftrightarrow> node_state_from_todo (ti_status item) = NS_Active"
    using Cons.hyps(1) by (auto simp: row_shown_def view_of_def split: option.splits)
  also have "\<dots> \<longleftrightarrow> ti_status item = TS_InProgress" by (cases "ti_status item") simp_all
  finally show ?case using Cons.IH by simp
qed simp

text \<open>The identifiers an import derives; the digests are cut to 48 bits, so they may collide.\<close>

definition imported_ids :: "(string \<Rightarrow> string) \<Rightarrow> string \<Rightarrow> usize \<Rightarrow> todo_item list \<Rightarrow> work_node_id list" where
  "imported_ids sha session_id steps items =
     map (plan_node_id sha session_id) [0..<steps] @ todo_ids sha session_id items"

definition no_collision :: "(string \<Rightarrow> string) \<Rightarrow> string \<Rightarrow> usize \<Rightarrow> todo_item list \<Rightarrow> bool" where
  "no_collision sha session_id steps items \<longleftrightarrow>
     (let objective = derive_node_id sha session_id ''objective''; ids = imported_ids sha session_id steps items
      in distinct (objective # ids) \<and> distinct (map (step_edge_id sha session_id objective) ids))"

lemma import_final_projection:
  assumes "importing sha k ((objective, NK_Objective) # map (\<lambda>i. (i, NK_PlanStep)) (order @ todo_ids sha session_id items)) edges g"
    and "list_all2 (row_shown g) bs items" and "todo_inv l" and "tl_items l = items"
    and "bs = map (\<lambda>item. \<lparr> tb_legacy_id = ti_id item, tb_node = todo_node_id sha session_id (ti_id item), tb_plan_index = None \<rparr>) items"
  shows "wf_projection (g \<lparr> wg_compat := \<lparr> cs_plan = p, cs_plan_order = order, cs_todos = bs \<rparr> \<rparr>)"
proof -
  have kinds: "node_kinds g = (objective, NK_Objective) # map (\<lambda>i. (i, NK_PlanStep)) (order @ todo_ids sha session_id items)"
    and ids: "distinct (map wn_id (wg_nodes g))"
    using assms(1) by (simp_all add: importing_def simple_graph_def node_kinds_ids)
  have "plan_steps g = {i. (i, NK_PlanStep) \<in> set (node_kinds g)}" by (force simp: plan_steps_def node_kinds_def)
  then have steps: "plan_steps g = set order \<union> set (todo_ids sha session_id items)" unfolding kinds by auto
  have "distinct order" using ids unfolding node_kinds_ids(1) [symmetric] kinds by (simp add: comp_def)
  moreover have "length (filter (\<lambda>b. \<exists>n \<in> set (wg_nodes g). wn_id n = tb_node b \<and> wn_state n = NS_Active) bs) \<le> 1"
    unfolding running_rows [OF assms(2) ids] using assms(3,4) by (simp add: todo_inv_def)
  moreover have "map tb_legacy_id bs = map ti_id items" unfolding assms(5) by simp
  moreover have "distinct (map ti_id items)" "\<forall>i \<in> set items. ti_id i \<noteq> 0" using assms(3,4) by (auto simp: todo_inv_def)
  moreover have "plan_steps (g \<lparr> wg_compat := c \<rparr>) = plan_steps g" for c by (simp add: plan_steps_def)
  ultimately show ?thesis using steps unfolding wf_projection_def by (auto simp: assms(5) comp_def)
qed

lemma import_finishes:
  assumes "importing sha k nodes edges g" and "k + 2 < 2 ^ 64" and "wf_projection (g \<lparr> wg_compat := c \<rparr>)" and "digest \<noteq> []"
  shows "\<exists>g3 g4. import_apply sha (ReplaceCompatProjection c) (import_ctx session_id) g = Inr g3 \<and>
    import_apply sha (SetImportDigest digest) (import_ctx session_id) g3 = Inr g4"
proof -
  let ?c = "ReplaceCompatProjection c" and ?ctx = "import_ctx session_id"
  let ?g3 = "fst (commit sha g ?c ?ctx (g \<lparr> wg_compat := c \<rparr>))"
  have frame: "simple_graph (h \<lparr> wg_compat := x \<rparr>) = simple_graph h" "simple_graph (h \<lparr> wg_import_digest := d \<rparr>) = simple_graph h"
    "wf_projection (h \<lparr> wg_import_digest := d \<rparr>) = wf_projection h" for h x d
    by (simp_all add: simple_graph_def node_kinds_def wf_projection_def plan_steps_def)
  have g: "simple_graph g" "graph_reachable sha k g" using assms(1) by (simp_all add: importing_def)
  have k: "k < 2 ^ 64" "Suc k < 2 ^ 64" using assms(2) by simp_all
  have run: "apply_pure sha g ?ctx ?c = Inr (g \<lparr> wg_compat := c \<rparr>)" by simp
  note first = import_accepts [OF run _ assms(3) g(2) k(1), unfolded frame, OF g(1)]
  have "simple_graph ?g3" using g(1) by (simp add: frame)
  moreover have "wf_projection ?g3"
    using assms(3) by (simp add: wf_projection_def plan_steps_def commit_def Let_def)
  moreover have "apply_pure sha ?g3 ?ctx (SetImportDigest digest) = Inr (?g3 \<lparr> wg_import_digest := Some digest \<rparr>)"
    using assms(4) by simp
  ultimately have "import_apply sha (SetImportDigest digest) ?ctx ?g3 =
      Inr (fst (commit sha ?g3 (SetImportDigest digest) ?ctx (?g3 \<lparr> wg_import_digest := Some digest \<rparr>)))"
    by (intro import_accepts(1) [OF _ _ _ first(2) k(2)]) (simp_all only: frame)
  with first(1) show ?thesis by blast
qed

lemma import_graph_succeeds:
  assumes "no_collision sha session_id (length (pl_items plan)) items" and "length (pl_items plan) \<le> 4294967296"
    and "\<forall>item \<in> set items. mk \<notin> set (ti_content item)" and "todo_inv l" and "tl_items l = items" and "digest \<noteq> []"
  shows "\<exists>g. import_graph sha mk session_id digest plan items = Inr g"
proof -
  let ?o = "derive_node_id sha session_id ''objective''" and ?steps = "length (pl_items plan)"
  let ?order = "map (plan_node_id sha session_id) [0..<?steps]" and ?ctx = "import_ctx session_id"
  let ?n = "import_node ?o NK_Objective (objective_title ''Imported session work'' plan) NS_Ready digest None"
  let ?bs = "map (\<lambda>item. \<lparr> tb_legacy_id = ti_id item, tb_node = todo_node_id sha session_id (ti_id item), tb_plan_index = None \<rparr>) items"
  have "distinct (map ti_id items)" using assms(4,5) by (simp add: todo_inv_def)
  then have small: "1 + 2 * ?steps + 3 * length items + 2 < 2 ^ 64" using distinct_u32_length assms(2) by fastforce
  have new: "importing sha 0 [] [] snapshot_new"
    by (simp add: importing_def simple_graph_def snapshot_new_def node_kinds_def reach_new [unfolded snapshot_new_def])
  have n: "simple_node ?n" "wn_id ?n = ?o" "wn_kind ?n = NK_Objective" by (simp_all add: import_node_def simple_node_def)
  from importing_add_node [OF new _ _ n(1), of session_id] n(2,3) obtain g0 where
    g0: "import_apply sha (AddNode ?n) ?ctx snapshot_new = Inr g0" and inv0: "importing sha 1 [(?o, NK_Objective)] [] g0" by auto
  have ids: "distinct (?o # ?order @ todo_ids sha session_id items)"
    "distinct (map (step_edge_id sha session_id ?o) ?order @ map (step_edge_id sha session_id ?o) (todo_ids sha session_id items))"
    using assms(1) by (simp_all add: no_collision_def imported_ids_def Let_def)
  from importing_steps [OF inv0, of "pl_items plan" 0 ?o session_id digest "[]"] ids small assms(2) obtain g1 where
    g1: "import_steps sha session_id digest ?o 0 (pl_items plan) (g0, []) = Inr (g1, ?order)"
    and inv1: "importing sha (1 + 2 * ?steps) ((?o, NK_Objective) # map (\<lambda>i. (i, NK_PlanStep)) ?order)
      (map (step_edge_id sha session_id ?o) ?order) g1"
    by (auto simp: comp_def)
  from importing_todos [OF inv1, of items mk ?o session_id digest ?order "[]"] ids small assms(3) obtain g2 k2 where
    "k2 \<le> 1 + 2 * ?steps + 3 * length items"
    and g2: "for_each (import_todo sha mk session_id digest ?o ?order) items (g1, []) = Inr (g2, ?bs)"
    and inv2: "importing sha k2 ((?o, NK_Objective) # map (\<lambda>i. (i, NK_PlanStep)) (?order @ todo_ids sha session_id items))
      (map (step_edge_id sha session_id ?o) (?order @ todo_ids sha session_id items)) g2"
    by (auto simp: comp_def)
  have "list_all2 (row_shown g2) ?bs items" using import_todos_views [OF g2 assms(3)] by simp
  from import_final_projection [OF inv2 this assms(4,5) refl]
  have "wf_projection (g2 \<lparr> wg_compat := \<lparr> cs_plan = from_plan_snapshot plan, cs_plan_order = ?order, cs_todos = ?bs \<rparr> \<rparr>)" .
  moreover have "k2 + 2 < 2 ^ 64" using small \<open>k2 \<le> _\<close> by linarith
  ultimately obtain g3 g4 where
    "import_apply sha (ReplaceCompatProjection \<lparr> cs_plan = from_plan_snapshot plan, cs_plan_order = ?order, cs_todos = ?bs \<rparr>) ?ctx g2 = Inr g3"
    "import_apply sha (SetImportDigest digest) ?ctx g3 = Inr g4"
    using import_finishes [OF inv2 _ _ assms(6)] by blast
  with g0 g1 g2 show ?thesis by (simp add: import_graph_def)
qed

text \<open>
  C10. Importing a saved session loses nothing: when the saved To-do list is one the list accepts, no row
  carries a retired marker, the plan has at most 4294967296 steps and no two derived identifiers
  collide, the import succeeds, the graph validates, its plan view is the saved plan as the plan state
  normalises it, and its To-do view has the saved rows in their order, with their identifiers and
  states and with trimmed texts.
\<close>

theorem legacy_import_lossless:
  assumes "todo_from_snapshot todos = Inr l" and "canon (normal_plan plan) (todo_snapshot l) = Inr canonical"
    and "sha canonical \<noteq> []" and "\<forall>item \<in> set (ls_items todos). mk \<notin> set (ti_content item)"
    and "length (pl_items (normal_plan plan)) \<le> 4294967296"
    and "no_collision sha session_id (length (pl_items (normal_plan plan))) (ls_items todos)"
  shows "\<exists>g. import_legacy sha canon mk session_id plan todos = Inr g \<and> validate g = Inr () \<and>
    project_plan g = normal_plan plan \<and> project_todos g = trimmed_todos todos"
proof -
  have l: "todo_inv l" "tl_items l = ls_items todos" using todo_from_snapshot_inv [OF assms(1)] by simp_all
  from import_graph_succeeds [OF assms(6,5,4) l assms(3)] obtain g where
    "import_graph sha mk session_id (sha canonical) (normal_plan plan) (ls_items todos) = Inr g" by blast
  moreover have "ls_items (todo_snapshot l) = ls_items todos" using l(2) by (simp add: todo_snapshot_def)
  ultimately have g: "import_legacy sha canon mk session_id plan todos = Inr g"
    using assms(1,2) by (simp add: import_legacy_def normal_plan_def Let_def)
  have "distinct (map ti_id (ls_items todos))" using l by (simp add: todo_inv_def)
  with import_graph_reach \<open>import_graph _ _ _ _ _ _ = _\<close> graph_reachable_inv have "validate g = Inr ()"
    by (metis graph_inv_def validate_Inr_iff)
  with g import_legacy_views [OF g assms(4)] show ?thesis by blast
qed

section \<open>The import at work\<close>

text \<open>
  A saved session: a plan with one step in progress and a list with one open row. In the place of the
  digest stands reversal, which keeps these few identifiers apart; the canonical text is a constant.
\<close>

definition sample_plan :: plan_snapshot where
  "sample_plan = (to_plan_snapshot compat_plan_default) \<lparr> pl_items := [\<lparr> pi_step = '' ship '', pi_status = SS_InProgress \<rparr>] \<rparr>"

definition sample_item :: "u32 \<Rightarrow> string \<Rightarrow> todo_status \<Rightarrow> todo_item" where
  "sample_item i content status = \<lparr> ti_id = i, ti_content = content, ti_status = status \<rparr>"

definition sample_todos :: "todo_item list \<Rightarrow> todo_list_snapshot" where
  "sample_todos items = todo_snapshot \<lparr> tl_items = items, tl_next_id = 1 \<rparr>"

definition sample_canon :: "plan_snapshot \<Rightarrow> todo_list_snapshot \<Rightarrow> string + string" where
  "sample_canon plan todos = Inr ''{}''"

theorem legacy_import_lossless_witness:
  "\<exists>g. import_legacy rev sample_canon CHR 0x01 ''s'' sample_plan (sample_todos [sample_item 4 ''test '' TS_Pending]) = Inr g \<and>
     validate g = Inr () \<and> project_todos g = trimmed_todos (sample_todos [sample_item 4 ''test '' TS_Pending])"
proof -
  let ?todos = "sample_todos [sample_item 4 ''test '' TS_Pending]"
  have "\<not> isl (todo_from_snapshot ?todos)" by code_simp
  then obtain l where l: "todo_from_snapshot ?todos = Inr l" by (cases "todo_from_snapshot ?todos") simp_all
  have "no_collision rev ''s'' (length (pl_items (normal_plan sample_plan))) (ls_items ?todos)" by code_simp
  moreover have "length (pl_items (normal_plan sample_plan)) = 1" by code_simp
  moreover have "\<forall>item \<in> set (ls_items ?todos). CHR 0x01 \<notin> set (ti_content item)" by code_simp
  ultimately show ?thesis
    using legacy_import_lossless [OF l, of sample_canon sample_plan "''{}''" rev "CHR 0x01" "''s''"] by (auto simp: sample_canon_def)
qed

theorem import_is_valid_witness:
  "\<exists>g. import_legacy rev sample_canon CHR 0x01 ''s'' sample_plan
      (sample_todos [sample_item 4 (''Ship'' @ CHR 0x01 # ''cw-plan-step:0'' @ [CHR 0x01]) TS_Completed]) = Inr g \<and> validate g = Inr ()"
  (is "\<exists>g. ?import = Inr g \<and> _")
proof -
  have "\<not> isl ?import" by code_simp
  then obtain g where "?import = Inr g" by (cases ?import) simp_all
  with import_is_valid [OF this] show ?thesis by blast
qed



end
