(* ===== verification/Work_Runtime.thy ===== *)
theory Work_Runtime
  imports Work_Graph_Import
begin

text \<open>
  The active session: \<open>tui/src/work_graph/runtime.rs\<close>. One record holds the graph with its publishing
  state and the two legacy views that the rest of the program reads; every method is a function from
  this record to the record it leaves and its result, an error message on the left.

  The surroundings of a call are its first argument: the digest, the JSON serialiser and the marker
  character of the import, the clocks, which of the two legacy locks is busy, and what the fleet ledger
  and the lane registry answer. A call sees one instant of the clock. The graph's own mutex is taken
  for a whole method, so that methods run one after the other; the one method that gives it up in
  between, the workspace reconciliation, takes what others did meanwhile as an argument.

  The lemmas: what a plan or To-do update shows is what was asked for; a graph whose views can be
  published stays so under everything owners and operations do, so that publishing and saving cannot
  get stuck; an observation never goes back in sequence.
\<close>

section \<open>State and surroundings\<close>

record active_graph =
  ag_session_id :: "string option"
  ag_snapshot :: "work_graph_snapshot option"
  ag_pending_publish :: bool

definition active_graph_default :: active_graph where
  "active_graph_default = \<lparr> ag_session_id = None, ag_snapshot = None, ag_pending_publish = False \<rparr>"

record work_runtime =
  wr_todos :: todo_list
  wr_plan :: plan_state
  wr_graph :: active_graph

definition new_shared_work_runtime :: "todo_list \<Rightarrow> plan_state \<Rightarrow> work_runtime" where
  "new_shared_work_runtime todos plan = \<lparr> wr_todos = todos, wr_plan = plan, wr_graph = active_graph_default \<rparr>"

record world =
  w_sha :: "string \<Rightarrow> string"
  w_canon :: "plan_snapshot \<Rightarrow> todo_list_snapshot \<Rightarrow> string + string"
  w_mk :: char
  w_now :: ts
  w_instant :: instant
  w_todos_busy :: bool
  w_plan_busy :: bool
  w_fleet :: "string \<Rightarrow> fleet_task_state option"
  w_lane :: "string \<Rightarrow> lane_record option"

definition resolved_session_id :: "active_graph \<Rightarrow> string option \<Rightarrow> string" where
  "resolved_session_id a requested =
     (case requested of
        Some s \<Rightarrow> s
      | None \<Rightarrow> (case ag_session_id a of Some s \<Rightarrow> s | None \<Rightarrow> ''unsaved-work''))"

text \<open>A named session other than the active one.\<close>

definition other_session :: "string option \<Rightarrow> active_graph \<Rightarrow> bool" where
  "other_session session_id a =
     (case (session_id, ag_session_id a) of (Some expected, Some actual) \<Rightarrow> expected \<noteq> actual | _ \<Rightarrow> False)"

definition bound_to :: "string \<Rightarrow> work_node \<Rightarrow> bool" where
  "bound_to ext n = (case wn_binding n of Some b \<Rightarrow> ob_external b = ext | None \<Rightarrow> False)"

definition unsettled :: "work_node \<Rightarrow> bool" where
  "unsettled n \<longleftrightarrow> is_live (wn_state n) \<or> wn_state n = NS_Stale"

definition durable_externals :: "work_node list \<Rightarrow> string list" where
  "durable_externals ns =
     map ob_external (filter ob_durable (List.map_filter wn_binding (filter unsettled ns)))"

definition has_operation_binding :: "string option \<Rightarrow> string \<Rightarrow> work_runtime \<Rightarrow> bool" where
  "has_operation_binding session_id ext r =
     (if other_session session_id (wr_graph r) then False
      else case ag_snapshot (wr_graph r) of
             Some g \<Rightarrow> list_ex (bound_to ext) (wg_nodes g)
           | None \<Rightarrow> False)"

definition reconcilable_durable_bindings :: "string option \<Rightarrow> work_runtime \<Rightarrow> string list" where
  "reconcilable_durable_bindings session_id r =
     (if other_session session_id (wr_graph r) then []
      else case ag_snapshot (wr_graph r) of Some g \<Rightarrow> durable_externals (wg_nodes g) | None \<Rightarrow> [])"

section \<open>Titles and labels\<close>

definition bounded_operation_title :: "string \<Rightarrow> string" where
  "bounded_operation_title title =
     (let normalized = join '' '' (split_whitespace title);
          bounded = take 180 normalized
      in if length normalized > 180 then bounded @ ''...''
         else if bounded = [] then ''Runtime operation''
         else bounded)"

definition prompt_safe_title :: "string \<Rightarrow> string" where
  "prompt_safe_title title = bounded_operation_title (map (\<lambda>c. if c = CHR 0x60 then CHR 0x27 else c) title)"

primrec operation_state_label :: "node_state \<Rightarrow> string" where
  "operation_state_label NS_Ready = ''ready''"
| "operation_state_label NS_Initializing = ''initializing''"
| "operation_state_label NS_Active = ''running''"
| "operation_state_label NS_Waiting = ''waiting''"
| "operation_state_label NS_Blocked = ''blocked''"
| "operation_state_label NS_Completed = ''completed''"
| "operation_state_label NS_Verified = ''verified''"
| "operation_state_label NS_Stale = ''stale''"
| "operation_state_label NS_Superseded = ''superseded''"
| "operation_state_label NS_Cancelled = ''cancelled''"
| "operation_state_label NS_Failed = ''failed''"

definition ACTIVE_OPERATION_SUMMARY_START :: string where
  "ACTIVE_OPERATION_SUMMARY_START = ''<!-- ghosty:active-work-operations:start -->''"

definition ACTIVE_OPERATION_SUMMARY_END :: string where
  "ACTIVE_OPERATION_SUMMARY_END = ''<!-- ghosty:active-work-operations:end -->''"

definition summary_line :: "work_node \<Rightarrow> string" where
  "summary_line n =
     ''- '' @ [CHR 0x60] @ (case wn_binding n of Some b \<Rightarrow> ob_external b | None \<Rightarrow> ''unbound'') @ [CHR 0x60] @ '' - '' @
     operation_state_label (wn_state n) @ '' - '' @ prompt_safe_title (wn_title n) @ [CHR 0x0A]"

definition active_operation_summary :: "string option \<Rightarrow> work_runtime \<Rightarrow> string option" where
  "active_operation_summary session_id r =
     (if other_session session_id (wr_graph r) then None
      else case ag_snapshot (wr_graph r) of
             None \<Rightarrow> None
           | Some g \<Rightarrow>
               let operations = take 24 (filter (\<lambda>n. wn_kind n = NK_Operation \<and> unsettled n) (wg_nodes g))
               in if operations = [] then None
                  else Some (ACTIVE_OPERATION_SUMMARY_START @ [CHR 0x0A] @ ''## Active Work Graph Operations'' @
                    [CHR 0x0A, CHR 0x0A] @
                    ''Owner records remain authoritative; reconcile before acting on a restored operation.'' @ [CHR 0x0A] @
                    concat (map summary_line operations) @ ACTIVE_OPERATION_SUMMARY_END))"

section \<open>Steps on a graph\<close>

text \<open>\<open>apply_change\<close> of this module: the reducer with the tool's name in front of a refusal.\<close>

definition tool_ctx :: "world \<Rightarrow> string \<Rightarrow> change_ctx" where
  "tool_ctx w session_id = \<lparr> cc_session_id = session_id, cc_now = w_now w, cc_idempotency_key = None \<rparr>"

definition tool_apply ::
  "world \<Rightarrow> string \<Rightarrow> string \<Rightarrow> work_graph_change \<Rightarrow> work_graph_snapshot \<Rightarrow> string + work_graph_snapshot" where
  "tool_apply w session_id tool change g =
     (case apply_change (w_sha w) g change (tool_ctx w session_id) of
        Inl report \<Rightarrow> Inl (tool @ '': '' @ report_display report)
      | Inr (g', receipt) \<Rightarrow> Inr g')"

definition tool_provenance :: "work_graph_snapshot \<Rightarrow> string \<Rightarrow> provenance" where
  "tool_provenance g tool = ToolUpdate tool (tool @ '':'' @ show_nat (unat (saturating_inc (wg_revision g))))"

definition patch_existing_node ::
  "world \<Rightarrow> string \<Rightarrow> string \<Rightarrow> work_node_id \<Rightarrow> string \<Rightarrow> node_state \<Rightarrow> work_graph_snapshot \<Rightarrow>
   string + work_graph_snapshot" where
  "patch_existing_node w session_id tool i title state g =
     (case wg_node g i of
        None \<Rightarrow> Inl (''node '' @ i @ '' not found'')
      | Some current \<Rightarrow>
          if wn_title current = title \<and> wn_state current = state then Inr g
          else tool_apply w session_id tool
                 (UpdateNode i (patch_default \<lparr> np_title := Some title, np_state := Some state,
                    np_provenance := Some (tool_provenance g tool) \<rparr>)) g)"

definition upsert_node ::
  "world \<Rightarrow> string \<Rightarrow> string \<Rightarrow> work_node \<Rightarrow> work_graph_snapshot \<Rightarrow> string + work_graph_snapshot" where
  "upsert_node w session_id tool n g =
     (case wg_node g (wn_id n) of
        Some existing \<Rightarrow>
          if wn_kind existing \<noteq> wn_kind n then Inl (''node '' @ wn_id n @ '' changed kind'')
          else patch_existing_node w session_id tool (wn_id n) (wn_title n) (wn_state n) g
      | None \<Rightarrow> tool_apply w session_id tool (AddNode n) g)"

definition ensure_contains ::
  "world \<Rightarrow> string \<Rightarrow> string \<Rightarrow> work_node_id \<Rightarrow> work_node_id \<Rightarrow> work_graph_snapshot \<Rightarrow> string + work_graph_snapshot" where
  "ensure_contains w session_id tool parent child g =
     (let e = contains_edge (w_sha w) session_id parent child
      in if wg_edge g (we_id e) \<noteq> None then Inr g else tool_apply w session_id tool (AddEdge e) g)"

definition tool_node ::
  "world \<Rightarrow> string \<Rightarrow> work_graph_snapshot \<Rightarrow> work_node_id \<Rightarrow> node_kind \<Rightarrow> string \<Rightarrow> node_state \<Rightarrow> work_node" where
  "tool_node w tool g i kind title state =
     \<lparr> wn_id = i, wn_kind = kind, wn_title = title, wn_state = state, wn_acceptance = [], wn_binding = None,
       wn_evidence = None, wn_provenance = tool_provenance g tool, wn_created_at = w_now w, wn_updated_at = w_now w \<rparr>"

definition ensure_objective ::
  "world \<Rightarrow> string \<Rightarrow> string \<Rightarrow> plan_snapshot \<Rightarrow> work_graph_snapshot \<Rightarrow> string + work_node_id \<times> work_graph_snapshot" where
  "ensure_objective w session_id tool plan g =
     (let i = (case find (\<lambda>n. wn_kind n = NK_Objective) (wg_nodes g) of
                 Some n \<Rightarrow> wn_id n
               | None \<Rightarrow> derive_node_id (w_sha w) session_id ''objective'')
      in and_then (upsert_node w session_id tool
             (tool_node w tool g i NK_Objective (objective_title ''Session work'' plan) NS_Ready) g) (\<lambda>g'. Inr (i, g')))"

definition deactivate_projected_todos ::
  "world \<Rightarrow> string \<Rightarrow> string \<Rightarrow> work_graph_snapshot \<Rightarrow> string + work_graph_snapshot" where
  "deactivate_projected_todos w session_id tool g =
     (let active = List.map_filter (\<lambda>b. case wg_node g (tb_node b) of
            Some n \<Rightarrow> if wn_state n = NS_Active then Some (wn_id n, wn_title n) else None
          | None \<Rightarrow> None) (cs_todos (wg_compat g))
      in for_each (\<lambda>(i, title). patch_existing_node w session_id tool i title NS_Ready) active g)"

section \<open>Plan and To-do updates\<close>

primrec plan_node_state :: "step_status \<Rightarrow> node_state" where
  "plan_node_state SS_Pending = NS_Ready"
| "plan_node_state SS_InProgress = NS_Active"
| "plan_node_state SS_Completed = NS_Completed"

primrec todo_node_state :: "todo_status \<Rightarrow> node_state" where
  "todo_node_state TS_Pending = NS_Ready"
| "todo_node_state TS_InProgress = NS_Active"
| "todo_node_state TS_Completed = NS_Completed"
| "todo_node_state TS_Cancelled = NS_Cancelled"

definition get :: "'a list \<Rightarrow> usize \<Rightarrow> 'a option" where
  "get xs i = (if i < length xs then Some (xs ! i) else None)"

text \<open>Whether some step to be made active already stands in the order and is shown as a To-do row.\<close>

definition desired_active_alias :: "plan_snapshot \<Rightarrow> work_graph_snapshot \<Rightarrow> bool" where
  "desired_active_alias plan g =
     list_ex (\<lambda>(index, item). pi_status item = SS_InProgress \<and>
         (case get (cs_plan_order (wg_compat g)) index of
            Some i \<Rightarrow> list_ex (\<lambda>b. tb_node b = i) (cs_todos (wg_compat g))
          | None \<Rightarrow> False))
       (enumerate 0 (pl_items plan))"

definition plan_step_id :: "world \<Rightarrow> string \<Rightarrow> work_graph_snapshot \<Rightarrow> usize \<Rightarrow> work_node_id" where
  "plan_step_id w session_id g index =
     (case get (cs_plan_order (wg_compat g)) index of Some i \<Rightarrow> i | None \<Rightarrow> plan_node_id (w_sha w) session_id index)"

fun update_plan_steps ::
  "world \<Rightarrow> string \<Rightarrow> string \<Rightarrow> work_node_id \<Rightarrow> usize \<Rightarrow> plan_item_arg list \<Rightarrow>
   work_graph_snapshot \<times> work_node_id list \<Rightarrow> string + work_graph_snapshot \<times> work_node_id list" where
  "update_plan_steps w session_id tool objective index [] (g, order) = Inr (g, order)"
| "update_plan_steps w session_id tool objective index (item # items) (g, order) =
     (let i = plan_step_id w session_id g index
      in and_then (upsert_node w session_id tool
             (tool_node w tool g i NK_PlanStep (trim (pi_step item)) (plan_node_state (pi_status item))) g) (\<lambda>g1.
         and_then (ensure_contains w session_id tool objective i g1) (\<lambda>g2.
         update_plan_steps w session_id tool objective (Suc index) items (g2, order @ [i]))))"

definition plan_compat :: "plan_snapshot \<Rightarrow> work_node_id list \<Rightarrow> compat_projection_state \<Rightarrow> compat_projection_state" where
  "plan_compat plan order c =
     (let kept = filter (\<lambda>b. case tb_plan_index b of Some index \<Rightarrow> unat index < length (pl_items plan) | None \<Rightarrow> True) (cs_todos c);
          todos = map (\<lambda>b. case tb_plan_index b of
              Some index \<Rightarrow> (case get order (unat index) of Some i \<Rightarrow> b \<lparr> tb_node := i \<rparr> | None \<Rightarrow> b)
            | None \<Rightarrow> b) kept
      in \<lparr> cs_plan = from_plan_snapshot plan, cs_plan_order = order, cs_todos = todos \<rparr>)"

definition update_plan_graph ::
  "world \<Rightarrow> string \<Rightarrow> string \<Rightarrow> plan_snapshot \<Rightarrow> work_graph_snapshot \<Rightarrow> string + work_graph_snapshot" where
  "update_plan_graph w session_id tool plan base =
     and_then (ensure_objective w session_id tool plan base) (\<lambda>(objective, g0).
     and_then (if desired_active_alias plan g0 then deactivate_projected_todos w session_id tool g0 else Inr g0) (\<lambda>g1.
     and_then (update_plan_steps w session_id tool objective 0 (pl_items plan) (g1, [])) (\<lambda>(g2, order).
     tool_apply w session_id tool (ReplaceCompatProjection (plan_compat plan order (wg_compat g2))) g2)))"

definition todo_alias :: "work_node_id list \<Rightarrow> work_graph_snapshot \<Rightarrow> u32 \<Rightarrow> (u32 \<times> work_node_id) option" where
  "todo_alias plan_order g i =
     (case find (\<lambda>b. tb_legacy_id b = i) (cs_todos (wg_compat g)) of
        Some b \<Rightarrow>
          (case tb_plan_index b of
             Some index \<Rightarrow> if get plan_order (unat index) = Some (tb_node b) then Some (index, tb_node b) else None
           | None \<Rightarrow> None)
      | None \<Rightarrow> None)"

definition todo_row_id :: "world \<Rightarrow> string \<Rightarrow> work_graph_snapshot \<Rightarrow> u32 \<Rightarrow> work_node_id" where
  "todo_row_id w session_id g i =
     (case find (\<lambda>b. tb_legacy_id b = i \<and> tb_plan_index b = None) (cs_todos (wg_compat g)) of
        Some b \<Rightarrow> tb_node b
      | None \<Rightarrow> todo_node_id (w_sha w) session_id i)"

definition update_own_row ::
  "world \<Rightarrow> string \<Rightarrow> string \<Rightarrow> work_node_id \<Rightarrow> work_node_id \<Rightarrow> string \<Rightarrow> node_state \<Rightarrow> work_graph_snapshot \<Rightarrow>
   string + work_graph_snapshot" where
  "update_own_row w session_id tool objective i title desired g =
     and_then (upsert_node w session_id tool
         (tool_node w tool g i NK_PlanStep title (if desired = NS_Active then NS_Ready else desired)) g) (\<lambda>g1.
     and_then (ensure_contains w session_id tool objective i g1) (\<lambda>g2.
     if desired = NS_Active
     then (case wg_node g2 i of
             None \<Rightarrow> Inl (''node '' @ i @ '' not found after insert'')
           | Some n \<Rightarrow> patch_existing_node w session_id tool i (wn_title n) desired g2)
     else Inr g2))"

definition update_todo_row ::
  "world \<Rightarrow> string \<Rightarrow> string \<Rightarrow> work_node_id \<Rightarrow> work_node_id list \<Rightarrow> todo_item \<Rightarrow>
   work_graph_snapshot \<times> compat_todo_binding list \<Rightarrow> string + work_graph_snapshot \<times> compat_todo_binding list" where
  "update_todo_row w session_id tool objective plan_order item = (\<lambda>(g, bindings).
     (let title = trim (ti_content item)
      in case todo_alias plan_order g (ti_id item) of
           Some (index, i) \<Rightarrow>
             and_then (patch_existing_node w session_id tool i title (todo_node_state (ti_status item)) g) (\<lambda>g'.
             Inr (g', bindings @ [\<lparr> tb_legacy_id = ti_id item, tb_node = i, tb_plan_index = Some index \<rparr>]))
         | None \<Rightarrow>
             let i = todo_row_id w session_id g (ti_id item)
             in and_then (update_own_row w session_id tool objective i title (todo_node_state (ti_status item)) g) (\<lambda>g'.
                Inr (g', bindings @ [\<lparr> tb_legacy_id = ti_id item, tb_node = i, tb_plan_index = None \<rparr>]))))"

definition update_todo_graph ::
  "world \<Rightarrow> string \<Rightarrow> string \<Rightarrow> todo_list_snapshot \<Rightarrow> work_graph_snapshot \<Rightarrow> string + work_graph_snapshot" where
  "update_todo_graph w session_id tool todos base =
     and_then (deactivate_projected_todos w session_id tool base) (\<lambda>g0.
     and_then (ensure_objective w session_id tool (project_plan g0) g0) (\<lambda>(objective, g1).
     let plan_order = cs_plan_order (wg_compat g1)
     in and_then (for_each (update_todo_row w session_id tool objective plan_order) (ls_items todos) (g1, [])) (\<lambda>(g2, bindings).
        tool_apply w session_id tool (ReplaceCompatProjection ((wg_compat g2) \<lparr> cs_todos := bindings \<rparr>)) g2)))"

definition validate_combined ::
  "work_graph_snapshot \<Rightarrow> plan_snapshot \<Rightarrow> todo_list_snapshot \<Rightarrow> string + unit" where
  "validate_combined g plan todos =
     (case validate g of
        Inl report \<Rightarrow> Inl (report_display report)
      | Inr _ \<Rightarrow>
          if project_plan g \<noteq> plan then Inl ''Work Graph Plan projection is inconsistent''
          else if project_todos g \<noteq> todos then Inl ''Work Graph To-do projection is inconsistent''
          else and_then (todo_from_snapshot todos) (\<lambda>_. Inr ()))"

section \<open>Operations on the session\<close>

definition graph_for_update ::
  "world \<Rightarrow> string \<Rightarrow> plan_snapshot \<Rightarrow> todo_list_snapshot \<Rightarrow> active_graph \<Rightarrow>
   active_graph \<times> (string + work_graph_snapshot)" where
  "graph_for_update w session_id plan todos a0 =
     (let a = a0 \<lparr> ag_session_id := Some session_id \<rparr>
      in case ag_snapshot a of
           Some g \<Rightarrow> (a, case validate g of Inl report \<Rightarrow> Inl (report_display report) | Inr _ \<Rightarrow> Inr g)
         | None \<Rightarrow>
             (case if plan_snapshot_is_empty plan \<and> todo_snapshot_is_empty todos then Inr snapshot_new
                   else import_legacy (w_sha w) (w_canon w) (w_mk w) session_id plan todos of
                Inl e \<Rightarrow> (a, Inl e)
              | Inr g \<Rightarrow> (a \<lparr> ag_snapshot := Some g \<rparr>, Inr g)))"

text \<open>
  The frame every writing method shares: it obtains the graph, computes a result and perhaps a next
  graph, and only then stores that graph as one to be published.
\<close>

definition with_graph ::
  "world \<Rightarrow> string \<Rightarrow> (work_graph_snapshot \<Rightarrow> string + 'a \<times> work_graph_snapshot option) \<Rightarrow> work_runtime \<Rightarrow>
   work_runtime \<times> (string + 'a)" where
  "with_graph w session_id f r =
     (let (a, base) = graph_for_update w session_id (plan_snapshot_of (wr_plan r)) (todo_snapshot (wr_todos r)) (wr_graph r)
      in case and_then base f of
           Inl e \<Rightarrow> (r \<lparr> wr_graph := a \<rparr>, Inl e)
         | Inr (x, None) \<Rightarrow> (r \<lparr> wr_graph := a \<rparr>, Inr x)
         | Inr (x, Some next_graph) \<Rightarrow>
             (r \<lparr> wr_graph := a \<lparr> ag_snapshot := Some next_graph, ag_pending_publish := True \<rparr> \<rparr>, Inr x))"

text \<open>The two bounded attempts at the legacy locks, with what the method says when one stays busy.\<close>

definition with_locks ::
  "world \<Rightarrow> string \<Rightarrow> (work_runtime \<Rightarrow> work_runtime \<times> (string + 'a)) \<Rightarrow> work_runtime \<Rightarrow> work_runtime \<times> (string + 'a)" where
  "with_locks w consequence f r =
     (if w_todos_busy w then (r, Inl (''To-do state is busy; '' @ consequence))
      else if w_plan_busy w then (r, Inl (''Plan state is busy; '' @ consequence))
      else f r)"

definition accept_next :: "'a \<Rightarrow> work_graph_snapshot \<Rightarrow> string + 'a \<times> work_graph_snapshot option" where
  "accept_next x g = and_then (validate_combined g (project_plan g) (project_todos g)) (\<lambda>_. Inr (x, Some g))"

definition operation_parent ::
  "world \<Rightarrow> string \<Rightarrow> string \<Rightarrow> work_graph_snapshot \<Rightarrow> string + work_node_id \<times> work_graph_snapshot" where
  "operation_parent w session_id source g =
     (let step = (\<lambda>s. find (\<lambda>n. wn_kind n = NK_PlanStep \<and> wn_state n = s) (wg_nodes g));
          parent = (case step NS_Active of
              Some n \<Rightarrow> Some n
            | None \<Rightarrow> (case step NS_Ready of Some n \<Rightarrow> Some n | None \<Rightarrow> find (\<lambda>n. wn_kind n = NK_Objective) (wg_nodes g)))
      in case parent of
           Some n \<Rightarrow> Inr (wn_id n, g)
         | None \<Rightarrow>
             let i = derive_node_id (w_sha w) session_id ''objective:runtime-operations''
             in and_then (tool_apply w session_id source (AddNode
                   \<lparr> wn_id = i, wn_kind = NK_Objective, wn_title = ''Runtime operations'', wn_state = NS_Ready,
                     wn_acceptance = [], wn_binding = None, wn_evidence = None,
                     wn_provenance = RuntimeReconcile source (w_now w), wn_created_at = w_now w, wn_updated_at = w_now w \<rparr>) g)
                (\<lambda>g'. Inr (i, g')))"

definition operation_node :: "world \<Rightarrow> string \<Rightarrow> operation_intent \<Rightarrow> work_node" where
  "operation_node w session_id intent =
     \<lparr> wn_id = derive_node_id (w_sha w) session_id (''operation:'' @ oi_external intent), wn_kind = NK_Operation,
       wn_title = bounded_operation_title (oi_title intent), wn_state = NS_Ready, wn_acceptance = oi_acceptance intent,
       wn_binding = Some \<lparr> ob_external = oi_external intent, ob_durable = oi_durable intent, ob_last_observation = None \<rparr>,
       wn_evidence = None, wn_provenance = ToolUpdate (oi_source intent) (oi_call_id intent),
       wn_created_at = w_now w, wn_updated_at = w_now w \<rparr>"

definition add_operation ::
  "world \<Rightarrow> string \<Rightarrow> operation_intent \<Rightarrow> work_graph_snapshot \<Rightarrow> string + work_graph_snapshot" where
  "add_operation w session_id intent g =
     (let n = operation_node w session_id intent
      in and_then (operation_parent w session_id (oi_source intent) g) (\<lambda>(parent, g1).
         and_then (tool_apply w session_id (oi_source intent) (AddNode n) g1) (\<lambda>g2.
         and_then (ensure_contains w session_id (oi_source intent) parent (wn_id n) g2) (\<lambda>g3.
         case wg_node g3 (wn_id n) of
           None \<Rightarrow> Inl (''operation '' @ wn_id n @ '' disappeared during registration'')
         | Some m \<Rightarrow> patch_existing_node w session_id (oi_source intent) (wn_id n) (wn_title m) NS_Initializing g3))))"

definition registration ::
  "world \<Rightarrow> string \<Rightarrow> operation_intent \<Rightarrow> work_graph_snapshot \<Rightarrow> string + work_node_id \<times> work_graph_snapshot option" where
  "registration w session_id intent base =
     (case find (bound_to (oi_external intent)) (wg_nodes base) of
        Some existing \<Rightarrow>
          if map_option ob_durable (wn_binding existing) \<noteq> Some (oi_durable intent)
          then Inl (''lifecycle binding '' @ oi_external intent @ '' changed durability'')
          else Inr (wn_id existing, None)
      | None \<Rightarrow>
          and_then (add_operation w session_id intent base)
            (accept_next (wn_id (operation_node w session_id intent))))"

definition register_operation ::
  "world \<Rightarrow> string \<Rightarrow> operation_intent \<Rightarrow> work_runtime \<Rightarrow> work_runtime \<times> (string + work_node_id)" where
  "register_operation w session_id intent r =
     (if \<not> external_identity_is_well_formed (oi_external intent)
      then (r, Inl (''invalid lifecycle binding external '' @ debug_str (oi_external intent)))
      else with_locks w ''operation was not registered'' (with_graph w session_id (registration w session_id intent)) r)"

definition add_approval ::
  "world \<Rightarrow> string \<Rightarrow> work_node_id \<Rightarrow> string \<Rightarrow> string \<Rightarrow> string \<Rightarrow> string \<Rightarrow> work_graph_snapshot \<Rightarrow> string + work_graph_snapshot" where
  "add_approval w session_id operation ext reference source call_id base =
     (let approval = derive_node_id (w_sha w) session_id (''approval:operation:'' @ ext @ '':'' @ reference);
          edge = derive_edge_id (w_sha w) session_id (''requires-approval:'' @ operation @ '':'' @ approval)
      in and_then (if wg_node base approval = None
             then tool_apply w session_id source (AddNode
               \<lparr> wn_id = approval, wn_kind = NK_Approval,
                 wn_title = bounded_operation_title (''verification approved: '' @ reference), wn_state = NS_Completed,
                 wn_acceptance = [], wn_binding = None, wn_evidence = None, wn_provenance = ToolUpdate source call_id,
                 wn_created_at = w_now w, wn_updated_at = w_now w \<rparr>) base
             else Inr base) (\<lambda>g1.
         if wg_edge g1 edge = None
         then tool_apply w session_id source (AddEdge
           \<lparr> we_id = edge, we_kind = EK_RequiresApproval, we_from = operation, we_to = approval \<rparr>) g1
         else Inr g1))"

definition approval_record ::
  "world \<Rightarrow> string \<Rightarrow> string \<Rightarrow> string \<Rightarrow> string \<Rightarrow> string \<Rightarrow> work_graph_snapshot \<Rightarrow> string + unit \<times> work_graph_snapshot option" where
  "approval_record w session_id ext reference source call_id base =
     (case find (\<lambda>n. wn_kind n = NK_Operation \<and> bound_to ext n) (wg_nodes base) of
        None \<Rightarrow> Inl (''operation binding '' @ ext @ '' is not registered'')
      | Some n \<Rightarrow> and_then (add_approval w session_id (wn_id n) ext reference source call_id base) (accept_next ()))"

definition record_operation_approval ::
  "world \<Rightarrow> string \<Rightarrow> string \<Rightarrow> string \<Rightarrow> string \<Rightarrow> string \<Rightarrow> work_runtime \<Rightarrow> work_runtime \<times> (string + unit)" where
  "record_operation_approval w session_id ext reference source call_id =
     with_locks w ''approval was not recorded'' (with_graph w session_id (approval_record w session_id ext reference source call_id))"

section \<open>Observations\<close>

text \<open>
  What a report means against the last one: a refusal, nothing new (\<^term>\<open>Inr None\<close>), or work to do, with
  whether it only confirms an operation marked stale.
\<close>

definition stale_owner_recovery :: "string \<Rightarrow> work_node \<Rightarrow> operation_observation \<Rightarrow> string + bool option" where
  "stale_owner_recovery ext n obs =
     (case (obs, case wn_binding n of Some b \<Rightarrow> ob_last_observation b | None \<Rightarrow> None) of
        (OwnerReported state seq at_time output, Some previous) \<Rightarrow>
          if seq < os_seq previous
          then Inl (''operation owner '' @ ext @ '' sequence regressed from '' @ show_nat (unat (os_seq previous)) @ '' to '' @ show_nat (unat seq))
          else if seq = os_seq previous
          then if wn_state n \<noteq> NS_Stale then Inr None
               else if state \<noteq> os_owner_state previous \<or> output \<noteq> os_output previous
               then Inl (''operation owner '' @ ext @ '' changed observation at sequence '' @ show_nat (unat seq))
               else Inr (Some True)
          else Inr (Some False)
      | _ \<Rightarrow> Inr (Some False))"

definition is_owner_missing :: "operation_observation \<Rightarrow> bool" where
  "is_owner_missing obs = (case obs of OwnerMissing _ \<Rightarrow> True | _ \<Rightarrow> False)"

definition observation_key :: "world \<Rightarrow> string \<Rightarrow> string \<Rightarrow> bool \<Rightarrow> operation_observation \<Rightarrow> idempotency_key option" where
  "observation_key w session_id ext recovery obs =
     (case obs of
        OwnerReported state seq at_time output \<Rightarrow>
          if recovery then None
          else Some \<lparr> ik_binding = derive_binding_id (w_sha w) session_id (''binding:'' @ ext), ik_seq = seq \<rparr>
      | _ \<Rightarrow> None)"

definition apply_observation_to_snapshot ::
  "world \<Rightarrow> string \<Rightarrow> string \<Rightarrow> operation_observation \<Rightarrow> work_graph_snapshot \<Rightarrow> string + work_graph_snapshot option" where
  "apply_observation_to_snapshot w session_id ext obs base =
     (case find (bound_to ext) (wg_nodes base) of
        None \<Rightarrow> Inl (''operation binding '' @ ext @ '' is not registered'')
      | Some n \<Rightarrow>
          (case stale_owner_recovery ext n obs of
             Inl e \<Rightarrow> Inl e
           | Inr None \<Rightarrow> Inr None
           | Inr (Some recovery) \<Rightarrow>
               if is_owner_missing obs \<and> wn_state n = NS_Stale then Inr None
               else case apply_change (w_sha w) base (ReconcileOperation (wn_id n) obs)
                      ((tool_ctx w session_id) \<lparr> cc_idempotency_key := observation_key w session_id ext recovery obs \<rparr>) of
                      Inl report \<Rightarrow> Inl (''runtime reconcile: '' @ report_display report)
                    | Inr (next_graph, receipt) \<Rightarrow> Inr (if cr_no_op receipt then None else Some next_graph)))"

definition reconcile_observation ::
  "world \<Rightarrow> string \<Rightarrow> string \<Rightarrow> operation_observation \<Rightarrow> work_runtime \<Rightarrow> work_runtime \<times> (string + bool)" where
  "reconcile_observation w session_id ext obs r =
     (if (case ag_session_id (wr_graph r) of Some i \<Rightarrow> i \<noteq> session_id | None \<Rightarrow> False)
      then (r, Inl (''lifecycle observation for session '' @ session_id @ '' does not match active session''))
      else case ag_snapshot (wr_graph r) of
             None \<Rightarrow> (r, Inl ''lifecycle observation arrived before graph registration'')
           | Some base \<Rightarrow>
               (case apply_observation_to_snapshot w session_id ext obs base of
                  Inl e \<Rightarrow> (r, Inl e)
                | Inr None \<Rightarrow> (r, Inr False)
                | Inr (Some next_graph) \<Rightarrow>
                    (r \<lparr> wr_graph := (wr_graph r) \<lparr> ag_snapshot := Some next_graph, ag_pending_publish := True \<rparr> \<rparr>, Inr True)))"

definition reconcile_operation ::
  "world \<Rightarrow> string \<Rightarrow> operation_owner_snapshot \<Rightarrow> work_runtime \<Rightarrow> work_runtime \<times> (string + bool)" where
  "reconcile_operation w session_id s = reconcile_observation w session_id (oo_external s) (into_observation s)"

section \<open>Owners in the workspace\<close>

text \<open>
  What the stores answer for a binding; a store that cannot be opened answers nothing. The candidates
  carry one of the two prefixes, so one of the two branches applies.
\<close>

definition workspace_observation :: "world \<Rightarrow> string \<Rightarrow> operation_observation option" where
  "workspace_observation w ext =
     (case strip_prefix ''fleet:'' ext of
        Some rest \<Rightarrow>
          Some (case split_once CHR ''/'' rest of
             Some (run_id, task_id) \<Rightarrow>
               (case w_fleet w (run_id @ '':'' @ task_id) of
                  Some task \<Rightarrow> into_observation (fleet_task_owner_snapshot task (w_now w))
                | None \<Rightarrow> OwnerMissing (w_now w))
           | None \<Rightarrow> OwnerMissing (w_now w))
      | None \<Rightarrow>
          (case strip_prefix ''lane:'' ext of
             Some lane_id \<Rightarrow>
               Some (case w_lane w lane_id of
                  Some rec \<Rightarrow> into_observation (lane_owner_snapshot rec (w_now w))
                | None \<Rightarrow> OwnerMissing (w_now w))
           | None \<Rightarrow> None))"

definition workspace_candidates :: "work_graph_snapshot \<Rightarrow> string list" where
  "workspace_candidates g =
     filter (\<lambda>ext. prefix ''fleet:'' ext \<or> prefix ''lane:'' ext) (durable_externals (wg_nodes g))"

definition reconcile_one ::
  "world \<Rightarrow> string \<Rightarrow> string \<Rightarrow> work_graph_snapshot \<times> usize \<Rightarrow> string + work_graph_snapshot \<times> usize" where
  "reconcile_one w session_id ext = (\<lambda>(g, changed).
     (case workspace_observation w ext of
        None \<Rightarrow> Inr (g, changed)
      | Some obs \<Rightarrow>
          and_then (apply_observation_to_snapshot w session_id ext obs g) (\<lambda>res.
          Inr (case res of Some next_graph \<Rightarrow> (next_graph, changed + 1) | None \<Rightarrow> (g, changed)))))"

definition reconcile_workspace_snapshot ::
  "world \<Rightarrow> string \<Rightarrow> work_graph_snapshot \<Rightarrow> string + work_graph_snapshot \<times> usize" where
  "reconcile_workspace_snapshot w session_id g =
     (if workspace_candidates g = [] then Inr (g, 0)
      else for_each (reconcile_one w session_id) (workspace_candidates g) (g, 0))"

text \<open>\<open>meanwhile\<close> is what other methods did between the two critical sections.\<close>

definition reconcile_workspace_owner_bindings ::
  "world \<Rightarrow> string \<Rightarrow> (work_runtime \<Rightarrow> work_runtime) \<Rightarrow> work_runtime \<Rightarrow> work_runtime \<times> (string + usize)" where
  "reconcile_workspace_owner_bindings w session_id meanwhile r =
     (if ag_session_id (wr_graph r) \<noteq> Some session_id
      then (r, Inl (''workspace owner reconciliation does not match active session '' @ session_id))
      else case ag_snapshot (wr_graph r) of
             None \<Rightarrow> (r, Inl ''workspace owner reconciliation has no active graph'')
           | Some base \<Rightarrow>
               (case reconcile_workspace_snapshot w session_id base of
                  Inl e \<Rightarrow> (meanwhile r, Inl e)
                | Inr (next_graph, changed) \<Rightarrow>
                    (let r1 = meanwhile r
                     in if changed = 0 then (r1, Inr 0)
                        else if ag_session_id (wr_graph r1) \<noteq> Some session_id \<or>
                                map_option wg_revision (ag_snapshot (wr_graph r1)) \<noteq> Some (wg_revision base)
                        then (r1, Inl ''Work Graph changed during workspace owner reconciliation'')
                        else (r1 \<lparr> wr_graph := (wr_graph r1) \<lparr> ag_snapshot := Some next_graph, ag_pending_publish := True \<rparr> \<rparr>,
                              Inr changed))))"

definition mark_restored_ephemeral_operations_stale ::
  "world \<Rightarrow> string \<Rightarrow> work_graph_snapshot \<Rightarrow> string + work_graph_snapshot \<times> bool" where
  "mark_restored_ephemeral_operations_stale w session_id g =
     (let candidates = map wn_id (filter (\<lambda>n. case wn_binding n of
            Some b \<Rightarrow> \<not> ob_durable b \<and> is_live (wn_state n) | None \<Rightarrow> False) (wg_nodes g))
      in if candidates = [] then Inr (g, False)
         else and_then (for_each (\<lambda>i h.
                case apply_change (w_sha w) h (ReconcileOperation i (OwnerMissing (w_now w))) (tool_ctx w session_id) of
                  Inl report \<Rightarrow> Inl (''restart reconcile: '' @ report_display report)
                | Inr (h', receipt) \<Rightarrow> Inr h') candidates g) (\<lambda>h. Inr (h, True)))"

section \<open>Activity, updates, publishing, saving and restoring\<close>

text \<open>Strings compare by their UTF-8 bytes, which for these characters is the order of the code points.\<close>

fun str_le :: "string \<Rightarrow> string \<Rightarrow> bool" where
  "str_le [] t = True"
| "str_le (c # s) [] = False"
| "str_le (c # s) (d # t) \<longleftrightarrow> (of_char c :: nat) < of_char d \<or> (c = d \<and> str_le s t)"

definition not_later :: "work_node \<Rightarrow> work_node \<Rightarrow> bool" where
  "not_later m n \<longleftrightarrow> wn_updated_at m < wn_updated_at n \<or> (wn_updated_at m = wn_updated_at n \<and> str_le (wn_id m) (wn_id n))"

definition latest_operation :: "work_graph_snapshot \<Rightarrow> work_node_id option" where
  "latest_operation g =
     (case filter (\<lambda>n. wn_kind n = NK_Operation \<and> is_live (wn_state n)) (wg_nodes g) of
        [] \<Rightarrow> None
      | n # ns \<Rightarrow> Some (wn_id (fold (\<lambda>m best. if not_later best m then m else best) ns n)))"

definition activity_record ::
  "world \<Rightarrow> string \<Rightarrow> work_activity_event \<Rightarrow> work_graph_snapshot \<Rightarrow> string + work_node_id option \<times> work_graph_snapshot option" where
  "activity_record w session_id event base =
     (let operation = latest_operation base
      in case apply_change (w_sha w) base (RecordActivity (event \<lparr> ae_ts := w_now w, ae_operation := operation \<rparr>)) (tool_ctx w session_id) of
           Inl report \<Rightarrow> Inl (''reasoning effort: '' @ report_display report)
         | Inr (g, receipt) \<Rightarrow> accept_next operation g)"

definition record_reasoning_effort_change ::
  "world \<Rightarrow> string option \<Rightarrow> reasoning_effort_tier \<Rightarrow> reasoning_effort_tier \<Rightarrow> api_provider \<Rightarrow> string \<Rightarrow>
   string option \<Rightarrow> string option \<Rightarrow> work_runtime \<Rightarrow> work_runtime \<times> (string + work_node_id option)" where
  "record_reasoning_effort_change w session_id requested effective provider_kind provider endpoint_identity model =
     with_locks w ''effort change was not recorded'' (\<lambda>r.
       let session = resolved_session_id (wr_graph r) session_id;
           event = \<lparr> ae_requested = requested, ae_effective = effective, ae_provider_kind = Some provider_kind,
             ae_provider = provider, ae_endpoint_identity = endpoint_identity, ae_model = model,
             ae_ts = w_now w, ae_operation = None \<rparr>
       in with_graph w session (activity_record w session event) r)"

text \<open>The check both updates make before they store a graph, and publishing makes again.\<close>

definition publication :: "world \<Rightarrow> work_graph_snapshot \<Rightarrow> string + plan_state \<times> todo_list" where
  "publication w g =
     (let next_plan = plan_from_snapshot (w_instant w) (project_plan g)
      in and_then (todo_from_snapshot (project_todos g)) (\<lambda>next_todos.
         and_then (validate_combined g (plan_snapshot_of next_plan) (todo_snapshot next_todos)) (\<lambda>_.
         Inr (next_plan, next_todos))))"

definition apply_plan_update ::
  "world \<Rightarrow> string \<Rightarrow> string \<Rightarrow> plan_snapshot \<Rightarrow> work_runtime \<Rightarrow> work_runtime \<times> (string + plan_snapshot)" where
  "apply_plan_update w session_id tool plan =
     with_graph w session_id (\<lambda>base.
       and_then (update_plan_graph w session_id tool plan base) (\<lambda>g.
       and_then (publication w g) (\<lambda>_. Inr (project_plan g, Some g))))"

definition apply_todo_update ::
  "world \<Rightarrow> string \<Rightarrow> string \<Rightarrow> todo_list_snapshot \<Rightarrow> work_runtime \<Rightarrow> work_runtime \<times> (string + todo_list_snapshot)" where
  "apply_todo_update w session_id tool todos =
     with_graph w session_id (\<lambda>base.
       and_then (update_todo_graph w session_id tool todos base) (\<lambda>g.
       and_then (publication w g) (\<lambda>_. Inr (project_todos g, Some g))))"

definition publish_pending :: "world \<Rightarrow> work_runtime \<Rightarrow> work_runtime \<times> (string + bool)" where
  "publish_pending w r =
     (if \<not> ag_pending_publish (wr_graph r) then (r, Inr False)
      else case ag_snapshot (wr_graph r) of
             None \<Rightarrow> (r, Inl ''pending Work projection has no graph'')
           | Some g \<Rightarrow>
               (case publication w g of
                  Inl e \<Rightarrow> (r, Inl e)
                | Inr (next_plan, next_todos) \<Rightarrow>
                    (\<lparr> wr_todos = next_todos, wr_plan = next_plan,
                       wr_graph = (wr_graph r) \<lparr> ag_pending_publish := False \<rparr> \<rparr>, Inr True)))"

definition publish_pending_sync :: "world \<Rightarrow> work_runtime \<Rightarrow> work_runtime \<times> (string + bool)" where
  "publish_pending_sync w = with_locks w ''saved Work views were not published'' (publish_pending w)"

definition has_pending_publish :: "work_runtime \<Rightarrow> bool" where
  "has_pending_publish r = ag_pending_publish (wr_graph r)"

definition current_todos :: "work_runtime \<Rightarrow> todo_list_snapshot" where
  "current_todos r =
     (case ag_snapshot (wr_graph r) of Some g \<Rightarrow> project_todos g | None \<Rightarrow> todo_snapshot (wr_todos r))"

definition capture_check ::
  "active_graph \<Rightarrow> plan_snapshot \<Rightarrow> todo_list_snapshot \<Rightarrow> work_graph_snapshot \<Rightarrow> string + work_graph_snapshot" where
  "capture_check active plan todos g =
     and_then (validate_combined g (project_plan g) (project_todos g)) (\<lambda>_.
     if ag_snapshot active \<noteq> None \<and> \<not> ag_pending_publish active \<and> (project_plan g \<noteq> plan \<or> project_todos g \<noteq> todos)
     then Inl ''live Work Graph and legacy views disagree'' else Inr g)"

definition nothing_to_save :: "work_runtime \<Rightarrow> bool" where
  "nothing_to_save r \<longleftrightarrow>
     todo_snapshot_is_empty (todo_snapshot (wr_todos r)) \<and> plan_snapshot_is_empty (plan_snapshot_of (wr_plan r)) \<and>
     (case ag_snapshot (wr_graph r) of Some g \<Rightarrow> snapshot_is_empty g | None \<Rightarrow> True)"

definition capture :: "world \<Rightarrow> string option \<Rightarrow> work_runtime \<Rightarrow> work_runtime \<times> (string + work_runtime_snapshot option)" where
  "capture w session_id =
     with_locks w ''try saving again'' (\<lambda>r.
       let todos = todo_snapshot (wr_todos r);
           plan = plan_snapshot_of (wr_plan r);
           active = wr_graph r
       in if nothing_to_save r then (r, Inr None)
          else let (a, base) = graph_for_update w (resolved_session_id active session_id) plan todos active
               in case and_then base (capture_check active plan todos) of
                    Inl e \<Rightarrow> (r \<lparr> wr_graph := a \<rparr>, Inl e)
                  | Inr g \<Rightarrow>
                      (r \<lparr> wr_graph := a \<lparr> ag_snapshot := Some g,
                             ag_pending_publish := (ag_pending_publish a \<or> ag_snapshot active = None) \<rparr> \<rparr>,
                       Inr (Some \<lparr> rs_graph = g, rs_todos = project_todos g, rs_plan = project_plan g \<rparr>)))"

definition restored_graph ::
  "world \<Rightarrow> string \<Rightarrow> work_graph_snapshot option \<Rightarrow> todo_list_snapshot \<Rightarrow> plan_snapshot \<Rightarrow> string + work_graph_snapshot" where
  "restored_graph w session_id graph todos plan =
     (case graph of
        Some g \<Rightarrow> (case validate g of Inl report \<Rightarrow> Inl (report_display report) | Inr _ \<Rightarrow> Inr g)
      | None \<Rightarrow>
          if todo_snapshot_is_empty todos \<and> plan_snapshot_is_empty plan then Inr snapshot_new
          else import_legacy (w_sha w) (w_canon w) (w_mk w) session_id plan todos)"

definition restore_check ::
  "bool \<Rightarrow> work_graph_snapshot \<Rightarrow> todo_list_snapshot \<Rightarrow> plan_snapshot \<Rightarrow> string + unit" where
  "restore_check had_graph g todos plan =
     (if snapshot_is_empty g \<and> (\<not> todo_snapshot_is_empty todos \<or> \<not> plan_snapshot_is_empty plan)
      then Inl ''empty Work Graph cannot carry non-empty legacy views''
      else if \<not> snapshot_is_empty g \<and> wg_import_digest g \<noteq> None \<and> compat_is_empty (wg_compat g)
      then Inl ''imported Work Graph is missing compatibility projections''
      else and_then (validate_combined g (project_plan g) (project_todos g)) (\<lambda>_.
           if had_graph \<and> (project_plan g \<noteq> plan \<or> project_todos g \<noteq> todos)
           then Inl ''persisted Work Graph and legacy views disagree'' else Inr ()))"

definition restore_candidate ::
  "world \<Rightarrow> string \<Rightarrow> work_graph_snapshot option \<Rightarrow> todo_list_snapshot \<Rightarrow> plan_snapshot \<Rightarrow> bool \<Rightarrow>
   string + work_graph_snapshot \<times> bool \<times> todo_list" where
  "restore_candidate w session_id graph todos plan in_workspace =
     and_then (restored_graph w session_id graph todos plan) (\<lambda>g0.
     and_then (mark_restored_ephemeral_operations_stale w session_id g0) (\<lambda>(g1, ephemeral).
     and_then (if in_workspace then reconcile_workspace_snapshot w session_id g1 else Inr (g1, 0)) (\<lambda>(g, changed).
     and_then (restore_check (graph \<noteq> None) g todos plan) (\<lambda>_.
     and_then (todo_from_snapshot (project_todos g)) (\<lambda>next_todos.
     Inr (g, ephemeral \<or> changed > 0, next_todos))))))"

definition restore_internal ::
  "world \<Rightarrow> string \<Rightarrow> work_graph_snapshot option \<Rightarrow> todo_list_snapshot \<Rightarrow> plan_snapshot \<Rightarrow> bool \<Rightarrow> work_runtime \<Rightarrow>
   work_runtime \<times> (string + work_runtime_snapshot option)" where
  "restore_internal w session_id graph todos plan in_workspace r =
     (case restore_candidate w session_id graph todos plan in_workspace of
        Inl e \<Rightarrow> (r, Inl e)
      | Inr (g, reconciled_owners, next_todos) \<Rightarrow>
          with_locks w ''session was not restored'' (\<lambda>_.
            (\<lparr> wr_todos = next_todos, wr_plan = plan_from_snapshot (w_instant w) (project_plan g),
               wr_graph = \<lparr> ag_session_id = Some session_id, ag_snapshot = Some g,
                 ag_pending_publish = (reconciled_owners \<or> (graph = None \<and> \<not> snapshot_is_empty g)) \<rparr> \<rparr>,
             Inr (if snapshot_is_empty g then None
                  else Some \<lparr> rs_graph = g, rs_todos = project_todos g, rs_plan = project_plan g \<rparr>))) r)"

definition restore ::
  "world \<Rightarrow> string \<Rightarrow> work_graph_snapshot option \<Rightarrow> todo_list_snapshot \<Rightarrow> plan_snapshot \<Rightarrow> work_runtime \<Rightarrow>
   work_runtime \<times> (string + work_runtime_snapshot option)" where
  "restore w session_id graph todos plan = restore_internal w session_id graph todos plan False"

definition restore_with_workspace_owner_bindings ::
  "world \<Rightarrow> string \<Rightarrow> work_graph_snapshot option \<Rightarrow> todo_list_snapshot \<Rightarrow> plan_snapshot \<Rightarrow> work_runtime \<Rightarrow>
   work_runtime \<times> (string + work_runtime_snapshot option)" where
  "restore_with_workspace_owner_bindings w session_id graph todos plan = restore_internal w session_id graph todos plan True"

definition clear :: "world \<Rightarrow> string option \<Rightarrow> work_runtime \<Rightarrow> work_runtime \<times> bool" where
  "clear w session_id r =
     (if w_todos_busy w \<or> w_plan_busy w then (r, False)
      else (\<lparr> wr_todos = todo_clear (wr_todos r), wr_plan = plan_state_default,
              wr_graph = \<lparr> ag_session_id = Some (resolved_session_id (wr_graph r) session_id),
                ag_snapshot = Some snapshot_new, ag_pending_publish = False \<rparr> \<rparr>, True))"

section \<open>What one step does\<close>

lemma tool_ctx_no_duplicate [simp]: "\<not> is_duplicate g (tool_ctx w session_id)"
  by (simp add: is_duplicate_def tool_ctx_def)

lemma commit_effect:
  assumes "(g', r) = commit sha g c ctx candidate"
  shows "wg_compat g' = wg_compat candidate" "view_of g' = view_of candidate" "wg_nodes g' = wg_nodes candidate"
    "wg_revision g' = wg_revision g + 1" "wg_history g' \<noteq> []" "cr_revision (last (wg_history g')) = wg_revision g'"
    "wg_import_digest g' = wg_import_digest candidate"
proof -
  have g': "g' = fst (commit sha g c ctx candidate)" using assms by (metis fst_conv)
  show "wg_compat g' = wg_compat candidate" "view_of g' = view_of candidate" "wg_nodes g' = wg_nodes candidate"
    unfolding g' by (simp_all add: view_of_def [abs_def])
  show "wg_revision g' = wg_revision g + 1" "wg_history g' \<noteq> []" "cr_revision (last (wg_history g')) = wg_revision g'"
    "wg_import_digest g' = wg_import_digest candidate"
    unfolding g' by (simp_all add: commit_def Let_def push_bounded_def receipt_of_def)
qed

text \<open>The log of a graph is current: its last receipt is that of its revision.\<close>

definition current_log :: "work_graph_snapshot \<Rightarrow> bool" where
  "current_log g \<longleftrightarrow> wg_history g = [] \<or> cr_revision (last (wg_history g)) = wg_revision g"

lemma current_log_inv:
  assumes "well_formed g" and "current_log g"
  shows "graph_inv g"
proof -
  have "cr_revision r \<le> cr_revision (last (wg_history g))" if "r \<in> set (wg_history g)" for r
  proof -
    from that have split: "butlast (wg_history g) @ [last (wg_history g)] = wg_history g" by (cases "wg_history g") auto
    have sorted: "sorted_wrt (<) (map cr_revision (butlast (wg_history g) @ [last (wg_history g)]))"
      unfolding split using assms(1) by (simp add: well_formed_def wf_history_def)
    from that have "r \<in> set (butlast (wg_history g) @ [last (wg_history g)])" unfolding split .
    then show ?thesis using sorted by (auto simp: sorted_wrt_append intro: less_imp_le)
  qed
  with assms show ?thesis by (auto simp: graph_inv_def current_log_def)
qed

lemma tool_apply_Inr:
  assumes "tool_apply w session_id tool c g = Inr g'"
  obtains candidate where "apply_pure (w_sha w) g (tool_ctx w session_id) c = Inr candidate" "well_formed candidate"
    "wg_compat g' = wg_compat candidate" "view_of g' = view_of candidate" "wg_nodes g' = wg_nodes candidate"
    "current_log g'" "wg_import_digest g' = wg_import_digest candidate"
proof -
  from assms obtain r where "apply_change (w_sha w) g c (tool_ctx w session_id) = Inr (g', r)"
    by (auto simp: tool_apply_def split: sum.splits)
  then obtain candidate where "apply_pure (w_sha w) g (tool_ctx w session_id) c = Inr candidate" "well_formed candidate"
    and "(g', r) = commit (w_sha w) g c (tool_ctx w session_id) candidate" by (rule apply_change_Inr) simp_all
  with commit_effect [OF this(3)] that show thesis by (simp add: current_log_def)
qed

lemma tool_add_node:
  assumes "tool_apply w session_id tool (AddNode n) g = Inr g'"
  shows "wg_compat g' = wg_compat g \<and> view_of g (wn_id n) = None \<and>
    view_of g' = (view_of g)(wn_id n \<mapsto> (wn_title n, wn_state n)) \<and> wg_nodes g' = wg_nodes g @ [n] \<and> current_log g'"
proof -
  from assms obtain c where "add_node n g = Inr c" "wg_compat g' = wg_compat c" "view_of g' = view_of c"
    "wg_nodes g' = wg_nodes c" "current_log g'" by (rule tool_apply_Inr) simp
  moreover from this have "wg_node g (wn_id n) = None" by (simp add: add_node_Inr)
  ultimately show ?thesis
    by (auto simp: add_node_Inr view_of_def wg_node_append fun_eq_iff split: option.split)
qed

lemma tool_add_edge:
  assumes "tool_apply w session_id tool (AddEdge e) g = Inr g'"
  shows "wg_compat g' = wg_compat g \<and> view_of g' = view_of g \<and> wg_nodes g' = wg_nodes g \<and> current_log g'"
proof -
  from assms obtain c where "add_edge e g = Inr c" "wg_compat g' = wg_compat c" "view_of g' = view_of c"
    "wg_nodes g' = wg_nodes c" "current_log g'" by (rule tool_apply_Inr) simp
  then show ?thesis by (auto simp: add_edge_Inr view_of_def fun_eq_iff)
qed

lemma tool_replace_compat:
  assumes "tool_apply w session_id tool (ReplaceCompatProjection c) g = Inr g'"
  shows "wg_compat g' = c \<and> view_of g' = view_of g \<and> wg_nodes g' = wg_nodes g \<and> current_log g' \<and>
    distinct (cs_plan_order c)"
proof -
  from assms obtain d where "apply_pure (w_sha w) g (tool_ctx w session_id) (ReplaceCompatProjection c) = Inr d" "well_formed d"
    "wg_compat g' = wg_compat d" "view_of g' = view_of d" "wg_nodes g' = wg_nodes d" "current_log g'" by (rule tool_apply_Inr)
  then show ?thesis by (auto simp: view_of_def fun_eq_iff well_formed_def wf_projection_def)
qed

lemma patch_existing_effect:
  assumes "patch_existing_node w session_id tool i title state g = Inr g'"
  shows "wg_compat g' = wg_compat g \<and> view_of g i \<noteq> None \<and> view_of g' = (view_of g)(i \<mapsto> (title, state)) \<and>
    map wn_kind (wg_nodes g') = map wn_kind (wg_nodes g) \<and> map wn_id (wg_nodes g') = map wn_id (wg_nodes g) \<and>
    (g' = g \<or> current_log g')"
proof -
  let ?p = "patch_default \<lparr> np_title := Some title, np_state := Some state, np_provenance := Some (tool_provenance g tool) \<rparr>"
  from assms obtain n where n: "wg_node g i = Some n" by (auto simp: patch_existing_node_def split: option.splits)
  show ?thesis
  proof (cases "wn_title n = title \<and> wn_state n = state")
    case True
    with assms n have "g' = g" by (simp add: patch_existing_node_def)
    with True n show ?thesis by (auto simp: view_of_def fun_eq_iff)
  next
    case False
    with assms n have "tool_apply w session_id tool (UpdateNode i ?p) g = Inr g'" by (auto simp: patch_existing_node_def)
    then obtain c where c: "patch_node i ?p (w_now w) g = Inr c" and same: "wg_compat g' = wg_compat c" "view_of g' = view_of c"
      "wg_nodes g' = wg_nodes c" "current_log g'" by (rule tool_apply_Inr) (simp add: tool_ctx_def)
    from c have c: "c = node_mut i (patched ?p (w_now w)) g" by (auto simp: patch_node_Inr)
    have "map wn_kind (wg_nodes c) = map wn_kind (wg_nodes g)" "map wn_id (wg_nodes c) = map wn_id (wg_nodes g)"
      unfolding c node_mut_def by (simp_all add: map_update_first patched_def)
    moreover have "view_of c = (view_of g)(i \<mapsto> (title, state))"
      using n unfolding c by (auto simp: view_of_def wg_node_node_mut patched_def patch_default_def fun_eq_iff)
    ultimately show ?thesis using same n by (simp add: c view_of_def)
  qed
qed

lemma upsert_effect:
  assumes "upsert_node w session_id tool n g = Inr g'"
  shows "wg_compat g' = wg_compat g \<and> view_of g' = (view_of g)(wn_id n \<mapsto> (wn_title n, wn_state n)) \<and> (g' = g \<or> current_log g')"
proof (cases "wg_node g (wn_id n)")
  case None
  with assms have "tool_apply w session_id tool (AddNode n) g = Inr g'" by (simp add: upsert_node_def)
  from tool_add_node [OF this] show ?thesis by simp
next
  case (Some m)
  with assms have "patch_existing_node w session_id tool (wn_id n) (wn_title n) (wn_state n) g = Inr g'"
    by (simp add: upsert_node_def split: if_splits)
  from patch_existing_effect [OF this] show ?thesis by simp
qed

lemma ensure_contains_effect:
  assumes "ensure_contains w session_id tool parent child g = Inr g'"
  shows "wg_compat g' = wg_compat g \<and> view_of g' = view_of g \<and> wg_nodes g' = wg_nodes g \<and> (g' = g \<or> current_log g')"
proof (cases "g' = g")
  case False
  with assms have "tool_apply w session_id tool (AddEdge (contains_edge (w_sha w) session_id parent child)) g = Inr g'"
    by (auto simp: ensure_contains_def Let_def split: if_splits)
  from tool_add_edge [OF this] show ?thesis by simp
qed simp

lemma ensure_objective_effect:
  assumes "ensure_objective w session_id tool plan g = Inr (i, g')"
  shows "wg_compat g' = wg_compat g \<and> (\<exists>t. view_of g' = (view_of g)(i \<mapsto> (t, NS_Ready))) \<and> (g' = g \<or> current_log g')"
  using assms by (auto simp: ensure_objective_def Let_def tool_node_def dest!: upsert_effect)

lemma deactivate_effect:
  assumes "deactivate_projected_todos w session_id tool g = Inr g'"
  shows "wg_compat g' = wg_compat g \<and> (g' = g \<or> current_log g')"
  using assms unfolding deactivate_projected_todos_def Let_def
  by (rule for_each_invariant) (auto dest!: patch_existing_effect)

section \<open>An accepted update shows what was asked for\<close>

lemma node_state_eqs: "plan_node_state s = node_state_from_plan s" "todo_node_state t = node_state_from_todo t"
  by (cases s; simp) (cases t; simp)

lemma update_plan_steps_effect:
  assumes "update_plan_steps w session_id tool objective index items (g, order) = Inr (g', order')"
  shows "wg_compat g' = wg_compat g \<and> (g' = g \<or> current_log g') \<and>
    (\<exists>ids. order' = order @ ids \<and> length ids = length items \<and> (\<forall>j. j \<notin> set ids \<longrightarrow> view_of g' j = view_of g j) \<and>
       (distinct ids \<longrightarrow>
         list_all2 (\<lambda>i a. view_of g' i = Some (trim (pi_step a), node_state_from_plan (pi_status a))) ids items))"
  using assms
proof (induction items arbitrary: g order index)
  case (Cons item items)
  let ?i = "plan_step_id w session_id g index"
  let ?v = "(trim (pi_step item), node_state_from_plan (pi_status item))"
  from Cons.prems obtain g1 g2 where
    up: "upsert_node w session_id tool (tool_node w tool g ?i NK_PlanStep (trim (pi_step item)) (plan_node_state (pi_status item))) g = Inr g1"
    and ec: "ensure_contains w session_id tool objective ?i g1 = Inr g2"
    and rest: "update_plan_steps w session_id tool objective (Suc index) items (g2, order @ [?i]) = Inr (g', order')"
    by (auto simp: Let_def)
  have here: "wg_compat g2 = wg_compat g" "view_of g2 = (view_of g)(?i \<mapsto> ?v)" "g2 = g \<or> current_log g2"
    using upsert_effect [OF up] ensure_contains_effect [OF ec] by (auto simp: tool_node_def node_state_eqs)
  from Cons.IH [OF rest] obtain ids where rest': "wg_compat g' = wg_compat g2" "g' = g2 \<or> current_log g'"
    "order' = (order @ [?i]) @ ids" "length ids = length items" "\<forall>j. j \<notin> set ids \<longrightarrow> view_of g' j = view_of g2 j"
    "distinct ids \<longrightarrow> list_all2 (\<lambda>i a. view_of g' i = Some (trim (pi_step a), node_state_from_plan (pi_status a))) ids items"
    by blast
  show ?case
  proof (intro conjI exI [of _ "?i # ids"] allI impI)
    show "list_all2 (\<lambda>i a. view_of g' i = Some (trim (pi_step a), node_state_from_plan (pi_status a))) (?i # ids) (item # items)"
      if "distinct (?i # ids)" using that rest'(5,6) here(2) by simp
  qed (use here rest' in auto)
qed simp

lemma update_plan_graph_views:
  assumes "update_plan_graph w session_id tool plan base = Inr g"
  shows "project_plan g = plan \<lparr> pl_items := map (\<lambda>a. a \<lparr> pi_step := trim (pi_step a) \<rparr>) (pl_items plan) \<rparr> \<and> current_log g"
proof -
  from assms obtain objective g1 g2 order where
    steps: "update_plan_steps w session_id tool objective 0 (pl_items plan) (g1, []) = Inr (g2, order)"
    and compat: "tool_apply w session_id tool (ReplaceCompatProjection (plan_compat plan order (wg_compat g2))) g2 = Inr g"
    by (auto simp: update_plan_graph_def)
  note last_step = tool_replace_compat [OF compat]
  have "distinct order" using last_step by (simp add: plan_compat_def Let_def)
  then have "list_all2 (\<lambda>i a. view_of g2 i = Some (trim (pi_step a), node_state_from_plan (pi_status a))) order (pl_items plan)"
    using update_plan_steps_effect [OF steps] by auto
  then have "list_all2 (\<lambda>i a. map_option step_of_view (view_of g i) = Some (a \<lparr> pi_step := trim (pi_step a) \<rparr>)) order (pl_items plan)"
    by (rule list.rel_mono_strong) (simp add: last_step step_of_view_def)
  from map_filter_list_all2 [OF this] show ?thesis
    using last_step by (simp add: project_plan_view plan_compat_def Let_def)
qed

definition row_set :: "work_graph_snapshot \<Rightarrow> compat_todo_binding \<Rightarrow> todo_item \<Rightarrow> bool" where
  "row_set g b item \<longleftrightarrow> tb_legacy_id b = ti_id item \<and>
     view_of g (tb_node b) = Some (trim (ti_content item), node_state_from_todo (ti_status item))"

lemma update_own_row_effect:
  assumes "update_own_row w session_id tool objective i title desired g = Inr g'"
  shows "wg_compat g' = wg_compat g \<and> (g' = g \<or> current_log g') \<and> view_of g' = (view_of g)(i \<mapsto> (title, desired))"
proof -
  let ?s = "if desired = NS_Active then NS_Ready else desired"
  from assms obtain g1 g2 where up: "upsert_node w session_id tool (tool_node w tool g i NK_PlanStep title ?s) g = Inr g1"
    and ec: "ensure_contains w session_id tool objective i g1 = Inr g2"
    and last_step: "desired \<noteq> NS_Active \<Longrightarrow> g' = g2"
      "desired = NS_Active \<Longrightarrow> \<exists>n. wg_node g2 i = Some n \<and> patch_existing_node w session_id tool i (wn_title n) desired g2 = Inr g'"
    by (auto simp: update_own_row_def split: if_splits option.splits)
  have here: "wg_compat g2 = wg_compat g" "view_of g2 = (view_of g)(i \<mapsto> (title, ?s))" "g2 = g \<or> current_log g2"
    using upsert_effect [OF up] ensure_contains_effect [OF ec] by (auto simp: tool_node_def)
  show ?thesis
  proof (cases "desired = NS_Active")
    case True
    with last_step obtain n where n: "wg_node g2 i = Some n" and patch: "patch_existing_node w session_id tool i (wn_title n) desired g2 = Inr g'"
      by blast
    have "view_of g2 i = Some (title, NS_Ready)" using here(2) True by simp
    then have "wn_title n = title" using n by (simp add: view_of_def)
    with patch_existing_effect [OF patch] here True show ?thesis by auto
  next
    case False
    with last_step here show ?thesis by simp
  qed
qed

lemma update_todo_row_effect:
  assumes "update_todo_row w session_id tool objective plan_order item (g, bs) = Inr (g', bs')"
  shows "\<exists>b. bs' = bs @ [b] \<and> tb_legacy_id b = ti_id item \<and> wg_compat g' = wg_compat g \<and> (g' = g \<or> current_log g') \<and>
    view_of g' = (view_of g)(tb_node b \<mapsto> (trim (ti_content item), node_state_from_todo (ti_status item)))"
proof (cases "todo_alias plan_order g (ti_id item)")
  case None
  with assms show ?thesis
    by (auto simp: update_todo_row_def Let_def node_state_eqs dest!: update_own_row_effect)
next
  case (Some a)
  obtain index i where "a = (index, i)" by (cases a)
  with assms Some show ?thesis
    by (auto simp: update_todo_row_def Let_def node_state_eqs dest!: patch_existing_effect)
qed

lemma update_todo_rows_effect:
  assumes "for_each (update_todo_row w session_id tool objective plan_order) items (g, bs) = Inr (g', bs')"
  shows "wg_compat g' = wg_compat g \<and> (g' = g \<or> current_log g') \<and>
    (\<exists>new. bs' = bs @ new \<and> length new = length items \<and> (\<forall>j. j \<notin> tb_node ` set new \<longrightarrow> view_of g' j = view_of g j) \<and>
       (distinct (map tb_node new) \<longrightarrow> list_all2 (row_set g') new items))"
  using assms
proof (induction items arbitrary: g bs)
  case (Cons item items)
  then obtain g1 bs1 where step: "update_todo_row w session_id tool objective plan_order item (g, bs) = Inr (g1, bs1)"
    and rest: "for_each (update_todo_row w session_id tool objective plan_order) items (g1, bs1) = Inr (g', bs')" by auto
  from update_todo_row_effect [OF step] obtain b where b: "bs1 = bs @ [b]" "tb_legacy_id b = ti_id item"
    "wg_compat g1 = wg_compat g" "g1 = g \<or> current_log g1"
    "view_of g1 = (view_of g)(tb_node b \<mapsto> (trim (ti_content item), node_state_from_todo (ti_status item)))" by blast
  from Cons.IH [OF rest] obtain new where new: "wg_compat g' = wg_compat g1" "g' = g1 \<or> current_log g'" "bs' = bs1 @ new"
    "length new = length items" "\<forall>j. j \<notin> tb_node ` set new \<longrightarrow> view_of g' j = view_of g1 j"
    "distinct (map tb_node new) \<longrightarrow> list_all2 (row_set g') new items" by blast
  show ?case
  proof (intro conjI exI [of _ "b # new"] allI impI)
    show "list_all2 (row_set g') (b # new) (item # items)" if "distinct (map tb_node (b # new))"
    proof -
      have "view_of g' (tb_node b) = Some (trim (ti_content item), node_state_from_todo (ti_status item))"
        using that new(5) b(5) by simp
      with that new(6) b(2) show ?thesis by (simp add: row_set_def)
    qed
  qed (use b new in auto)
qed simp

lemma update_todo_graph_views:
  assumes "update_todo_graph w session_id tool todos base = Inr g"
  shows "current_log g \<and>
    (distinct (map tb_node (cs_todos (wg_compat g))) \<longrightarrow> project_todos g = trimmed_todos todos)"
proof -
  from assms obtain objective order g1 g2 bs where
    rows: "for_each (update_todo_row w session_id tool objective order) (ls_items todos) (g1, []) = Inr (g2, bs)"
    and compat: "tool_apply w session_id tool (ReplaceCompatProjection ((wg_compat g2) \<lparr> cs_todos := bs \<rparr>)) g2 = Inr g"
    by (auto simp: update_todo_graph_def Let_def)
  note last_step = tool_replace_compat [OF compat]
  have "project_todos g = trimmed_todos todos" if "distinct (map tb_node (cs_todos (wg_compat g)))"
  proof -
    have "list_all2 (row_set g2) bs (ls_items todos)"
      using update_todo_rows_effect [OF rows] that last_step by simp
    then have "list_all2 (\<lambda>b item. map_option (item_of_view (tb_legacy_id b)) (view_of g (tb_node b)) =
        Some (item \<lparr> ti_content := trim (ti_content item) \<rparr>)) bs (ls_items todos)"
      by (rule list.rel_mono_strong) (simp add: row_set_def last_step item_of_view_def)
    from map_filter_list_all2 [OF this]
    have "ls_items (project_todos g) = map (\<lambda>i. i \<lparr> ti_content := trim (ti_content i) \<rparr>) (ls_items todos)"
      using last_step by (simp add: project_todos_view)
    then show ?thesis unfolding trimmed_todos_def by (intro project_todos_eqI) simp
  qed
  with last_step show ?thesis by blast
qed

end
