(* ===== verification/Spec2Isabelle.thy ===== *)
theory Spec2Isabelle
  imports Exec_Policy Approval_Mode Work_Runtime
begin

text \<open>
  A verification development of a coding agent for the terminal, written in Rust under \<open>src/crates\<close>.

  \<^bold>\<open>The parts of the program and how they interact.\<close> The agent runs a language model that proposes
  shell commands, file edits and plans. Three parts decide what may happen and remember what did:

    \<^item> the execution policy (\<open>execpolicy\<close>) decides for every proposed command or file access whether it
      is forbidden, needs the user's approval or runs without a prompt;
    \<^item> the provider registry (\<open>config\<close>, and its mirror in \<open>tui\<close>) decides which model service a name in
      the configuration selects and which endpoint may receive its credentials;
    \<^item> the work graph (\<open>tui/src/work_graph\<close>) holds the plan, the To-do list and the running operations
      of a session; every change goes through one reducer, and the older plan and To-do formats are
      views derived from the graph.

  The rest of the program - the interface, model clients, tools, the workflow engine - is input and
  output around these parts.

  \<^bold>\<open>Conventions.\<close> Each theory keeps the names of the code. A structure is a record whose fields carry a
  prefix, an enumeration a datatype; a fallible function returns the error on the left of a sum or
  \<^term>\<open>None\<close>; a loop is a recursive function proved total. Strings are lists of characters U+0000 to
  U+00FF. \<open>u8\<close>, \<open>u32\<close> and \<open>u64\<close> are words that wrap as in a release build; \<open>usize\<close> is
  \<^typ>\<open>nat\<close>, with the 64-bit bound written out where the code saturates; \<open>i64\<close> times are \<^typ>\<open>int\<close>.
  Code from other packages is a parameter of the definitions that use it: the SHA-256 digest, the URL
  and timestamp parsers, the JSON serialiser, the case rule of the host file system.

  \<^bold>\<open>Theories.\<close>

    \<^item> \<open>Rust_Prelude\<close>: what the code uses of the standard library, and the lemmas all components share.
    \<^item> \<open>Bash_Arity\<close> (\<open>execpolicy/src/bash_arity.rs\<close>): the table of command arities, the classifier and
      the matcher of allow rules. What an allow rule matches is what it says, flags apart; one pair of
      rows of the table can never be reached.
    \<^item> \<open>Shell_Expand\<close> (\<open>execpolicy/src/shell_expand.rs\<close>): every command line a shell would run for a
      given line. The collector's fuel is the code's own bound, depth 8 and 256 commands; the lemmas
      show that the bound holds and that, below it, substitutions and nested shell scripts are found.
    \<^item> \<open>Workspace_Path\<close> (path functions of \<open>execpolicy/src/lib.rs\<close>): an accepted path never leaves
      the workspace.
    \<^item> \<open>Worklist\<close>: the search loop with a stack and a set of seen items, as a locale; instances are the
      deny matcher and the ancestry walk of the validator.
    \<^item> \<open>Deny_Match\<close> (deny rules of \<open>execpolicy/src/lib.rs\<close>): the worklist matcher decides exactly when
      the words of a rule are a subsequence reached by skipping flags, so that flags and paths cannot
      hide a denied command.
    \<^item> \<open>Exec_Policy\<close> (the engine of \<open>execpolicy/src/lib.rs\<close>, all its operations and \<open>check\<close>) and
      \<open>Approval_Mode\<close> (\<open>approval_mode.rs\<close>): a denied prefix or a deny rule forbids in every mode,
      a command that skips the prompt does so for a stated reason.
    \<^item> \<open>Provider_Registry\<close> (\<open>config/src/provider_kind.rs\<close>, \<open>provider.rs\<close>, \<open>provider_defaults.rs\<close>) and
      \<open>Api_Provider\<close> (provider part of \<open>tui/src/config.rs\<close>): the readers of provider names, the 48
      metadata entries and the endpoint guards.
    \<^item> \<open>Work_Graph_Model\<close> (\<open>work_graph/ids.rs\<close>, \<open>model.rs\<close>, \<open>events.rs\<close>): data, bounded containers
      (the locale \<open>bounded_fifo\<close>, interpreted for the history, the activities and the seen keys) and
      evidence references.
    \<^item> \<open>Work_Graph_Validate\<close> (\<open>validate.rs\<close>): the checks, the invariants they stand for
      (\<open>well_formed\<close>), and that the checks decide them.
    \<^item> \<open>Work_Graph_Reducer\<close> (\<open>reducer.rs\<close>, \<open>mod.rs\<close>): every change; reachable graphs are well formed,
      terminal states are final, replays change nothing, an accepted plan is the previewed one, an
      owner that ends is always recorded.
    \<^item> \<open>Todo_Plan\<close> (\<open>tools/todo.rs\<close>, \<open>tools/plan.rs\<close>): the legacy list and plan.
    \<^item> \<open>Work_Graph_Views\<close> (\<open>compat.rs\<close>, \<open>digest.rs\<close>, \<open>liveness.rs\<close>): the derived views, the digest and
      the owners' vocabulary; operations never move the views.
    \<^item> \<open>Work_Graph_Import\<close> (\<open>migration.rs\<close>): the import of sessions saved before the graph; it is a run of
      the reducer and loses nothing.

  \<^bold>\<open>Bounds and fuel.\<close> No definition has fuel that the code does not have: the expander's depth and
  command limits, the 180 characters of a title, the caps of history, activities and seen keys are
  the code's constants. Properties that would need an unbounded revision counter say how many changes
  they allow (fewer than 18446744073709551616). The searches of the validator and of the deny matcher
  terminate because each step shrinks what is left to see, which their \<open>termination\<close> proofs show.

  \<^bold>\<open>Not modelled, and why.\<close> Terminal rendering and input, the asynchronous engine and its threads, HTTP
  clients, processes, sandboxes, databases and keyrings: input and output whose behaviour is that of
  the operating system or of services. Configuration loading: a third-party TOML parser with merging
  rules around it. The workflow engine's JavaScript machine: a third-party interpreter. Lock
  contention and task scheduling: the modelled operations run one at a time, as the code's mutexes
  make them.
\<close>

end
